theory Spec2Isabelle
  imports Complex_Main
begin

section \<open>Numeric conventions\<close>

text \<open>
  The program computes with Python floats. Apart from \<open>piecewise_lerp\<close> they are
  embedded as the reals: every arithmetic operation is the exact one, so binary rounding
  error is outside the model, while the decimal rounding the program asks for explicitly
  (\<open>round(x, n)\<close>) is part of it. \<open>py_round n x\<close> is Python's \<open>round(x, n)\<close> read on
  exact values: the nearest multiple of \<open>10^-n\<close>, a tie going to the even neighbour.
\<close>

definition round_half_even :: "real \<Rightarrow> int" where
  "round_half_even x =
     (let f = \<lfloor>x\<rfloor>; d = x - of_int f
      in if d < 1 / 2 then f
         else if 1 / 2 < d then f + 1
         else if even f then f else f + 1)"

definition py_round :: "nat \<Rightarrow> real \<Rightarrow> real" where
  "py_round n x = of_int (round_half_even (x * 10 ^ n)) / 10 ^ n"

text \<open>
  Binary double precision. \<open>fl x\<close> is the double nearest to \<open>x\<close>, a tie going to the
  even significand: with \<open>2^e \<le> |x| < 2^(e+1)\<close> the doubles around \<open>x\<close> are the
  multiples of \<open>2^(e-52)\<close>. The exponent is unbounded, so overflow to infinity and
  the subnormal range are outside the model. A float operation of the program is the
  exact operation followed by \<open>fl\<close>.
\<close>

definition pow2 :: "int \<Rightarrow> real" where
  "pow2 k = (if k \<ge> 0 then 2 ^ nat k else 1 / 2 ^ nat (- k))"

definition binade :: "real \<Rightarrow> int" where
  "binade x = \<lfloor>log 2 \<bar>x\<bar>\<rfloor>"

definition fl :: "real \<Rightarrow> real" where
  "fl x = (if x = 0 then 0
           else of_int (round_half_even (x / pow2 (binade x - 52))) * pow2 (binade x - 52))"

text \<open>\<open>int(x)\<close> on a float truncates towards zero.\<close>

definition py_int :: "real \<Rightarrow> int" where
  "py_int x = (if x \<ge> 0 then \<lfloor>x\<rfloor> else \<lceil>x\<rceil>)"

section \<open>Python built-ins\<close>

text \<open>
  An exception is a value: a function that can raise returns \<open>py_error + 'a\<close>, and
  \<open>bind_err\<close> passes the first error on. Float division raises on a zero denominator;
  indexing the first or last element raises on an empty list, and \<open>max\<close> of an empty
  sequence raises \<open>ValueError\<close>.
\<close>

datatype py_error = ZeroDivisionError | IndexError | ValueError

definition bind_err :: "py_error + 'a \<Rightarrow> ('a \<Rightarrow> py_error + 'b) \<Rightarrow> py_error + 'b" where
  "bind_err m f = (case m of Inl e \<Rightarrow> Inl e | Inr x \<Rightarrow> f x)"

definition py_div :: "real \<Rightarrow> real \<Rightarrow> py_error + real" where
  "py_div a b = (if b = 0 then Inl ZeroDivisionError else Inr (a / b))"

definition py_first :: "'a list \<Rightarrow> py_error + 'a" where
  "py_first xs = (case xs of [] \<Rightarrow> Inl IndexError | x # _ \<Rightarrow> Inr x)"

definition py_last :: "'a list \<Rightarrow> py_error + 'a" where
  "py_last xs = (if xs = [] then Inl IndexError else Inr (last xs))"

text \<open>
  \<open>max(xs, key=...)\<close> and \<open>min(xs)\<close> on a list with first element \<open>x\<close>: the first
  element with the largest key; the least element.
\<close>

fun py_max_by :: "('a \<Rightarrow> real) \<Rightarrow> 'a \<Rightarrow> 'a list \<Rightarrow> 'a" where
  "py_max_by key best [] = best"
| "py_max_by key best (x # xs) = py_max_by key (if key x > key best then x else best) xs"

fun py_min :: "real \<Rightarrow> real list \<Rightarrow> real" where
  "py_min least [] = least"
| "py_min least (x # xs) = py_min (if x < least then x else least) xs"

text \<open>\<open>d[k] = v\<close> on a dictionary kept in insertion order.\<close>

fun dict_set :: "('k \<times> 'v) list \<Rightarrow> 'k \<Rightarrow> 'v \<Rightarrow> ('k \<times> 'v) list" where
  "dict_set [] k v = [(k, v)]"
| "dict_set ((k', v') # d) k v = (if k' = k then (k', v) # d else (k', v') # dict_set d k v)"

section \<open>utils/helpers.py\<close>

definition CRITICAL_THRESHOLD :: real where "CRITICAL_THRESHOLD = 78"
definition HIGH_ALERT_THRESHOLD :: real where "HIGH_ALERT_THRESHOLD = 62"
definition WATCHLIST_THRESHOLD :: real where "WATCHLIST_THRESHOLD = 48"
definition MONITOR_THRESHOLD :: real where "MONITOR_THRESHOLD = 33"

datatype classification = NONE | MONITOR | WATCHLIST | HIGH_ALERT | CRITICAL

definition classify_score :: "real \<Rightarrow> classification" where
  "classify_score score =
     (if score \<ge> CRITICAL_THRESHOLD then CRITICAL
      else if score \<ge> HIGH_ALERT_THRESHOLD then HIGH_ALERT
      else if score \<ge> WATCHLIST_THRESHOLD then WATCHLIST
      else if score \<ge> MONITOR_THRESHOLD then MONITOR
      else NONE)"

text \<open>\<open>safe_divide\<close>: the default when the denominator is zero.\<close>

definition safe_divide :: "real \<Rightarrow> real \<Rightarrow> real \<Rightarrow> real" where
  "safe_divide numerator denominator dflt =
     (if denominator = 0 then dflt else numerator / denominator)"

definition clamp :: "real \<Rightarrow> real \<Rightarrow> real \<Rightarrow> real" where
  "clamp v min_val max_val = max min_val (min max_val v)"

text \<open>
  \<open>piecewise_lerp\<close>: the two end tests first, then the loop over consecutive pairs of
  breakpoints, which returns at the first segment that contains the value and falls
  through to \<open>0.0\<close> when none does. The specification asks of this function that two
  differently computed floats be equal and ordered, so its arithmetic is embedded in
  double precision: \<open>t = (value - x0) / (x1 - x0)\<close> is two subtractions and a division,
  \<open>y0 + t * (y1 - y0)\<close> a subtraction, a multiplication and an addition, each rounded,
  and \<open>float(y)\<close> is \<open>fl y\<close>. The value and the coordinates of the breakpoints are
  doubles, or integers below \<open>2^53\<close> in magnitude, which convert to doubles unchanged;
  the comparisons are exact.
\<close>

fun lerp_loop :: "real \<Rightarrow> (real \<times> real) list \<Rightarrow> real" where
  "lerp_loop v ((x0, y0) # (x1, y1) # rest) =
     (if x0 \<le> v \<and> v \<le> x1
      then (if x1 = x0 then fl y0
            else (let t = fl (fl (v - x0) / fl (x1 - x0))
                  in fl (y0 + fl (t * fl (y1 - y0)))))
      else lerp_loop v ((x1, y1) # rest))"
| "lerp_loop v [p] = 0"
| "lerp_loop v [] = 0"

definition piecewise_lerp :: "real \<Rightarrow> (real \<times> real) list \<Rightarrow> real" where
  "piecewise_lerp v breakpoints =
     (if breakpoints = [] then 0
      else if v \<le> fst (hd breakpoints) then fl (snd (hd breakpoints))
      else if v \<ge> fst (last breakpoints) then fl (snd (last breakpoints))
      else lerp_loop v breakpoints)"

text \<open>Breakpoints with strictly increasing x and non-decreasing y.\<close>

definition monotonic_breakpoints :: "(real \<times> real) list \<Rightarrow> bool" where
  "monotonic_breakpoints bps \<longleftrightarrow> sorted_wrt (<) (map fst bps) \<and> sorted (map snd bps)"

text \<open>
  Breakpoints whose y-coordinates are integers below \<open>2^52\<close> in magnitude, as are those of
  every curve of the signal engine: such y and their differences are doubles.
\<close>

definition integer_ys :: "(real \<times> real) list \<Rightarrow> bool" where
  "integer_ys bps \<longleftrightarrow> list_all (\<lambda>(x, y). y = of_int \<lfloor>y\<rfloor> \<and> \<bar>y\<bar> < 2 ^ 52) bps"

text \<open>The breakpoints \<open>[(0, 0.3), (1, 0.9), (2, 0.9)]\<close>, the decimals read as doubles.\<close>

definition tenths_breakpoints :: "(real \<times> real) list" where
  "tenths_breakpoints = [(0, fl (3 / 10)), (1, fl (9 / 10)), (2, fl (9 / 10))]"

section \<open>core/database.py\<close>

text \<open>
  The SQLite tables the claims touch, each as the list of its rows in insertion order.
  \<open>time.time()\<close> is an explicit argument \<open>now\<close> of every operation that reads the clock.
  A snapshot's JSON payload is a dictionary of numbers; a key that is absent and a key
  holding \<open>null\<close> read the same in every place the program looks one up, so the
  payload is a partial map.
\<close>

record snapshot =
  snap_timestamp :: real
  snap_symbol :: string
  snap_exchange :: string
  snap_data_type :: string
  snap_data :: "string \<rightharpoonup> real"

text \<open>
  A metadata dictionary of a signal: its entries in insertion order. A number that the
  program formats into a string is kept as the number (\<open>MPct x\<close> for \<open>f"{x:.4f}%"\<close>).
\<close>

datatype meta_value =
    MNum real
  | MInt int
  | MStr string
  | MPct real
  | MStrs "string list"
  | MNums "(string \<times> real) list"

record signal_row =
  sh_timestamp :: real
  sh_symbol :: string
  sh_signal_name :: string
  sh_raw_value :: real
  sh_normalized_score :: real
  sh_metadata :: "(string \<times> meta_value) list"

text \<open>A penalty label \<open>f"extended_{p:.1f}%"\<close>, kept as the number it prints.\<close>

datatype penalty = Extended real

record score_row =
  sr_timestamp :: real
  sr_symbol :: string
  sr_composite_score :: real
  sr_classification :: classification
  sr_signal_scores :: "(string \<times> real) list"
  sr_bonuses_applied :: "string list"
  sr_penalties_applied :: "penalty list"

record trade =
  symbol :: string
  entry_price :: real
  position_size_usd :: real
  stop_loss_pct :: real
  current_stop_price :: real
  entry_timestamp :: real
  tp1_hit :: int
  tp2_hit :: int
  tp3_hit :: int
  tp4_hit :: int
  remaining_fraction :: real
  realized_pnl :: real
  last_notified_stop_pct :: real
  last_score :: real
  metadata :: "string \<rightharpoonup> int"

record trade_history_row =
  th_symbol :: string
  th_entry_price :: real
  th_exit_price :: real
  th_position_size_usd :: real
  th_realized_pnl :: real
  th_entry_timestamp :: real
  th_exit_timestamp :: real
  th_duration_hours :: real
  th_max_gain_pct :: real
  th_exit_reason :: string
  th_metadata :: "string \<rightharpoonup> int"

record database =
  snapshots :: "snapshot list"
  signal_history :: "signal_row list"
  score_history :: "score_row list"
  active_trades :: "trade list"
  trade_history :: "trade_history_row list"

definition empty_database :: database where
  "empty_database = \<lparr>snapshots = [], signal_history = [], score_history = [], active_trades = [], trade_history = []\<rparr>"


definition store_signals_batch :: "database \<Rightarrow> signal_row list \<Rightarrow> database" where
  "store_signals_batch db rows = db\<lparr>signal_history := signal_history db @ rows\<rparr>"

text \<open>
  \<open>get_snapshots\<close> without the exchange filter: the rows of the symbol and data type
  newer than the cutoff, by ascending timestamp.
\<close>

definition get_snapshots :: "database \<Rightarrow> real \<Rightarrow> string \<Rightarrow> string \<Rightarrow> real \<Rightarrow> snapshot list" where
  "get_snapshots db now symb data_type hours_back =
     (let cutoff = now - hours_back * 3600
      in sort_key snap_timestamp
           (filter (\<lambda>r. snap_symbol r = symb \<and> snap_data_type r = data_type \<and> snap_timestamp r > cutoff)
                   (snapshots db)))"

definition store_score ::
  "database \<Rightarrow> real \<Rightarrow> string \<Rightarrow> real \<Rightarrow> classification \<Rightarrow> (string \<times> real) list \<Rightarrow> string list
     \<Rightarrow> penalty list \<Rightarrow> database" where
  "store_score db now symb composite cl sscores bonuses penalties =
     db\<lparr>score_history := score_history db @
        [\<lparr>sr_timestamp = now, sr_symbol = symb, sr_composite_score = composite,
          sr_classification = cl, sr_signal_scores = sscores,
          sr_bonuses_applied = bonuses, sr_penalties_applied = penalties\<rparr>]\<rparr>"

text \<open>
  The rows of one symbol by descending timestamp (\<open>ORDER BY timestamp DESC\<close>); among
  equal timestamps the later insertion comes first.
\<close>

definition score_rows_desc :: "database \<Rightarrow> string \<Rightarrow> score_row list" where
  "score_rows_desc db symb = rev (sort_key sr_timestamp (filter (\<lambda>r. sr_symbol r = symb) (score_history db)))"

definition get_latest_score :: "database \<Rightarrow> string \<Rightarrow> score_row option" where
  "get_latest_score db symb = (case take 1 (score_rows_desc db symb) of [] \<Rightarrow> None | row # _ \<Rightarrow> Some row)"

definition get_previous_score :: "database \<Rightarrow> string \<Rightarrow> score_row option" where
  "get_previous_score db symb =
     (let rows = take 2 (score_rows_desc db symb)
      in if length rows \<ge> 2 then Some (rows ! 1) else None)"

text \<open>
  \<open>add_trade\<close>: \<open>INSERT OR REPLACE\<close> on the unique symbol removes the row of the symbol,
  if any, and inserts the new one. The success flag is returned with the database.
\<close>

definition add_trade :: "database \<Rightarrow> real \<Rightarrow> string \<Rightarrow> real \<Rightarrow> real \<Rightarrow> real \<Rightarrow> database \<times> bool" where
  "add_trade db now symb ep ps sl =
     (let stop_price = ep * (1 - sl / 100);
          row = \<lparr>symbol = symb, entry_price = ep, position_size_usd = ps, stop_loss_pct = sl,
                 current_stop_price = stop_price, entry_timestamp = now,
                 tp1_hit = 0, tp2_hit = 0, tp3_hit = 0, tp4_hit = 0,
                 remaining_fraction = 1, realized_pnl = 0, last_notified_stop_pct = 0,
                 last_score = 0, metadata = Map.empty\<rparr>
      in (db\<lparr>active_trades := filter (\<lambda>t. symbol t \<noteq> symb) (active_trades db) @ [row]\<rparr>, True))"

text \<open>
  \<open>ORDER BY entry_timestamp DESC\<close>: the latest entry first, rows with the same
  \<open>entry_timestamp\<close> in insertion order (the sort is stable, so it runs on the reversed
  table and its result is reversed).
\<close>

definition get_active_trades :: "database \<Rightarrow> trade list" where
  "get_active_trades db = rev (sort_key entry_timestamp (rev (active_trades db)))"

definition get_active_trade :: "database \<Rightarrow> string \<Rightarrow> trade option" where
  "get_active_trade db symb = find (\<lambda>t. symbol t = symb) (active_trades db)"

text \<open>\<open>update_trade\<close>: the column assignments of the \<open>updates\<close> dictionary, in its order.\<close>

datatype trade_update =
    Set_tp_hit nat int
  | Set_remaining_fraction real
  | Set_realized_pnl real
  | Set_current_stop_price real
  | Set_last_notified_stop_pct real
  | Set_last_score real
  | Set_metadata "string \<rightharpoonup> int"

fun apply_update :: "trade \<Rightarrow> trade_update \<Rightarrow> trade" where
  "apply_update t (Set_tp_hit l v) =
     (if l = 1 then t\<lparr>tp1_hit := v\<rparr> else if l = 2 then t\<lparr>tp2_hit := v\<rparr>
      else if l = 3 then t\<lparr>tp3_hit := v\<rparr> else if l = 4 then t\<lparr>tp4_hit := v\<rparr> else t)"
| "apply_update t (Set_remaining_fraction v) = t\<lparr>remaining_fraction := v\<rparr>"
| "apply_update t (Set_realized_pnl v) = t\<lparr>realized_pnl := v\<rparr>"
| "apply_update t (Set_current_stop_price v) = t\<lparr>current_stop_price := v\<rparr>"
| "apply_update t (Set_last_notified_stop_pct v) = t\<lparr>last_notified_stop_pct := v\<rparr>"
| "apply_update t (Set_last_score v) = t\<lparr>last_score := v\<rparr>"
| "apply_update t (Set_metadata v) = t\<lparr>metadata := v\<rparr>"

definition update_trade :: "database \<Rightarrow> string \<Rightarrow> trade_update list \<Rightarrow> database" where
  "update_trade db symb updates =
     (if updates = [] then db
      else db\<lparr>active_trades :=
             map (\<lambda>t. if symbol t = symb then foldl apply_update t updates else t) (active_trades db)\<rparr>)"

text \<open>
  \<open>close_trade\<close>: \<open>None\<close> when the symbol has no active trade. The profit of the remaining
  fraction divides by the entry price: Python raises \<open>ZeroDivisionError\<close> there when the
  entry price is zero, before any table is written. The returned dictionary divides by the
  position size, after the history row is inserted, the active row deleted and both
  committed. An error therefore carries the database it leaves behind.
\<close>

record close_result =
  cr_symbol :: string
  cr_entry_price :: real
  cr_exit_price :: real
  cr_position_size_usd :: real
  cr_total_pnl :: real
  cr_total_pnl_pct :: real
  cr_duration_hours :: real
  cr_exit_reason :: string

definition close_trade ::
  "database \<Rightarrow> real \<Rightarrow> string \<Rightarrow> real \<Rightarrow> string
     \<Rightarrow> (py_error \<times> database) + (database \<times> close_result option)" where
  "close_trade db now symb exit_price exit_reason =
     (case get_active_trade db symb of
        None \<Rightarrow> Inr (db, None)
      | Some t \<Rightarrow>
          if entry_price t = 0 then Inl (ZeroDivisionError, db)
          else
            let duration_hours = (now - entry_timestamp t) / 3600;
                pnl_remaining = remaining_fraction t * position_size_usd t
                                  * (exit_price - entry_price t) / entry_price t;
                total_pnl = realized_pnl t + pnl_remaining;
                max_gain = (exit_price - entry_price t) / entry_price t * 100;
                row = \<lparr>th_symbol = symb, th_entry_price = entry_price t, th_exit_price = exit_price,
                       th_position_size_usd = position_size_usd t, th_realized_pnl = total_pnl,
                       th_entry_timestamp = entry_timestamp t, th_exit_timestamp = now,
                       th_duration_hours = duration_hours, th_max_gain_pct = max_gain,
                       th_exit_reason = exit_reason, th_metadata = metadata t\<rparr>;
                db' = db\<lparr>trade_history := trade_history db @ [row],
                         active_trades := filter (\<lambda>t. symbol t \<noteq> symb) (active_trades db)\<rparr>
            in if position_size_usd t = 0 then Inl (ZeroDivisionError, db')
               else Inr (db',
                      Some \<lparr>cr_symbol = symb, cr_entry_price = entry_price t, cr_exit_price = exit_price,
                            cr_position_size_usd = position_size_usd t, cr_total_pnl = total_pnl,
                            cr_total_pnl_pct = (total_pnl / position_size_usd t) * 100,
                            cr_duration_hours = duration_hours, cr_exit_reason = exit_reason\<rparr>))"

text \<open>The database a call leaves behind, whether it returned or raised.\<close>

fun database_after :: "(py_error \<times> database) + (database \<times> 'a) \<Rightarrow> database" where
  "database_after (Inl (e, db)) = db"
| "database_after (Inr (db, r)) = db"

section \<open>core/signals.py\<close>

text \<open>An OHLCV candle \<open>[timestamp, open, high, low, close, volume]\<close>.\<close>

record candle =
  c_time :: real
  c_open :: real
  c_high :: real
  c_low :: real
  c_close :: real
  c_volume :: real

text \<open>The merged order book: price and amount of every level.\<close>

record orderbook =
  bids :: "(real \<times> real) list"
  asks :: "(real \<times> real) list"

text \<open>A signal result: \<open>{"raw_value": ..., "normalized_score": ..., "metadata": {...}}\<close>.\<close>

record signal =
  raw_value :: real
  normalized_score :: real
  sig_metadata :: "(string \<times> meta_value) list"

text \<open>
  The data bundle of one token: per exchange (dictionaries in insertion order) the candles,
  the ticker, the open interest, the funding rate, the order book and the long/short
  ratio. A ticker is a dictionary of numbers whose entries may be missing or null.
\<close>

record data_bundle =
  ohlcv :: "(string \<times> candle list) list"
  tickers :: "(string \<times> (string \<rightharpoonup> real)) list"
  open_interest :: "(string \<times> real) list"
  funding_rates :: "(string \<times> real) list"
  orderbooks :: "(string \<times> orderbook) list"
  long_short_ratios :: "(string \<times> real) list"

definition empty_bundle :: data_bundle where
  "empty_bundle = \<lparr>ohlcv = [], tickers = [], open_interest = [], funding_rates = [],
                     orderbooks = [], long_short_ratios = []\<rparr>"

subsection \<open>numpy\<close>

definition np_mean :: "real list \<Rightarrow> real" where
  "np_mean xs = sum_list xs / real (length xs)"

definition np_median :: "real list \<Rightarrow> real" where
  "np_median xs =
     (let s = sort xs; n = length s
      in if odd n then s ! (n div 2) else (s ! (n div 2 - 1) + s ! (n div 2)) / 2)"

definition np_std :: "real list \<Rightarrow> real" where
  "np_std xs = (let m = np_mean xs in sqrt (np_mean (map (\<lambda>x. (x - m) ^ 2) xs)))"

subsection \<open>Results\<close>

text \<open>The result on insufficient data, and the result of a scored signal.\<close>

definition insufficient :: "string \<Rightarrow> (string \<times> meta_value) list \<Rightarrow> signal" where
  "insufficient reason extra =
     \<lparr>raw_value = 0, normalized_score = 0, sig_metadata = (''reason'', MStr reason) # extra\<rparr>"

definition scored :: "real \<Rightarrow> real \<Rightarrow> (string \<times> meta_value) list \<Rightarrow> signal" where
  "scored raw nrm meta =
     \<lparr>raw_value = raw, normalized_score = py_round 1 (clamp nrm 0 100), sig_metadata = meta\<rparr>"

subsection \<open>Helpers\<close>

text \<open>\<open>x or y or 0\<close> on two optional numbers.\<close>

definition first_truthy :: "real option \<Rightarrow> real option \<Rightarrow> real" where
  "first_truthy a b =
     (case a of
        Some x \<Rightarrow> if x \<noteq> 0 then x else (case b of Some y \<Rightarrow> y | None \<Rightarrow> 0)
      | None \<Rightarrow> (case b of Some y \<Rightarrow> y | None \<Rightarrow> 0))"

text \<open>\<open>float(t.get("quoteVolume") or t.get("volume", 0) or 0)\<close>\<close>

definition ticker_volume :: "(string \<rightharpoonup> real) \<Rightarrow> real" where
  "ticker_volume t = first_truthy (t ''quoteVolume'') (t ''volume'')"

fun first_ticker_price :: "(string \<times> (string \<rightharpoonup> real)) list \<Rightarrow> real option" where
  "first_ticker_price [] = None"
| "first_ticker_price ((ex, t) # rest) =
     (case t ''last'' of
        Some p \<Rightarrow> if p \<noteq> 0 \<and> p > 0 then Some p else first_ticker_price rest
      | None \<Rightarrow> first_ticker_price rest)"

fun first_candles :: "(string \<times> candle list) list \<Rightarrow> candle list option" where
  "first_candles [] = None"
| "first_candles ((ex, c) # rest) = (if c \<noteq> [] then Some c else first_candles rest)"

definition get_current_price :: "data_bundle \<Rightarrow> real" where
  "get_current_price data =
     (case first_ticker_price (tickers data) of
        Some p \<Rightarrow> p
      | None \<Rightarrow> (case first_candles (ohlcv data) of Some c \<Rightarrow> c_close (last c) | None \<Rightarrow> 0))"

text \<open>
  \<open>_get_price_change\<close>: the loop over the exchanges' candles returns at the first old
  close that is positive; then the ticker history is tried.
\<close>

fun candles_change :: "real \<Rightarrow> nat \<Rightarrow> (string \<times> candle list) list \<Rightarrow> (py_error + real) option" where
  "candles_change cur hours [] = None"
| "candles_change cur hours ((ex, candles) # rest) =
     (if candles \<noteq> [] \<and> length candles \<ge> hours
      then (let old = c_close (candles ! (length candles - hours))
            in if old > 0
               then Some (bind_err (py_div (cur - old) old) (\<lambda>q. Inr (q * 100)))
               else candles_change cur hours rest)
      else if candles \<noteq> [] \<and> length candles > 1
      then (let old = c_close (candles ! 0)
            in if old > 0
               then Some (bind_err (py_div (cur - old) old) (\<lambda>q. Inr (q * 100)))
               else candles_change cur hours rest)
      else candles_change cur hours rest)"

fun history_change :: "real \<Rightarrow> snapshot list \<Rightarrow> (py_error + real) option" where
  "history_change cur [] = None"
| "history_change cur (h # hist) =
     (case snap_data h ''last'' of
        Some old \<Rightarrow>
          if old \<noteq> 0 \<and> old > 0
          then Some (bind_err (py_div (cur - old) old) (\<lambda>q. Inr (q * 100)))
          else history_change cur hist
      | None \<Rightarrow> history_change cur hist)"

definition get_price_change :: "database \<Rightarrow> real \<Rightarrow> string \<Rightarrow> data_bundle \<Rightarrow> nat \<Rightarrow> py_error + real" where
  "get_price_change db now symb data hours =
     (let cur = get_current_price data
      in if cur = 0 then Inr 0
         else case candles_change cur hours (ohlcv data) of
                Some r \<Rightarrow> r
              | None \<Rightarrow>
                  (case history_change cur (get_snapshots db now symb ''ticker'' (real hours)) of
                     Some r \<Rightarrow> r
                   | None \<Rightarrow> Inr 0))"

subsection \<open>The nine signals\<close>

text \<open>
  The loop of \<open>_compute_oi_surge\<close> over the history: the open interest of each exchange
  within the first hour after the earliest snapshot, a later snapshot replacing an
  earlier one of the same exchange.
\<close>

fun oldest_oi_scan :: "real \<Rightarrow> snapshot list \<Rightarrow> (string \<times> real) list \<Rightarrow> (string \<times> real) list" where
  "oldest_oi_scan earliest [] oldest_oi = oldest_oi"
| "oldest_oi_scan earliest (h # hist) oldest_oi =
     (if snap_timestamp h \<le> earliest + 3600
      then (case snap_data h ''open_interest'' of
              Some oi \<Rightarrow>
                if oi \<noteq> 0 \<and> oi > 0
                then oldest_oi_scan earliest hist (dict_set oldest_oi (snap_exchange h) oi)
                else oldest_oi_scan earliest hist oldest_oi
            | None \<Rightarrow> oldest_oi_scan earliest hist oldest_oi)
      else oldest_oi_scan earliest hist oldest_oi)"

definition oi_surge_curve :: "(real \<times> real) list" where
  "oi_surge_curve =
     [(- 10, 0), (0, 10), (5, 25), (10, 45), (15, 58), (20, 68), (30, 80), (40, 90), (60, 100)]"

definition compute_oi_surge :: "database \<Rightarrow> real \<Rightarrow> string \<Rightarrow> data_bundle \<Rightarrow> py_error + signal" where
  "compute_oi_surge db now symb data =
     (let current_oi = filter (\<lambda>(ex, v). v \<noteq> 0 \<and> v > 0) (open_interest data)
      in if current_oi = [] then Inr (insufficient ''no OI'' [])
         else
           let total_current = sum_list (map snd current_oi);
               historical = get_snapshots db now symb ''open_interest'' 72
           in case map snap_timestamp historical of
                [] \<Rightarrow> Inr (insufficient ''no hist OI'' [(''current_oi'', MNum total_current)])
              | t # ts \<Rightarrow>
                  let earliest = py_min t ts;
                      oldest_oi = oldest_oi_scan earliest historical []
                  in if oldest_oi = [] then Inr (insufficient ''no valid hist OI'' [])
                     else
                       let total_old = sum_list (map snd oldest_oi)
                       in if total_old = 0 then Inr (insufficient ''zero hist OI'' [])
                          else
                            bind_err (py_div (total_current - total_old) total_old) (\<lambda>q.
                            bind_err (get_price_change db now symb data 72) (\<lambda>price_pct.
                              let oi_pct = q * 100;
                                  pf = max (2 / 10) (1 - \<bar>price_pct\<bar> / 20);
                                  effective = oi_pct * pf;
                                  nrm = piecewise_lerp effective oi_surge_curve
                              in Inr (scored (py_round 2 oi_pct) nrm
                                   [(''oi_change_pct'', MNum (py_round 2 oi_pct)),
                                    (''price_change_pct'', MNum (py_round 2 price_pct)),
                                    (''current_oi'', MNum (py_round 2 total_current)),
                                    (''old_oi'', MNum (py_round 2 total_old)),
                                    (''history_hours'', MNum (py_round 1 ((now - earliest) / 3600))),
                                    (''exchanges_with_oi'', MStrs (map fst current_oi))]))))"

text \<open>The counters \<open>neg\<close> and \<open>total\<close> of \<open>_compute_funding_rate\<close>.\<close>

fun funding_counts :: "snapshot list \<Rightarrow> nat \<times> nat \<Rightarrow> nat \<times> nat" where
  "funding_counts [] (neg, tot) = (neg, tot)"
| "funding_counts (h # hist) (neg, tot) =
     (case snap_data h ''funding_rate'' of
        Some r \<Rightarrow> funding_counts hist (if r < - (1 / 10000) then neg + 1 else neg, tot + 1)
      | None \<Rightarrow> funding_counts hist (neg, tot))"

definition funding_positive_curve :: "(real \<times> real) list" where
  "funding_positive_curve = [(- (1 / 1000), 0), (0, 5)]"

definition funding_negative_curve :: "(real \<times> real) list" where
  "funding_negative_curve =
     [(0, 5), (3 / 10000, 20), (5 / 10000, 30), (1 / 1000, 45), (15 / 10000, 55),
      (2 / 1000, 65), (3 / 1000, 78), (5 / 1000, 90), (1 / 100, 100)]"

definition funding_persistence_curve :: "(real \<times> real) list" where
  "funding_persistence_curve =
     [(0, 0), (3 / 10, 20), (5 / 10, 45), (7 / 10, 70), (85 / 100, 90), (1, 100)]"

definition compute_funding_rate :: "database \<Rightarrow> real \<Rightarrow> string \<Rightarrow> data_bundle \<Rightarrow> py_error + signal" where
  "compute_funding_rate db now symb data =
     (let fr = funding_rates data
      in if fr = [] then Inr (insufficient ''no funding'' [])
         else
           let current = np_mean (map snd fr);
               hist = get_snapshots db now symb ''funding_rate'' 72;
               (neg, tot) = funding_counts hist (0, 0);
               persist = safe_divide (real neg) (real (max tot 1)) 0;
               mag = (if current \<ge> 0 then piecewise_lerp (- current) funding_positive_curve
                      else piecewise_lerp \<bar>current\<bar> funding_negative_curve);
               per = piecewise_lerp persist funding_persistence_curve;
               nrm = mag * (55 / 100) + per * (45 / 100)
           in Inr (scored (py_round 6 current) nrm
                [(''current_rate'', MNum (py_round 6 current)),
                 (''current_rate_pct'', MPct (py_round 4 (current * 100))),
                 (''negative_periods'', MInt (int neg)),
                 (''total_periods'', MInt (int tot)),
                 (''persistence_ratio'', MNum (py_round 2 persist)),
                 (''exchanges'', MStrs (map fst fr))]))"

definition liquidation_curve :: "(real \<times> real) list" where
  "liquidation_curve = [(5 / 10, 0), (1, 10), (2, 35), (3, 55), (5, 75), (8, 90), (12, 100)]"

text \<open>\<open>sum(p * a for ex, ob in orderbooks for p, a in side(ob) if keep(p))\<close>\<close>

definition book_value ::
  "(orderbook \<Rightarrow> (real \<times> real) list) \<Rightarrow> (real \<Rightarrow> bool) \<Rightarrow> (string \<times> orderbook) list \<Rightarrow> real" where
  "book_value side keep books =
     sum_list (map (\<lambda>(p, a). p * a) (filter (\<lambda>(p, a). keep p) (concat (map (\<lambda>(ex, ob). side ob) books))))"

definition compute_liquidation_leverage ::
  "database \<Rightarrow> real \<Rightarrow> string \<Rightarrow> data_bundle \<Rightarrow> py_error + signal" where
  "compute_liquidation_leverage db now symb data =
     (let price = get_current_price data
      in if price = 0 \<or> price \<le> 0 then Inr (insufficient ''no price'' [])
         else
           let total_oi = sum_list (filter (\<lambda>v. v \<noteq> 0 \<and> v > 0) (map snd (open_interest data)))
           in if total_oi = 0 then Inr (insufficient ''no OI'' [])
              else
                let ls = long_short_ratios data;
                    sf = (if ls \<noteq> [] then safe_divide 1 (1 + np_mean (map snd ls)) (5 / 10) else 5 / 10);
                    short_oi = total_oi * sf;
                    liq15 = short_oi * min ((15 / 100) / (1 / 8)) (8 / 10);
                    ask_res = book_value asks (\<lambda>p. p \<le> price * (115 / 100)) (orderbooks data);
                    ratio = (if ask_res > 0 then safe_divide liq15 ask_res 3 else 3);
                    nrm = piecewise_lerp ratio liquidation_curve
                in Inr (scored (py_round 2 ratio) nrm
                     [(''leverage_ratio'', MNum (py_round 2 ratio)),
                      (''estimated_liq_within_15pct'', MNum (py_round 2 liq15)),
                      (''ask_resistance_15pct'', MNum (py_round 2 ask_res)),
                      (''short_fraction'', MNum (py_round 2 sf))]))"

definition single_volume_curve :: "(real \<times> real) list" where
  "single_volume_curve = [(8 / 10, 0), (1, 5), (15 / 10, 30), (2, 50), (3, 70), (5, 90), (8, 100)]"

text \<open>The positive volumes of the ticker history.\<close>

definition history_volumes :: "snapshot list \<Rightarrow> real list" where
  "history_volumes hist = filter (\<lambda>v. v > 0) (map (\<lambda>h. ticker_volume (snap_data h)) hist)"

definition single_exchange_volume ::
  "database \<Rightarrow> real \<Rightarrow> string \<Rightarrow> (string \<times> real) list \<Rightarrow> py_error + signal" where
  "single_exchange_volume db now symb volumes =
     bind_err (py_first volumes) (\<lambda>(ex, cur).
       let hist = get_snapshots db now symb ''ticker'' 72
       in if hist = [] \<or> length hist < 5 then Inr (insufficient ''no hist'' [])
          else
            let hvols = history_volumes hist
            in if hvols = [] then Inr (insufficient ''no hist vol'' [])
               else
                 let avg = np_mean hvols
                 in if avg = 0 then Inr (insufficient ''zero avg'' [])
                    else
                      bind_err (py_div cur avg) (\<lambda>ratio.
                        let nrm = piecewise_lerp ratio single_volume_curve
                        in Inr (scored (py_round 2 ratio) nrm
                             [(''volume_vs_avg'', MNum (py_round 2 ratio)),
                              (''single_exchange'', MStr ex)])))"

definition cross_volume_curve :: "(real \<times> real) list" where
  "cross_volume_curve = [(1, 0), (13 / 10, 18), (15 / 10, 35), (2, 55), (3, 75), (4, 88), (6, 100)]"

fun ticker_volumes :: "(string \<times> (string \<rightharpoonup> real)) list \<Rightarrow> (string \<times> real) list \<Rightarrow> (string \<times> real) list" where
  "ticker_volumes [] vols = vols"
| "ticker_volumes ((ex, t) # rest) vols =
     (let v = ticker_volume t
      in if v > 0 then ticker_volumes rest (dict_set vols ex v) else ticker_volumes rest vols)"

definition compute_cross_exchange_volume ::
  "database \<Rightarrow> real \<Rightarrow> string \<Rightarrow> data_bundle \<Rightarrow> py_error + signal" where
  "compute_cross_exchange_volume db now symb data =
     (let vols = ticker_volumes (tickers data) []
      in if length vols < 2
         then (if length vols = 1 then single_exchange_volume db now symb vols
               else Inr (insufficient ''need 2+ exchanges'' []))
         else
           case vols of
             [] \<Rightarrow> Inl ValueError
           | v0 # vs \<Rightarrow>
               let vals = map snd vols;
                   med = np_median vals
               in if med \<le> 0 then Inr (insufficient ''zero median'' [])
                  else
                    bind_err (py_div (snd (py_max_by snd v0 vs)) med) (\<lambda>dv.
                      let nrm = piecewise_lerp dv cross_volume_curve
                      in Inr (scored (py_round 2 dv) nrm
                           [(''divergence_ratio'', MNum (py_round 2 dv)),
                            (''max_volume_exchange'', MStr (fst (py_max_by snd v0 vs))),
                            (''volumes'', MNums (map (\<lambda>(k, v). (k, py_round 2 v)) vols))])))"

definition depth_curve :: "(real \<times> real) list" where
  "depth_curve =
     [(1, 0), (115 / 100, 15), (13 / 10, 30), (15 / 10, 50), (18 / 10, 65),
      (2, 75), (25 / 10, 88), (3, 95), (4, 100)]"

definition compute_depth_imbalance ::
  "database \<Rightarrow> real \<Rightarrow> string \<Rightarrow> data_bundle \<Rightarrow> py_error + signal" where
  "compute_depth_imbalance db now symb data =
     (let bid_v = book_value bids (\<lambda>p. True) (orderbooks data);
          ask_v = book_value asks (\<lambda>p. True) (orderbooks data)
      in if ask_v = 0 then Inr (insufficient ''no asks'' [])
         else
           let ratio = safe_divide bid_v ask_v 1;
               nrm = (if ratio \<ge> 1 then piecewise_lerp ratio depth_curve else 0)
           in Inr (scored (py_round 3 ratio) nrm
                [(''imbalance_ratio'', MNum (py_round 3 ratio)),
                 (''total_bid_value'', MNum (py_round 2 bid_v)),
                 (''total_ask_value'', MNum (py_round 2 ask_v))]))"

definition decouple_curve :: "(real \<times> real) list" where
  "decouple_curve =
     [(0, 0), (10, 15), (20, 30), (35, 50), (50, 63), (75, 78), (100, 88), (150, 95), (200, 100)]"

text \<open>The candles of the first exchange that has at least twenty.\<close>

fun first_long_candles :: "(string \<times> candle list) list \<Rightarrow> candle list" where
  "first_long_candles [] = []"
| "first_long_candles ((ex, c) # rest) =
     (if c \<noteq> [] \<and> length c \<ge> 20 then c else first_long_candles rest)"

text \<open>\<open>sum(c[5] for c in cs if len(c) > 5 and c[5])\<close>\<close>

definition volume_sum :: "candle list \<Rightarrow> real" where
  "volume_sum cs = sum_list (filter (\<lambda>v. v \<noteq> 0) (map c_volume cs))"

definition compute_volume_price_decouple ::
  "database \<Rightarrow> real \<Rightarrow> string \<Rightarrow> data_bundle \<Rightarrow> py_error + signal" where
  "compute_volume_price_decouple db now symb data =
     (let candles = first_long_candles (ohlcv data)
      in if candles = [] \<or> length candles < 20 then Inr (insufficient ''no OHLCV'' [])
         else
           let (recent, prev) =
                 (if length candles \<ge> 48
                  then (drop (length candles - 24) candles,
                        take 24 (drop (length candles - 48) candles))
                  else (let h = length candles div 2 in (drop h candles, take h candles)));
               rv = volume_sum recent;
               pv = volume_sum prev
           in if pv = 0 then Inr (insufficient ''zero prev vol'' [])
              else
                bind_err (py_div (rv - pv) pv) (\<lambda>q.
                bind_err (py_first recent) (\<lambda>r0.
                bind_err (if c_open r0 \<noteq> 0
                          then bind_err (py_last recent) (\<lambda>rl.
                               bind_err (py_div (c_close rl - c_open r0) (c_open r0)) (\<lambda>d.
                                 Inr \<bar>d * 100\<bar>))
                          else Inr 0) (\<lambda>pc.
                  let vc = q * 100;
                      raw = (if vc > 0 then max 0 (vc * max (15 / 100) (1 - pc / 12)) else 0);
                      nrm = piecewise_lerp raw decouple_curve
                  in Inr (scored (py_round 2 raw) nrm
                       [(''volume_change_pct'', MNum (py_round 2 vc)),
                        (''price_change_pct'', MNum (py_round 2 pc))])))))"

definition compression_curve :: "(real \<times> real) list" where
  "compression_curve =
     [(0, 0), (30, 10), (50, 25), (65, 42), (75, 58), (85, 75), (92, 88), (97, 95), (100, 100)]"

text \<open>The candles of the exchange with strictly the most candles, the first among equals.\<close>

fun longest_candles :: "(string \<times> candle list) list \<Rightarrow> candle list \<Rightarrow> candle list" where
  "longest_candles [] best = best"
| "longest_candles ((ex, c) # rest) best =
     (if c \<noteq> [] \<and> length c > length best then longest_candles rest c else longest_candles rest best)"

text \<open>
  The Bollinger band widths: for every index from 20 on, twice the standard deviation of
  the twenty closes before it over their mean, when the mean is positive.
\<close>

definition band_widths :: "real list \<Rightarrow> real list" where
  "band_widths closes =
     concat (map (\<lambda>i. let w = take 20 (drop (i - 20) closes); s = np_mean w; st = np_std w
                       in if s > 0 then [(2 * st) / s] else [])
                 [20 ..< length closes])"

definition true_ranges :: "candle list \<Rightarrow> real list" where
  "true_ranges candles =
     map (\<lambda>i. max (max (c_high (candles ! i) - c_low (candles ! i))
                        \<bar>c_high (candles ! i) - c_close (candles ! (i - 1))\<bar>)
                   \<bar>c_low (candles ! i) - c_close (candles ! (i - 1))\<bar>)
         [1 ..< length candles]"

definition compute_volatility_compression ::
  "database \<Rightarrow> real \<Rightarrow> string \<Rightarrow> data_bundle \<Rightarrow> py_error + signal" where
  "compute_volatility_compression db now symb data =
     (let candles = longest_candles (ohlcv data) []
      in if candles = [] \<or> length candles < 30
         then Inr (insufficient ''no data'' [(''candles'', MInt (int (length candles)))])
         else
           let closes = map c_close candles;
               bbw = band_widths closes
           in if bbw = [] \<or> length bbw < 5 then Inr (insufficient ''no BB data'' [])
              else
                bind_err (py_last bbw) (\<lambda>cur_bbw.
                bind_err (py_div (real (length (filter (\<lambda>w. w > cur_bbw) bbw))) (real (length bbw))) (\<lambda>q.
                bind_err (py_last closes) (\<lambda>last_close.
                  let pctl = q * 100;
                      tr = true_ranges candles;
                      atr = (if length tr \<ge> 14 then np_mean (drop (length tr - 14) tr)
                             else if tr \<noteq> [] then np_mean tr else 0);
                      atr_pct = (if last_close > 0 then atr / last_close * 100 else 0);
                      nrm = piecewise_lerp pctl compression_curve
                  in Inr (scored (py_round 6 cur_bbw) nrm
                       [(''bb_width'', MNum (py_round 6 cur_bbw)),
                        (''bb_percentile'', MNum (py_round 1 pctl)),
                        (''atr'', MNum (py_round 6 atr)),
                        (''atr_pct'', MNum (py_round 4 atr_pct)),
                        (''candles_used'', MInt (int (length closes)))])))))"

definition ls_high_curve :: "(real \<times> real) list" where
  "ls_high_curve = [(1, 8), (11 / 10, 3), (13 / 10, 0)]"

definition ls_low_curve :: "(real \<times> real) list" where
  "ls_low_curve =
     [(5 / 10, 100), (6 / 10, 90), (7 / 10, 75), (8 / 10, 55),
      (85 / 100, 42), (9 / 10, 30), (95 / 100, 18), (1, 8)]"

definition compute_long_short_ratio ::
  "database \<Rightarrow> real \<Rightarrow> string \<Rightarrow> data_bundle \<Rightarrow> py_error + signal" where
  "compute_long_short_ratio db now symb data =
     bind_err
       (if long_short_ratios data = []
        then (let hist = get_snapshots db now symb ''long_short_ratio'' 24
              in if hist \<noteq> []
                 then bind_err (py_last hist) (\<lambda>h.
                        case snap_data h ''long_short_ratio'' of
                          Some r \<Rightarrow> if r \<noteq> 0 then Inr [(''historical'', r)] else Inr []
                        | None \<Rightarrow> Inr [])
                 else Inr [])
        else Inr (long_short_ratios data))
       (\<lambda>ls.
          if ls = [] then Inr (insufficient ''no L/S'' [])
          else
            let avg = np_mean (map snd ls);
                nrm = (if avg \<ge> 1 then piecewise_lerp avg ls_high_curve
                       else piecewise_lerp avg ls_low_curve)
            in Inr (scored (py_round 4 avg) nrm
                 [(''avg_ls_ratio'', MNum (py_round 4 avg)),
                  (''per_exchange'', MNums (map (\<lambda>(k, v). (k, py_round 4 v)) ls))]))"

definition divergence_curve :: "(real \<times> real) list" where
  "divergence_curve =
     [(5 / 10, 0), (1, 5), (13 / 10, 20), (15 / 10, 35), (2, 55),
      (25 / 10, 68), (3, 78), (4, 90), (6, 100)]"

text \<open>\<open>float(t.get("quoteVolume", 0) or 0)\<close>\<close>

definition quote_volume :: "(string \<rightharpoonup> real) \<Rightarrow> real" where
  "quote_volume t = (case t ''quoteVolume'' of Some v \<Rightarrow> v | None \<Rightarrow> 0)"

definition compute_futures_spot_divergence ::
  "database \<Rightarrow> real \<Rightarrow> string \<Rightarrow> data_bundle \<Rightarrow> py_error + signal" where
  "compute_futures_spot_divergence db now symb data =
     (if tickers data = [] then Inr (insufficient ''no tickers'' [])
      else
        let total_vol = sum_list (map (\<lambda>(ex, t). quote_volume t) (tickers data));
            hist = get_snapshots db now symb ''ticker'' 72
        in if hist = [] \<or> length hist < 5
           then Inr (insufficient ''no hist'' [(''current_volume'', MNum total_vol)])
           else
             let hvols = history_volumes hist
             in if hvols = [] then Inr (insufficient ''no hist vol'' [])
                else
                  let avg = np_mean hvols
                  in if avg = 0 then Inr (insufficient ''zero avg'' [])
                     else
                       bind_err (py_div total_vol avg) (\<lambda>ratio.
                         let nrm = piecewise_lerp ratio divergence_curve
                         in Inr (scored (py_round 2 ratio) nrm
                              [(''volume_ratio'', MNum (py_round 2 ratio)),
                               (''current_volume'', MNum (py_round 2 total_vol)),
                               (''avg_volume'', MNum (py_round 2 avg))])))"

subsection \<open>\<open>compute_all\<close>\<close>

text \<open>The nine computations in the order \<open>compute_all\<close> makes them.\<close>

definition signal_computations ::
  "(string \<times> (database \<Rightarrow> real \<Rightarrow> string \<Rightarrow> data_bundle \<Rightarrow> py_error + signal)) list" where
  "signal_computations =
     [(''oi_surge'', compute_oi_surge),
      (''funding_rate'', compute_funding_rate),
      (''liquidation_leverage'', compute_liquidation_leverage),
      (''cross_exchange_volume'', compute_cross_exchange_volume),
      (''depth_imbalance'', compute_depth_imbalance),
      (''volume_price_decouple'', compute_volume_price_decouple),
      (''volatility_compression'', compute_volatility_compression),
      (''long_short_ratio'', compute_long_short_ratio),
      (''futures_spot_divergence'', compute_futures_spot_divergence)]"

fun run_computations ::
  "database \<Rightarrow> real \<Rightarrow> string \<Rightarrow> data_bundle
     \<Rightarrow> (string \<times> (database \<Rightarrow> real \<Rightarrow> string \<Rightarrow> data_bundle \<Rightarrow> py_error + signal)) list
     \<Rightarrow> py_error + (string \<times> signal) list" where
  "run_computations db now symb data [] = Inr []"
| "run_computations db now symb data ((name, f) # rest) =
     bind_err (f db now symb data) (\<lambda>s.
     bind_err (run_computations db now symb data rest) (\<lambda>signals.
       Inr ((name, s) # signals)))"

definition compute_all ::
  "database \<Rightarrow> real \<Rightarrow> string \<Rightarrow> data_bundle \<Rightarrow> py_error + (database \<times> (string \<times> signal) list)" where
  "compute_all db now symb data =
     bind_err (run_computations db now symb data signal_computations) (\<lambda>signals.
       let rows = map (\<lambda>(n, s). \<lparr>sh_timestamp = now, sh_symbol = symb, sh_signal_name = n,
                                   sh_raw_value = raw_value s,
                                   sh_normalized_score = normalized_score s,
                                   sh_metadata = sig_metadata s\<rparr>) signals
       in Inr (if rows \<noteq> [] then store_signals_batch db rows else db, signals))"

text \<open>
  A result is acceptable when the computation returned, its normalized score lies in
  [0, 100], and a reported reason comes with raw value 0 and normalized score 0.
\<close>

definition signal_ok :: "py_error + signal \<Rightarrow> bool" where
  "signal_ok res \<longleftrightarrow>
     (case res of
        Inl e \<Rightarrow> False
      | Inr s \<Rightarrow> 0 \<le> normalized_score s \<and> normalized_score s \<le> 100
               \<and> (map_of (sig_metadata s) ''reason'' = None
                   \<or> raw_value s = 0 \<and> normalized_score s = 0))"

text \<open>
  Current open interest is present when some exchange reports a positive value; the
  total is the sum of the positive values.
\<close>

definition oi_present :: "data_bundle \<Rightarrow> bool" where
  "oi_present data \<longleftrightarrow> filter (\<lambda>(ex, v). v \<noteq> 0 \<and> v > 0) (open_interest data) \<noteq> []"

definition oi_total :: "data_bundle \<Rightarrow> real" where
  "oi_total data = sum_list (map snd (filter (\<lambda>(ex, v). v \<noteq> 0 \<and> v > 0) (open_interest data)))"

text \<open>A bundle with nothing but an open interest of 1000 on one exchange.\<close>

definition oi_only_bundle :: data_bundle where
  "oi_only_bundle = empty_bundle\<lparr>open_interest := [(''binance'', 1000)]\<rparr>"

subsection \<open>Insufficient data\<close>

text \<open>
  What each signal takes for insufficient data, read off the inputs: the reason it reports
  and the metadata entries that go with it, or \<open>None\<close> when the data suffices and the
  signal is scored. The tests are made in the order given.
\<close>

text \<open>
  \<open>oi_surge\<close> needs a positive current open interest on some exchange, a history of
  open-interest snapshots, and among the snapshots taken at most an hour after the
  earliest one a positive open interest.
\<close>

definition first_hour_oi :: "snapshot list \<Rightarrow> snapshot list" where
  "first_hour_oi hist =
     filter (\<lambda>h. list_all (\<lambda>h'. snap_timestamp h \<le> snap_timestamp h' + 3600) hist
                \<and> (case snap_data h ''open_interest'' of Some oi \<Rightarrow> oi > 0 | None \<Rightarrow> False))
            hist"

definition oi_surge_shortfall ::
  "database \<Rightarrow> real \<Rightarrow> string \<Rightarrow> data_bundle \<Rightarrow> (string \<times> (string \<times> meta_value) list) option" where
  "oi_surge_shortfall db now symb data =
     (let hist = get_snapshots db now symb ''open_interest'' 72
      in if \<not> oi_present data then Some (''no OI'', [])
         else if hist = [] then Some (''no hist OI'', [(''current_oi'', MNum (oi_total data))])
         else if first_hour_oi hist = [] then Some (''no valid hist OI'', [])
         else None)"

text \<open>
  \<open>funding_rate\<close> needs a funding rate from some exchange; a missing history only
  makes the persistence ratio zero.
\<close>

definition funding_rate_shortfall ::
  "database \<Rightarrow> real \<Rightarrow> string \<Rightarrow> data_bundle \<Rightarrow> (string \<times> (string \<times> meta_value) list) option" where
  "funding_rate_shortfall db now symb data =
     (if funding_rates data = [] then Some (''no funding'', []) else None)"

text \<open>
  \<open>liquidation_leverage\<close> needs a positive price and a positive open interest. A
  missing long/short ratio or order book is not a shortfall: the short fraction defaults
  to 0.5 and, without ask resistance, the ratio to 3.
\<close>

definition liquidation_leverage_shortfall ::
  "database \<Rightarrow> real \<Rightarrow> string \<Rightarrow> data_bundle \<Rightarrow> (string \<times> (string \<times> meta_value) list) option" where
  "liquidation_leverage_shortfall db now symb data =
     (if get_current_price data \<le> 0 then Some (''no price'', [])
      else if \<not> oi_present data then Some (''no OI'', [])
      else None)"

text \<open>
  \<open>cross_exchange_volume\<close> needs an exchange whose ticker has a positive volume; with
  exactly one such exchange it also needs five snapshots of ticker history, one of them with
  a positive volume.
\<close>

definition volume_exchanges :: "data_bundle \<Rightarrow> string list" where
  "volume_exchanges data = remdups (map fst (filter (\<lambda>(ex, t). ticker_volume t > 0) (tickers data)))"

definition cross_exchange_volume_shortfall ::
  "database \<Rightarrow> real \<Rightarrow> string \<Rightarrow> data_bundle \<Rightarrow> (string \<times> (string \<times> meta_value) list) option" where
  "cross_exchange_volume_shortfall db now symb data =
     (let n = length (volume_exchanges data);
          hist = get_snapshots db now symb ''ticker'' 72
      in if n = 0 then Some (''need 2+ exchanges'', [])
         else if n = 1
         then (if length hist < 5 then Some (''no hist'', [])
               else if list_all (\<lambda>h. ticker_volume (snap_data h) \<le> 0) hist then Some (''no hist vol'', [])
               else None)
         else None)"

text \<open>
  \<open>depth_imbalance\<close> needs a non-zero total ask value.
\<close>

definition depth_imbalance_shortfall ::
  "database \<Rightarrow> real \<Rightarrow> string \<Rightarrow> data_bundle \<Rightarrow> (string \<times> (string \<times> meta_value) list) option" where
  "depth_imbalance_shortfall db now symb data =
     (if book_value asks (\<lambda>p. True) (orderbooks data) = 0 then Some (''no asks'', []) else None)"

text \<open>
  \<open>volume_price_decouple\<close> needs an exchange with twenty candles and a non-zero volume
  in the earlier of the two windows it compares (the 24 candles before the last 24, or the
  first half when there are fewer than 48).
\<close>

definition previous_window :: "candle list \<Rightarrow> candle list" where
  "previous_window candles =
     (if length candles \<ge> 48 then take 24 (drop (length candles - 48) candles)
      else take (length candles div 2) candles)"

definition volume_price_decouple_shortfall ::
  "database \<Rightarrow> real \<Rightarrow> string \<Rightarrow> data_bundle \<Rightarrow> (string \<times> (string \<times> meta_value) list) option" where
  "volume_price_decouple_shortfall db now symb data =
     (if list_all (\<lambda>(ex, c). length c < 20) (ohlcv data) then Some (''no OHLCV'', [])
      else if volume_sum (previous_window (first_long_candles (ohlcv data))) = 0
      then Some (''zero prev vol'', [])
      else None)"

text \<open>
  \<open>volatility_compression\<close> needs thirty candles on the exchange with the most candles
  and five Bollinger band widths from them.
\<close>

definition volatility_compression_shortfall ::
  "database \<Rightarrow> real \<Rightarrow> string \<Rightarrow> data_bundle \<Rightarrow> (string \<times> (string \<times> meta_value) list) option" where
  "volatility_compression_shortfall db now symb data =
     (let candles = longest_candles (ohlcv data) []
      in if length candles < 30
         then Some (''no data'', [(''candles'', MInt (int (length candles)))])
         else if length (band_widths (map c_close candles)) < 5 then Some (''no BB data'', [])
         else None)"

text \<open>
  \<open>long_short_ratio\<close> needs a ratio from some exchange or, failing that, a non-zero
  ratio in the latest long/short snapshot of the last 24 hours.
\<close>

definition long_short_ratio_shortfall ::
  "database \<Rightarrow> real \<Rightarrow> string \<Rightarrow> data_bundle \<Rightarrow> (string \<times> (string \<times> meta_value) list) option" where
  "long_short_ratio_shortfall db now symb data =
     (let hist = get_snapshots db now symb ''long_short_ratio'' 24
      in if long_short_ratios data \<noteq> [] then None
         else if hist = [] then Some (''no L/S'', [])
         else (case snap_data (last hist) ''long_short_ratio'' of
                 Some r \<Rightarrow> if r = 0 then Some (''no L/S'', []) else None
               | None \<Rightarrow> Some (''no L/S'', [])))"

text \<open>
  \<open>futures_spot_divergence\<close> needs a ticker and five snapshots of ticker history, one
  of them with a positive volume.
\<close>

definition futures_spot_divergence_shortfall ::
  "database \<Rightarrow> real \<Rightarrow> string \<Rightarrow> data_bundle \<Rightarrow> (string \<times> (string \<times> meta_value) list) option" where
  "futures_spot_divergence_shortfall db now symb data =
     (let hist = get_snapshots db now symb ''ticker'' 72
      in if tickers data = [] then Some (''no tickers'', [])
         else if length hist < 5
         then Some (''no hist'',
                [(''current_volume'', MNum (sum_list (map (\<lambda>(ex, t). quote_volume t) (tickers data))))])
         else if list_all (\<lambda>h. ticker_volume (snap_data h) \<le> 0) hist then Some (''no hist vol'', [])
         else None)"

text \<open>
  The outcome a signal owes to its data: on a shortfall exactly the result with raw value
  0, normalized score 0 and the reason, followed by the metadata of the shortfall; otherwise
  a result that reports no reason, with a normalized score in [0, 100].
\<close>

definition signal_outcome ::
  "(string \<times> (string \<times> meta_value) list) option \<Rightarrow> py_error + signal \<Rightarrow> bool" where
  "signal_outcome short res =
     (case short of
        Some (reason, extra) \<Rightarrow>
          res = Inr \<lparr>raw_value = 0, normalized_score = 0,
                     sig_metadata = (''reason'', MStr reason) # extra\<rparr>
      | None \<Rightarrow>
          (case res of
             Inl e \<Rightarrow> False
           | Inr s \<Rightarrow> map_of (sig_metadata s) ''reason'' = None
                    \<and> 0 \<le> normalized_score s \<and> normalized_score s \<le> 100))"

text \<open>
  The nine results on a bundle without any data.
\<close>

definition no_data_signals :: "(string \<times> signal) list" where
  "no_data_signals =
     [(''oi_surge'', insufficient ''no OI'' []),
      (''funding_rate'', insufficient ''no funding'' []),
      (''liquidation_leverage'', insufficient ''no price'' []),
      (''cross_exchange_volume'', insufficient ''need 2+ exchanges'' []),
      (''depth_imbalance'', insufficient ''no asks'' []),
      (''volume_price_decouple'', insufficient ''no OHLCV'' []),
      (''volatility_compression'', insufficient ''no data'' [(''candles'', MInt 0)]),
      (''long_short_ratio'', insufficient ''no L/S'' []),
      (''futures_spot_divergence'', insufficient ''no tickers'' [])]"

section \<open>core/scorer.py\<close>

definition SIGNAL_WEIGHTS :: "(string \<times> real) list" where
  "SIGNAL_WEIGHTS =
     [(''oi_surge'', 18 / 100),
      (''funding_rate'', 17 / 100),
      (''liquidation_leverage'', 15 / 100),
      (''cross_exchange_volume'', 12 / 100),
      (''depth_imbalance'', 11 / 100),
      (''volume_price_decouple'', 8 / 100),
      (''volatility_compression'', 8 / 100),
      (''long_short_ratio'', 6 / 100),
      (''futures_spot_divergence'', 5 / 100)]"

record interaction_bonus =
  ib_name :: string
  ib_signals :: "string list"
  ib_min_score :: real
  ib_bonus :: real

definition INTERACTION_BONUSES :: "interaction_bonus list" where
  "INTERACTION_BONUSES =
     [\<lparr>ib_name = ''squeeze_setup'',
       ib_signals = [''oi_surge'', ''funding_rate'', ''volatility_compression''],
       ib_min_score = 45, ib_bonus = 25 / 100\<rparr>,
      \<lparr>ib_name = ''cascade_setup'',
       ib_signals = [''liquidation_leverage'', ''funding_rate'', ''long_short_ratio''],
       ib_min_score = 40, ib_bonus = 30 / 100\<rparr>,
      \<lparr>ib_name = ''accumulation_setup'',
       ib_signals = [''oi_surge'', ''volume_price_decouple'', ''cross_exchange_volume''],
       ib_min_score = 40, ib_bonus = 20 / 100\<rparr>]"

definition EXTENDED_PRICE_PENALTY :: real where "EXTENDED_PRICE_PENALTY = 40 / 100"
definition EXTENDED_PRICE_THRESHOLD_PCT :: real where "EXTENDED_PRICE_THRESHOLD_PCT = 15"

record score_result =
  composite_score :: real
  classification :: classification
  base_score :: real
  signal_scores :: "(string \<times> real) list"
  weighted_contributions :: "(string \<times> real) list"
  bonuses_applied :: "string list"
  penalties_applied :: "penalty list"
  bonus_total :: real
  penalty_total :: real

text \<open>\<open>signals.get(name, {}).get("normalized_score", 0)\<close>\<close>

definition signal_ns :: "(string \<rightharpoonup> signal) \<Rightarrow> string \<Rightarrow> real" where
  "signal_ns signals name = (case signals name of None \<Rightarrow> 0 | Some s \<Rightarrow> normalized_score s)"

text \<open>
  The first loop of \<open>score\<close>, over \<open>SIGNAL_WEIGHTS\<close>: the rounded signal scores, the
  rounded weighted contributions and the running sum \<open>base\<close> of the unrounded ones.
\<close>

definition score_signal_scores :: "(string \<rightharpoonup> signal) \<Rightarrow> (string \<times> real) list" where
  "score_signal_scores signals =
     map (\<lambda>(name, weight). (name, py_round 1 (signal_ns signals name))) SIGNAL_WEIGHTS"

definition score_weighted :: "(string \<rightharpoonup> signal) \<Rightarrow> (string \<times> real) list" where
  "score_weighted signals =
     map (\<lambda>(name, weight). (name, py_round 2 (signal_ns signals name * weight))) SIGNAL_WEIGHTS"

definition score_base :: "(string \<rightharpoonup> signal) \<Rightarrow> real" where
  "score_base signals =
     foldl (\<lambda>base (name, weight). base + signal_ns signals name * weight) 0 SIGNAL_WEIGHTS"

text \<open>\<open>all(signal_scores.get(s, 0) >= b["min_score"] for s in b["signals"])\<close>\<close>

definition bonus_applies :: "(string \<times> real) list \<Rightarrow> interaction_bonus \<Rightarrow> bool" where
  "bonus_applies sscores b =
     list_all (\<lambda>s. (case map_of sscores s of None \<Rightarrow> 0 | Some v \<Rightarrow> v) \<ge> ib_min_score b)
              (ib_signals b)"

definition score_bonus_mult :: "(string \<times> real) list \<Rightarrow> real" where
  "score_bonus_mult sscores =
     foldl (\<lambda>bonus_mult b. if bonus_applies sscores b then bonus_mult + ib_bonus b else bonus_mult)
           0 INTERACTION_BONUSES"

definition score_bonuses :: "(string \<times> real) list \<Rightarrow> string list" where
  "score_bonuses sscores = map ib_name (filter (bonus_applies sscores) INTERACTION_BONUSES)"

definition score_penalty_mult :: "real \<Rightarrow> real" where
  "score_penalty_mult price_change_7d =
     (if price_change_7d > EXTENDED_PRICE_THRESHOLD_PCT then 0 + EXTENDED_PRICE_PENALTY else 0)"

definition score_penalties :: "real \<Rightarrow> penalty list" where
  "score_penalties price_change_7d =
     (if price_change_7d > EXTENDED_PRICE_THRESHOLD_PCT
      then [Extended (py_round 1 price_change_7d)] else [])"

text \<open>The unrounded final score, which is classified and stored.\<close>

definition score_final :: "(string \<rightharpoonup> signal) \<Rightarrow> real \<Rightarrow> real" where
  "score_final signals price_change_7d =
     clamp (score_base signals * (1 + score_bonus_mult (score_signal_scores signals))
              * (1 - score_penalty_mult price_change_7d)) 0 100"

definition score ::
  "database \<Rightarrow> real \<Rightarrow> string \<Rightarrow> (string \<rightharpoonup> signal) \<Rightarrow> real \<Rightarrow> database \<times> score_result" where
  "score db now symb signals price_change_7d =
     (let sscores = score_signal_scores signals;
          weighted = score_weighted signals;
          base = score_base signals;
          bonuses = score_bonuses sscores;
          bonus_mult = score_bonus_mult sscores;
          penalties = score_penalties price_change_7d;
          penalty_mult = score_penalty_mult price_change_7d;
          final = clamp (base * (1 + bonus_mult) * (1 - penalty_mult)) 0 100;
          cl = classify_score final;
          db' = store_score db now symb final cl sscores bonuses penalties
      in (db',
          \<lparr>composite_score = py_round 1 final,
           classification = cl,
           base_score = py_round 1 base,
           signal_scores = sscores,
           weighted_contributions = weighted,
           bonuses_applied = bonuses,
           penalties_applied = penalties,
           bonus_total = py_round 1 (bonus_mult * 100),
           penalty_total = py_round 1 (penalty_mult * 100)\<rparr>))"

text \<open>
  Events of \<open>detect_events\<close>. The \<open>message\<close> entry is a formatting of the other entries
  and is left out.
\<close>

datatype event =
    SCORE_JUMP string real real real
  | UPGRADE string classification classification real
  | IGNITION string real real

definition class_order :: "classification list" where
  "class_order = [NONE, MONITOR, WATCHLIST, HIGH_ALERT, CRITICAL]"

text \<open>\<open>order.index(c)\<close>: the position of the first occurrence.\<close>

fun list_index :: "'a list \<Rightarrow> 'a \<Rightarrow> nat" where
  "list_index [] c = 0"
| "list_index (x # xs) c = (if x = c then 0 else Suc (list_index xs c))"

text \<open>
  The loop over the ticker history: the first snapshot with a positive \<open>last\<close> decides,
  whether or not it yields an event (\<open>break\<close>).
\<close>

fun ignition_scan :: "string \<Rightarrow> real \<Rightarrow> real \<Rightarrow> snapshot list \<Rightarrow> event list" where
  "ignition_scan symb current_price cs [] = []"
| "ignition_scan symb current_price cs (h # hist) =
     (case snap_data h ''last'' of
        None \<Rightarrow> ignition_scan symb current_price cs hist
      | Some op \<Rightarrow>
          if op \<noteq> 0 \<and> op > 0
          then (let pm = ((current_price - op) / op) * 100
                in if pm \<ge> 5 \<and> cs \<ge> 48 then [IGNITION symb (py_round 1 pm) cs] else [])
          else ignition_scan symb current_price cs hist)"

definition detect_events ::
  "database \<Rightarrow> real \<Rightarrow> string \<Rightarrow> score_result \<Rightarrow> real \<Rightarrow> event list" where
  "detect_events db now symb current_score current_price =
     (case get_previous_score db symb of
        None \<Rightarrow> []
      | Some prev \<Rightarrow>
          let ps = sr_composite_score prev;
              cs = composite_score current_score;
              pc = sr_classification prev;
              cc = classification current_score;
              delta = cs - ps;
              jump = (if delta \<ge> 15 then [SCORE_JUMP symb ps cs (py_round 1 delta)] else []);
              upgrade = (if cc \<in> set class_order \<and> pc \<in> set class_order
                            \<and> list_index class_order cc > list_index class_order pc
                         then [UPGRADE symb pc cc cs] else []);
              hist = get_snapshots db now symb ''ticker'' 6;
              ignition = (if hist \<noteq> [] \<and> current_price > 0
                          then ignition_scan symb current_price cs hist else [])
          in jump @ upgrade @ ignition)"

text \<open>
  The composite score in the words of the specification: the weighted sum of the nine
  signal scores, the bonus of every rule whose listed signals all reach its minimum, and
  the penalty of 0.40 exactly when the seven-day price change exceeds 15.
\<close>

definition spec_base :: "(string \<rightharpoonup> signal) \<Rightarrow> real" where
  "spec_base signals =
       18 / 100 * signal_ns signals ''oi_surge''
     + 17 / 100 * signal_ns signals ''funding_rate''
     + 15 / 100 * signal_ns signals ''liquidation_leverage''
     + 12 / 100 * signal_ns signals ''cross_exchange_volume''
     + 11 / 100 * signal_ns signals ''depth_imbalance''
     + 8 / 100 * signal_ns signals ''volume_price_decouple''
     + 8 / 100 * signal_ns signals ''volatility_compression''
     + 6 / 100 * signal_ns signals ''long_short_ratio''
     + 5 / 100 * signal_ns signals ''futures_spot_divergence''"

definition spec_bonus_sum :: "(string \<Rightarrow> real) \<Rightarrow> real" where
  "spec_bonus_sum sc =
       (if sc ''oi_surge'' \<ge> 45 \<and> sc ''funding_rate'' \<ge> 45 \<and> sc ''volatility_compression'' \<ge> 45
        then 25 / 100 else 0)
     + (if sc ''liquidation_leverage'' \<ge> 40 \<and> sc ''funding_rate'' \<ge> 40 \<and> sc ''long_short_ratio'' \<ge> 40
        then 30 / 100 else 0)
     + (if sc ''oi_surge'' \<ge> 40 \<and> sc ''volume_price_decouple'' \<ge> 40 \<and> sc ''cross_exchange_volume'' \<ge> 40
        then 20 / 100 else 0)"

definition spec_penalty_sum :: "real \<Rightarrow> real" where
  "spec_penalty_sum price_change_7d = (if price_change_7d > 15 then 40 / 100 else 0)"

definition spec_composite :: "(string \<rightharpoonup> signal) \<Rightarrow> real \<Rightarrow> real" where
  "spec_composite signals price_change_7d =
     clamp (spec_base signals * (1 + spec_bonus_sum (signal_ns signals))
              * (1 - spec_penalty_sum price_change_7d)) 0 100"

text \<open>The threshold ladder in the words of the specification.\<close>

definition spec_classification :: "real \<Rightarrow> classification" where
  "spec_classification s =
     (if s \<ge> 78 then CRITICAL
      else if 62 \<le> s \<and> s < 78 then HIGH_ALERT
      else if 48 \<le> s \<and> s < 62 then WATCHLIST
      else if 33 \<le> s \<and> s < 48 then MONITOR
      else NONE)"

text \<open>A signal dictionary giving every one of the nine names the same score.\<close>

definition uniform_signals :: "real \<Rightarrow> (string \<rightharpoonup> signal)" where
  "uniform_signals v =
     map_of (map (\<lambda>(name, weight). (name, \<lparr>raw_value = 0, normalized_score = v, sig_metadata = []\<rparr>))
                 SIGNAL_WEIGHTS)"

text \<open>
  A database holding one ticker snapshot of DOGE (last price 100, taken at time 0) and
  no score row.
\<close>

definition ticker_only_database :: database where
  "ticker_only_database =
     empty_database\<lparr>snapshots :=
       [\<lparr>snap_timestamp = 0, snap_symbol = ''DOGE'', snap_exchange = ''binance'',
         snap_data_type = ''ticker'', snap_data = [''last'' \<mapsto> 100]\<rparr>]\<rparr>"

section \<open>core/levels.py\<close>

definition MIN_STOP_PCT :: real where "MIN_STOP_PCT = 25 / 10"
definition MAX_STOP_PCT :: real where "MAX_STOP_PCT = 15"

text \<open>
  \<open>_bid_cluster\<close>: bids between the floor and the price fall into buckets of half a
  percent of the price; a bucket holds the sums \<open>ps\<close> and \<open>v\<close> and the count \<open>c\<close>. The
  dictionary of buckets keeps insertion order. The bucket index divides by
  \<open>bs = price * 0.005\<close>; a bid reaches that division only when \<open>floor \<le> bp < price\<close>,
  which no bid does when the price is zero.
\<close>

type_synonym bucket = "real \<times> real \<times> nat"

fun bucket_add :: "(int \<times> bucket) list \<Rightarrow> int \<Rightarrow> real \<Rightarrow> real \<Rightarrow> (int \<times> bucket) list" where
  "bucket_add [] k bp v = [(k, (0 + bp * v, 0 + v, 0 + 1))]"
| "bucket_add ((k', (ps, bv, c)) # buckets) k bp v =
     (if k' = k then (k', (ps + bp * v, bv + v, c + 1)) # buckets
      else (k', (ps, bv, c)) # bucket_add buckets k bp v)"

fun bid_buckets :: "real \<Rightarrow> real \<Rightarrow> real \<Rightarrow> (real \<times> real) list \<Rightarrow> (int \<times> bucket) list \<Rightarrow> (int \<times> bucket) list" where
  "bid_buckets floor_price price bs [] buckets = buckets"
| "bid_buckets floor_price price bs ((bp, ba) # rest) buckets =
     (if bp < floor_price \<or> bp \<ge> price then bid_buckets floor_price price bs rest buckets
      else bid_buckets floor_price price bs rest (bucket_add buckets (py_int (bp / bs)) bp (bp * ba)))"

record cluster =
  cl_price :: real
  cl_value :: real

definition bid_cluster :: "(real \<times> real) list \<Rightarrow> real \<Rightarrow> real \<Rightarrow> cluster option" where
  "bid_cluster bid_levels price depth_pct =
     (let floor_price = price * (1 - depth_pct / 100);
          bs = price * (5 / 1000)
      in case bid_buckets floor_price price bs bid_levels [] of
           [] \<Rightarrow> None
         | b # buckets \<Rightarrow>
             (case py_max_by (\<lambda>(k, (ps, v, c)). v) b buckets of
                (bk, (ps, v, c)) \<Rightarrow> Some \<lparr>cl_price = (if v > 0 then ps / v else 0), cl_value = v\<rparr>))"

text \<open>
  \<open>_calc_stop\<close>. A candidate is \<open>(method, stop price, stop percentage)\<close>. The notes in
  \<open>methods_considered\<close> are kept as the number they print.
\<close>

type_synonym candidate = "string \<times> real \<times> real"

datatype method_note = ATR_note real | Swing_note real | OB_note real

record stop_result =
  stop_price :: real
  stop_pct :: real
  stop_method :: string
  methods_considered :: "method_note list"
  atr_distance :: real
  swing_low_stop :: "real option"
  ob_support_stop :: "real option"
  atr_stop_rounded :: real

definition stop_mult :: "real \<Rightarrow> real" where
  "stop_mult sc = (if sc \<ge> 78 then 15 / 10 else if sc \<ge> 62 then 2 else 25 / 10)"

definition stop_pct_of :: "real \<Rightarrow> real \<Rightarrow> real" where
  "stop_pct_of price s = ((price - s) / price) * 100"

text \<open>The lowest positive low of the last \<open>min(24, len(candles))\<close> candles, if any.\<close>

definition swing_low :: "candle list \<Rightarrow> real option" where
  "swing_low candles =
     (if candles \<noteq> [] \<and> length candles \<ge> 12
      then (let lookback = min 24 (length candles);
                lows = filter (\<lambda>l. l > 0) (map c_low (drop (length candles - lookback) candles))
            in case lows of [] \<Rightarrow> None | l # ls \<Rightarrow> Some (py_min l ls))
      else None)"

definition support_cluster :: "orderbook \<Rightarrow> real \<Rightarrow> cluster option" where
  "support_cluster ob price = (if bids ob \<noteq> [] then bid_cluster (bids ob) price 10 else None)"

definition atr_candidate :: "real \<Rightarrow> real \<Rightarrow> real \<Rightarrow> candidate" where
  "atr_candidate price atr sc =
     (let atr_stop = price - (atr * stop_mult sc)
      in (''atr'', atr_stop, stop_pct_of price atr_stop))"

text \<open>
  The swing-low and order-book candidates enter the list only when their own stop
  percentage is inside the band; the ATR candidate enters unconditionally.
\<close>

definition swing_candidate :: "real \<Rightarrow> candle list \<Rightarrow> candidate list" where
  "swing_candidate price candles =
     (case swing_low candles of
        None \<Rightarrow> []
      | Some sl \<Rightarrow>
          let swing_stop = sl * (995 / 1000); swing_pct = stop_pct_of price swing_stop
          in if MIN_STOP_PCT \<le> swing_pct \<and> swing_pct \<le> MAX_STOP_PCT
             then [(''swing_low'', swing_stop, swing_pct)] else [])"

definition support_candidate :: "real \<Rightarrow> orderbook \<Rightarrow> candidate list" where
  "support_candidate price ob =
     (case support_cluster ob price of
        None \<Rightarrow> []
      | Some spt \<Rightarrow>
          let ob_stop = cl_price spt * (997 / 1000); ob_pct = stop_pct_of price ob_stop
          in if MIN_STOP_PCT \<le> ob_pct \<and> ob_pct \<le> MAX_STOP_PCT
             then [(''support'', ob_stop, ob_pct)] else [])"

definition stop_candidates :: "real \<Rightarrow> real \<Rightarrow> candle list \<Rightarrow> orderbook \<Rightarrow> real \<Rightarrow> candidate list" where
  "stop_candidates price atr candles ob sc =
     atr_candidate price atr sc # swing_candidate price candles @ support_candidate price ob"

definition stop_valid :: "real \<Rightarrow> real \<Rightarrow> candidate list \<Rightarrow> candidate list" where
  "stop_valid price atr candidates =
     (let min_dist = atr * 1
      in filter (\<lambda>(m, s, p). price - s \<ge> min_dist \<and> p \<ge> MIN_STOP_PCT) candidates)"

definition stop_best :: "real \<Rightarrow> real \<Rightarrow> candle list \<Rightarrow> orderbook \<Rightarrow> real \<Rightarrow> candidate" where
  "stop_best price atr candles ob sc =
     (case stop_valid price atr (stop_candidates price atr candles ob sc) of
        [] \<Rightarrow> atr_candidate price atr sc
      | v # valid \<Rightarrow> py_max_by (\<lambda>(m, s, p). s) v valid)"

text \<open>The clamp of the chosen stop, before it is rounded for the result.\<close>

definition stop_clamped :: "real \<Rightarrow> real \<Rightarrow> real" where
  "stop_clamped price best_stop =
     max (price * (1 - MAX_STOP_PCT / 100)) (min (price * (1 - MIN_STOP_PCT / 100)) best_stop)"

definition stop_notes :: "real \<Rightarrow> real \<Rightarrow> candle list \<Rightarrow> orderbook \<Rightarrow> method_note list" where
  "stop_notes price sc candles ob =
     ATR_note (stop_mult sc)
     # (case swing_low candles of
          None \<Rightarrow> []
        | Some sl \<Rightarrow> if swing_candidate price candles \<noteq> [] then [Swing_note sl] else [])
     @ (case support_cluster ob price of
          None \<Rightarrow> []
        | Some spt \<Rightarrow> if support_candidate price ob \<noteq> [] then [OB_note (cl_price spt)] else [])"

text \<open>\<open>round(x, 8) if x else None\<close> on an optional number.\<close>

definition round_if_truthy :: "real option \<Rightarrow> real option" where
  "round_if_truthy x = (case x of None \<Rightarrow> None | Some v \<Rightarrow> if v \<noteq> 0 then Some (py_round 8 v) else None)"

text \<open>
  The stop percentages divide by the price: with a price of zero the first of them
  raises. \<open>compute\<close> calls \<open>_calc_stop\<close> with a positive price only.
\<close>

definition calc_stop ::
  "real \<Rightarrow> real \<Rightarrow> real \<Rightarrow> candle list \<Rightarrow> orderbook \<Rightarrow> real \<Rightarrow> classification \<Rightarrow> py_error + stop_result" where
  "calc_stop price atr atr_pct candles ob sc cl =
     (if price = 0 then Inl ZeroDivisionError
      else
        let best = stop_best price atr candles ob sc;
            fp = stop_clamped price (fst (snd best));
            fpct = ((price - fp) / price) * 100
        in Inr \<lparr>stop_price = py_round 8 fp,
                 stop_pct = py_round 2 fpct,
                 stop_method = fst best,
                 methods_considered = stop_notes price sc candles ob,
                 atr_distance = (if atr > 0 then py_round 1 ((price - fp) / atr) else 0),
                 swing_low_stop = round_if_truthy (map_option (\<lambda>sl. sl * (995 / 1000)) (swing_low candles)),
                 ob_support_stop = round_if_truthy
                     (map_option (\<lambda>spt. cl_price spt * (997 / 1000)) (support_cluster ob price)),
                 atr_stop_rounded = py_round 8 (fst (snd (atr_candidate price atr sc)))\<rparr>)"

text \<open>
  The choice of the stop in the words of the specification: of the three candidates, those
  at least one ATR below the price whose stop percentage is inside the band are valid;
  the valid candidate with the highest stop price is chosen; the ATR stop when none is.
\<close>

definition spec_candidates :: "real \<Rightarrow> real \<Rightarrow> candle list \<Rightarrow> orderbook \<Rightarrow> real \<Rightarrow> candidate list" where
  "spec_candidates price atr candles ob sc =
     atr_candidate price atr sc
     # (case swing_low candles of
          None \<Rightarrow> []
        | Some sl \<Rightarrow> [(''swing_low'', sl * (995 / 1000), stop_pct_of price (sl * (995 / 1000)))])
     @ (case support_cluster ob price of
          None \<Rightarrow> []
        | Some spt \<Rightarrow> [(''support'', cl_price spt * (997 / 1000),
                        stop_pct_of price (cl_price spt * (997 / 1000)))])"

definition spec_valid :: "real \<Rightarrow> real \<Rightarrow> candidate list \<Rightarrow> candidate list" where
  "spec_valid price atr candidates =
     filter (\<lambda>(m, s, p). price - s \<ge> atr \<and> 25 / 10 \<le> p \<and> p \<le> 15) candidates"

definition spec_best :: "real \<Rightarrow> real \<Rightarrow> candle list \<Rightarrow> orderbook \<Rightarrow> real \<Rightarrow> candidate" where
  "spec_best price atr candles ob sc =
     (case spec_valid price atr (spec_candidates price atr candles ob sc) of
        [] \<Rightarrow> atr_candidate price atr sc
      | v # valid \<Rightarrow> py_max_by (\<lambda>(m, s, p). s) v valid)"

text \<open>A candidate whose stop percentage is inside the band.\<close>

definition in_band :: "candidate \<Rightarrow> bool" where
  "in_band c \<longleftrightarrow> 25 / 10 \<le> snd (snd c) \<and> snd (snd c) \<le> 15"

text \<open>An order book with one bid, 10 units at 97.\<close>

definition support_book :: orderbook where
  "support_book = \<lparr>bids = [(97, 10)], asks = []\<rparr>"

section \<open>core/scanner.py\<close>

definition MAX_SCAN_WORKERS :: nat where "MAX_SCAN_WORKERS = 6"

record trail_rung =
  price_move_pct :: real
  stop_at_pct :: real
  label :: string

definition STOP_LOSS_TRAIL :: "trail_rung list" where
  "STOP_LOSS_TRAIL =
     [\<lparr>price_move_pct = 5, stop_at_pct = 0, label = ''break-even''\<rparr>,
      \<lparr>price_move_pct = 10, stop_at_pct = 5, label = ''+5%''\<rparr>,
      \<lparr>price_move_pct = 15, stop_at_pct = 10, label = ''+10%''\<rparr>,
      \<lparr>price_move_pct = 25, stop_at_pct = 18, label = ''+18%''\<rparr>,
      \<lparr>price_move_pct = 40, stop_at_pct = 30, label = ''+30%''\<rparr>,
      \<lparr>price_move_pct = 60, stop_at_pct = 45, label = ''+45%''\<rparr>]"

record tp_level =
  level :: nat
  pct :: "real option"
  sell_fraction :: real

definition TAKE_PROFIT_LEVELS :: "tp_level list" where
  "TAKE_PROFIT_LEVELS =
     [\<lparr>level = 1, pct = Some 15, sell_fraction = 25 / 100\<rparr>,
      \<lparr>level = 2, pct = Some 30, sell_fraction = 25 / 100\<rparr>,
      \<lparr>level = 3, pct = Some 50, sell_fraction = 25 / 100\<rparr>,
      \<lparr>level = 4, pct = None, sell_fraction = 25 / 100\<rparr>]"

text \<open>
  The result dictionary of \<open>_scan_token\<close>: the score result with the symbol, the current
  price and the detected events (the exchange list, the signal details and the levels
  are not needed by any property below and are left out).
\<close>

record scan_result = score_result +
  res_symbol :: string
  res_current_price :: real
  res_events :: "event list"

text \<open>
  The alert sinks are named; a call of a sink's method is an entry of the dispatch log.
  A sink is taken to return normally.
\<close>

type_synonym handler = string

datatype alert =
    Signal_alert scan_result
  | Event_alert event
  | Trade_closed close_result string
  | Tp_hit string nat real real real real real
  | Stop_update string real real real real
  | Signal_degradation string real real real real real
  | Trade_status string real real real real real real real real real

definition notify :: "handler list \<Rightarrow> alert \<Rightarrow> (handler \<times> alert) list" where
  "notify hs a = map (\<lambda>h. (h, a)) hs"

subsection \<open>Scan cycle: results and alert dispatch\<close>

text \<open>
  \<open>_scan_token\<close> from the computed signals on: score, then event detection on the
  database the score has been stored in.
\<close>

definition scan_token ::
  "database \<Rightarrow> real \<Rightarrow> string \<Rightarrow> (string \<rightharpoonup> signal) \<Rightarrow> real \<Rightarrow> real \<Rightarrow> database \<times> scan_result" where
  "scan_token db now symb signals p7d cp =
     (let (db', sr) = score db now symb signals p7d;
          events = detect_events db' now symb sr cp
      in (db', score_result.extend sr (scan_result.fields symb cp events)))"

text \<open>
  \<open>run_once\<close> after the worker pool: the completed results in completion order (\<open>None\<close>
  for a token whose scan returned nothing), kept when the composite score reaches the
  alert threshold, sorted by descending composite score (stably), then \<open>_send_alerts\<close>.
\<close>

definition collect_results :: "real \<Rightarrow> scan_result option list \<Rightarrow> scan_result list" where
  "collect_results alert_threshold completed =
     foldl (\<lambda>results f. case f of
                None \<Rightarrow> results
              | Some r \<Rightarrow> if composite_score r \<ge> alert_threshold then results @ [r] else results)
           [] completed"

definition sort_results :: "scan_result list \<Rightarrow> scan_result list" where
  "sort_results results = rev (sort_key composite_score (rev results))"

fun send_alerts :: "handler list \<Rightarrow> scan_result list \<Rightarrow> (handler \<times> alert) list" where
  "send_alerts hs [] = []"
| "send_alerts hs (r # results) =
     (if classification r \<in> {CRITICAL, HIGH_ALERT, WATCHLIST} then notify hs (Signal_alert r) else [])
     @ concat (map (\<lambda>e. notify hs (Event_alert e)) (res_events r))
     @ send_alerts hs results"

definition run_once_dispatch :: "handler list \<Rightarrow> real \<Rightarrow> scan_result option list \<Rightarrow> (handler \<times> alert) list" where
  "run_once_dispatch hs alert_threshold completed =
     send_alerts hs (sort_results (collect_results alert_threshold completed))"

subsection \<open>Trade monitoring\<close>

text \<open>\<open>trade.get(f"tp{tl}_hit")\<close>\<close>

definition get_tp_hit :: "nat \<Rightarrow> trade \<Rightarrow> int" where
  "get_tp_hit lv t =
     (if lv = 1 then tp1_hit t else if lv = 2 then tp2_hit t
      else if lv = 3 then tp3_hit t else if lv = 4 then tp4_hit t else 0)"

text \<open>
  The state a tick threads through its phases: the database, the in-memory \<open>trade\<close>
  dictionary and the alerts sent so far.
\<close>

record tick_state =
  ts_db :: database
  ts_trade :: trade
  ts_alerts :: "(handler \<times> alert) list"

text \<open>
  The take-profit loop. \<open>t0\<close> is the trade as read at the start of the tick: the locals
  \<open>sym\<close>, \<open>ep\<close>, \<open>ps\<close> and \<open>rem\<close> are taken from it once and not refreshed inside the loop,
  while \<open>realized_pnl\<close> is read from the in-memory dictionary, which the loop updates.
\<close>

fun take_profits ::
  "handler list \<Rightarrow> trade \<Rightarrow> real \<Rightarrow> real \<Rightarrow> tp_level list \<Rightarrow> tick_state \<Rightarrow> tick_state" where
  "take_profits hs t0 cp pcp [] st = st"
| "take_profits hs t0 cp pcp (tp # tps) st =
     (case pct tp of
        None \<Rightarrow> take_profits hs t0 cp pcp tps st
      | Some tpct \<Rightarrow>
          if get_tp_hit (level tp) (ts_trade st) \<noteq> 0 then take_profits hs t0 cp pcp tps st
          else if pcp \<ge> tpct
          then take_profits hs t0 cp pcp tps
                 \<lparr>ts_db = update_trade (ts_db st) (symbol t0)
                            [Set_tp_hit (level tp) 1,
                             Set_remaining_fraction (max 0 (remaining_fraction t0 - sell_fraction tp)),
                             Set_realized_pnl (realized_pnl (ts_trade st)
                                + sell_fraction tp * position_size_usd t0 * (pcp / 100))],
                  ts_trade = foldl apply_update (ts_trade st)
                            [Set_tp_hit (level tp) 1,
                             Set_remaining_fraction (remaining_fraction t0 - sell_fraction tp),
                             Set_realized_pnl (realized_pnl (ts_trade st)
                                + sell_fraction tp * position_size_usd t0 * (pcp / 100))],
                  ts_alerts = ts_alerts st @
                            notify hs (Tp_hit (symbol t0) (level tp) tpct cp (entry_price t0)
                                        (sell_fraction tp * position_size_usd t0 * (pcp / 100))
                                        ((remaining_fraction t0 - sell_fraction tp) * 100))\<rparr>
          else take_profits hs t0 cp pcp tps st)"

text \<open>The trailing ladder: the pair \<open>(nsp, ssp)\<close> after the loop over the rungs.\<close>

fun trail_scan :: "real \<Rightarrow> real \<Rightarrow> trail_rung list \<Rightarrow> real \<times> real \<Rightarrow> real \<times> real" where
  "trail_scan ep pcp [] (nsp, ssp) = (nsp, ssp)"
| "trail_scan ep pcp (tr # trs) (nsp, ssp) =
     (if pcp \<ge> price_move_pct tr \<and> stop_at_pct tr > nsp
      then trail_scan ep pcp trs (stop_at_pct tr, ep * (1 + stop_at_pct tr / 100))
      else trail_scan ep pcp trs (nsp, ssp))"

definition stop_trail :: "handler list \<Rightarrow> trade \<Rightarrow> real \<Rightarrow> real \<Rightarrow> tick_state \<Rightarrow> tick_state" where
  "stop_trail hs t0 cp pcp st =
     (let (nsp, ssp) = trail_scan (entry_price t0) pcp STOP_LOSS_TRAIL
                         (last_notified_stop_pct (ts_trade st), current_stop_price t0)
      in if nsp > last_notified_stop_pct (ts_trade st)
         then st\<lparr>ts_db := update_trade (ts_db st) (symbol t0)
                             [Set_current_stop_price ssp, Set_last_notified_stop_pct nsp],
                 ts_alerts := ts_alerts st @
                             notify hs (Stop_update (symbol t0) ssp nsp cp (entry_price t0))\<rparr>
         else st)"

definition signal_degradation :: "handler list \<Rightarrow> trade \<Rightarrow> real \<Rightarrow> real \<Rightarrow> tick_state \<Rightarrow> tick_state" where
  "signal_degradation hs t0 cp pcp st =
     (case get_latest_score (ts_db st) (symbol t0) of
        None \<Rightarrow> st
      | Some latest \<Rightarrow>
          let csc = sr_composite_score latest;
              psc = last_score (ts_trade st)
          in st\<lparr>ts_db := update_trade (ts_db st) (symbol t0) [Set_last_score csc],
                ts_alerts := ts_alerts st @
                  (if psc > 0 \<and> csc < psc - 20
                   then notify hs (Signal_degradation (symbol t0) psc csc cp (entry_price t0) pcp)
                   else [])\<rparr>)"

definition hourly_status :: "handler list \<Rightarrow> trade \<Rightarrow> real \<Rightarrow> real \<Rightarrow> real \<Rightarrow> tick_state \<Rightarrow> tick_state" where
  "hourly_status hs t0 now cp pcp st =
     (let hrs = (now - entry_timestamp (ts_trade st)) / 3600;
          ch = py_int hrs;
          meta = metadata (ts_trade st);
          upnl = remaining_fraction t0 * position_size_usd t0 * (pcp / 100)
      in if ch > (case meta ''last_status_hour'' of None \<Rightarrow> - 1 | Some v \<Rightarrow> v) \<and> ch > 0
         then st\<lparr>ts_db := update_trade (ts_db st) (symbol t0)
                             [Set_metadata (meta(''last_status_hour'' \<mapsto> ch))],
                 ts_alerts := ts_alerts st @
                   notify hs (Trade_status (symbol t0) (entry_price t0) cp pcp upnl
                                (realized_pnl (ts_trade st)) (remaining_fraction (ts_trade st) * 100)
                                (current_stop_price t0) hrs
                                (case get_latest_score (ts_db st) (symbol t0) of
                                   None \<Rightarrow> 0 | Some latest \<Rightarrow> sr_composite_score latest))\<rparr>
         else st)"

text \<open>
  \<open>_check_trade\<close>. The live price is an argument (\<open>None\<close> when no exchange answers). An
  exception leaves the tick where it is raised and is caught by \<open>_monitor_trades\<close>; the
  outcome keeps the database as it then is.
\<close>

record tick_outcome =
  to_db :: database
  to_alerts :: "(handler \<times> alert) list"
  to_error :: "py_error option"

definition check_trade :: "handler list \<Rightarrow> database \<Rightarrow> real \<Rightarrow> real option \<Rightarrow> trade \<Rightarrow> tick_outcome" where
  "check_trade hs db now live t0 =
     (if remaining_fraction t0 \<le> 0
      then (case close_trade db now (symbol t0) (entry_price t0) ''fully_exited'' of
              Inl (e, db') \<Rightarrow> \<lparr>to_db = db', to_alerts = [], to_error = Some e\<rparr>
            | Inr (db', r) \<Rightarrow> \<lparr>to_db = db', to_alerts = [], to_error = None\<rparr>)
      else case live of
        None \<Rightarrow> \<lparr>to_db = db, to_alerts = [], to_error = None\<rparr>
      | Some cp \<Rightarrow>
          if cp = 0 then \<lparr>to_db = db, to_alerts = [], to_error = None\<rparr>
          else if entry_price t0 = 0
          then \<lparr>to_db = db, to_alerts = [], to_error = Some ZeroDivisionError\<rparr>
          else
            let pcp = ((cp - entry_price t0) / entry_price t0) * 100
            in if cp \<le> current_stop_price t0
               then (case close_trade db now (symbol t0) cp ''stop_loss'' of
                       Inl (e, db') \<Rightarrow> \<lparr>to_db = db', to_alerts = [], to_error = Some e\<rparr>
                     | Inr (db', r) \<Rightarrow>
                         \<lparr>to_db = db',
                          to_alerts = (case r of None \<Rightarrow> []
                                       | Some res \<Rightarrow> notify hs (Trade_closed res ''STOP LOSS HIT'')),
                          to_error = None\<rparr>)
               else
                 let st1 = take_profits hs t0 cp pcp TAKE_PROFIT_LEVELS
                             \<lparr>ts_db = db, ts_trade = t0, ts_alerts = []\<rparr>;
                     st2 = stop_trail hs t0 cp pcp st1;
                     st3 = signal_degradation hs t0 cp pcp st2;
                     st4 = hourly_status hs t0 now cp pcp st3
                 in \<lparr>to_db = ts_db st4, to_alerts = ts_alerts st4, to_error = None\<rparr>)"

text \<open>
  One monitor tick of a symbol: the score history is whatever the scans have made of it
  since the last tick, the row of the symbol is read and handed to \<open>_check_trade\<close>. A
  run is a sequence of such ticks.
\<close>

record tick_input =
  ti_now :: real
  ti_live :: "real option"
  ti_scores :: "score_row list"

definition monitor_tick :: "handler list \<Rightarrow> string \<Rightarrow> database \<Rightarrow> tick_input \<Rightarrow> database" where
  "monitor_tick hs symb db i =
     (let db1 = db\<lparr>score_history := ti_scores i\<rparr>
      in case get_active_trade db1 symb of
           None \<Rightarrow> db1
         | Some t \<Rightarrow> to_db (check_trade hs db1 (ti_now i) (ti_live i) t))"

definition run_ticks :: "handler list \<Rightarrow> string \<Rightarrow> database \<Rightarrow> tick_input list \<Rightarrow> database" where
  "run_ticks hs symb db inputs = foldl (monitor_tick hs symb) db inputs"

text \<open>
  What a monitor tick maintains of a trade row created by \<open>add_trade\<close> with a
  non-negative stop percentage, and how a row compares with the one a tick later.
\<close>

definition flag_ok :: "int \<Rightarrow> bool" where
  "flag_ok f \<longleftrightarrow> f = 0 \<or> f = 1"

definition trade_inv :: "trade \<Rightarrow> bool" where
  "trade_inv t \<longleftrightarrow>
     0 \<le> remaining_fraction t \<and> remaining_fraction t \<le> 1
   \<and> flag_ok (tp1_hit t) \<and> flag_ok (tp2_hit t) \<and> flag_ok (tp3_hit t) \<and> flag_ok (tp4_hit t)
   \<and> 0 \<le> stop_loss_pct t \<and> 0 \<le> last_notified_stop_pct t
   \<and> (if last_notified_stop_pct t = 0
       then current_stop_price t = entry_price t * (1 - stop_loss_pct t / 100)
       else 0 < entry_price t
          \<and> current_stop_price t = entry_price t * (1 + last_notified_stop_pct t / 100))"

definition trade_step :: "trade \<Rightarrow> trade \<Rightarrow> bool" where
  "trade_step t t' \<longleftrightarrow>
     current_stop_price t \<le> current_stop_price t'
   \<and> tp1_hit t \<le> tp1_hit t' \<and> tp2_hit t \<le> tp2_hit t'
   \<and> tp3_hit t \<le> tp3_hit t' \<and> tp4_hit t \<le> tp4_hit t'"

text \<open>The trade the specification's scenario registers: DOGE at 100, 10,000 USD, stop 7%.\<close>

definition doge_trade :: trade where
  "doge_trade =
     \<lparr>symbol = ''DOGE'', entry_price = 100, position_size_usd = 10000, stop_loss_pct = 7,
      current_stop_price = 93, entry_timestamp = 0,
      tp1_hit = 0, tp2_hit = 0, tp3_hit = 0, tp4_hit = 0,
      remaining_fraction = 1, realized_pnl = 0, last_notified_stop_pct = 0,
      last_score = 0, metadata = Map.empty\<rparr>"

definition doge_database :: database where
  "doge_database = fst (add_trade empty_database 0 ''DOGE'' 100 10000 7)"

text \<open>
  How the take-profit loop may change the row of the trade it was started on: the
  remaining fraction, the realized profit and the hit flags only.
\<close>

definition tp_rel :: "trade \<Rightarrow> trade \<Rightarrow> trade \<Rightarrow> bool" where
  "tp_rel t0 r r' \<longleftrightarrow>
     entry_price r' = entry_price r \<and> stop_loss_pct r' = stop_loss_pct r
   \<and> current_stop_price r' = current_stop_price r
   \<and> last_notified_stop_pct r' = last_notified_stop_pct r
   \<and> (remaining_fraction r' = remaining_fraction r
        \<or> remaining_fraction r' = max 0 (remaining_fraction t0 - 25 / 100))
   \<and> (tp1_hit r' = tp1_hit r \<or> tp1_hit r' = 1)
   \<and> (tp2_hit r' = tp2_hit r \<or> tp2_hit r' = 1)
   \<and> (tp3_hit r' = tp3_hit r \<or> tp3_hit r' = 1)
   \<and> (tp4_hit r' = tp4_hit r \<or> tp4_hit r' = 1)"

text \<open>The row after the last two phases agrees with the row before them on every
  field but the last score and the metadata.\<close>

definition same_core :: "trade \<Rightarrow> trade \<Rightarrow> bool" where
  "same_core r r' \<longleftrightarrow> r' = r\<lparr>last_score := last_score r', metadata := metadata r'\<rparr>"

text \<open>A database whose score history holds one earlier row of DOGE: score 10, class NONE.\<close>

definition scored_once_database :: database where
  "scored_once_database =
     empty_database\<lparr>score_history :=
       [\<lparr>sr_timestamp = 0, sr_symbol = ''DOGE'', sr_composite_score = 10,
         sr_classification = NONE, sr_signal_scores = [], sr_bonuses_applied = [],
         sr_penalties_applied = []\<rparr>]\<rparr>"

section \<open>Rounding and the scorer's arithmetic\<close>

lemma round_half_even_cases: "round_half_even x = \<lfloor>x\<rfloor> \<or> round_half_even x = \<lfloor>x\<rfloor> + 1"
  by (simp add: round_half_even_def Let_def)

lemma round_half_even_mono:
  assumes "x \<le> y" shows "round_half_even x \<le> round_half_even y"
proof (cases "\<lfloor>x\<rfloor> < \<lfloor>y\<rfloor>")
  case True
  have "round_half_even x \<le> \<lfloor>x\<rfloor> + 1" using round_half_even_cases[of x] by auto
  also have "\<dots> \<le> \<lfloor>y\<rfloor>" using True by simp
  also have "\<dots> \<le> round_half_even y" using round_half_even_cases[of y] by auto
  finally show ?thesis .
next
  case False
  have "\<lfloor>x\<rfloor> \<le> \<lfloor>y\<rfloor>" using assms by (rule floor_mono)
  with False have eq: "\<lfloor>x\<rfloor> = \<lfloor>y\<rfloor>" by simp
  then have "x - of_int \<lfloor>x\<rfloor> \<le> y - of_int \<lfloor>y\<rfloor>" using assms by simp
  then show ?thesis using eq by (auto simp: round_half_even_def Let_def)
qed

lemma round_half_even_of_int [simp]: "round_half_even (of_int k) = k"
  by (simp add: round_half_even_def Let_def)

lemma py_round_mono: "x \<le> y \<Longrightarrow> py_round n x \<le> py_round n y"
proof -
  assume "x \<le> y"
  then have "x * 10 ^ n \<le> y * 10 ^ n" by (simp add: mult_right_mono)
  then have "round_half_even (x * 10 ^ n) \<le> round_half_even (y * 10 ^ n)"
    by (rule round_half_even_mono)
  then have "(of_int (round_half_even (x * 10 ^ n)) :: real) \<le> of_int (round_half_even (y * 10 ^ n))"
    by simp
  then show ?thesis unfolding py_round_def by (simp add: divide_right_mono)
qed

lemma py_round_of_int [simp]: "py_round n (of_int k) = of_int k"
proof -
  have "(of_int k :: real) * 10 ^ n = of_int (k * 10 ^ n)" by simp
  then have "round_half_even (of_int k * 10 ^ n) = k * 10 ^ n"
    by (simp only: round_half_even_of_int)
  then show ?thesis unfolding py_round_def by simp
qed

lemma py_round_0 [simp]: "py_round n 0 = 0"
  using py_round_of_int[of n 0] by simp

lemma py_round_100 [simp]: "py_round n 100 = 100"
  using py_round_of_int[of n 100] by simp

lemma py_round_clamp_range: "0 \<le> py_round n (clamp v 0 100) \<and> py_round n (clamp v 0 100) \<le> 100"
proof -
  have "0 \<le> clamp v 0 100" "clamp v 0 100 \<le> 100" by (auto simp: clamp_def)
  then show ?thesis using py_round_mono[of 0 "clamp v 0 100" n] py_round_mono[of "clamp v 0 100" 100 n]
    by simp
qed

lemma score_base_eq: "score_base signals = spec_base signals"
  by (simp add: score_base_def spec_base_def SIGNAL_WEIGHTS_def)

lemma score_bonus_mult_eq:
  "score_bonus_mult (score_signal_scores signals) = spec_bonus_sum (\<lambda>n. py_round 1 (signal_ns signals n))"
  by (simp add: score_bonus_mult_def score_signal_scores_def spec_bonus_sum_def SIGNAL_WEIGHTS_def
      INTERACTION_BONUSES_def bonus_applies_def)

lemma score_penalty_mult_eq: "score_penalty_mult p = spec_penalty_sum p"
  by (simp add: score_penalty_mult_def spec_penalty_sum_def EXTENDED_PRICE_PENALTY_def
      EXTENDED_PRICE_THRESHOLD_PCT_def)

section \<open>Properties of \<open>piecewise_lerp\<close>\<close>

subsection \<open>Rounding to double precision\<close>

lemma pow2_powr: "pow2 k = 2 powr (of_int k)"
  by (simp add: pow2_def powr_int)

lemma pow2_pos [simp]: "0 < pow2 k"
  by (simp add: pow2_powr)

lemma pow2_add: "pow2 (a + b) = pow2 a * pow2 b"
  by (simp add: pow2_powr powr_add)

lemma pow2_mono: "a \<le> b \<Longrightarrow> pow2 a \<le> pow2 b"
  by (simp add: pow2_powr powr_mono)

lemma binade_bounds:
  assumes "x \<noteq> 0"
  shows "pow2 (binade x) \<le> \<bar>x\<bar>" and "\<bar>x\<bar> < pow2 (binade x + 1)"
proof -
  have pos: "0 < \<bar>x\<bar>" using assms by simp
  have "of_int (binade x) \<le> log 2 \<bar>x\<bar>" by (simp add: binade_def)
  then show "pow2 (binade x) \<le> \<bar>x\<bar>"
    unfolding pow2_powr using pos by (simp add: le_log_iff)
  have "log 2 \<bar>x\<bar> < of_int (binade x + 1)" by (simp add: binade_def)
  then show "\<bar>x\<bar> < pow2 (binade x + 1)"
    unfolding pow2_powr using pos by (simp add: log_less_iff)
qed

lemma binade_eqI:
  assumes "pow2 e \<le> \<bar>x\<bar>" "\<bar>x\<bar> < pow2 (e + 1)"
  shows "binade x = e"
proof -
  have pos: "0 < \<bar>x\<bar>" using assms(1) pow2_pos[of e] by linarith
  have "of_int e \<le> log 2 \<bar>x\<bar>" using assms(1) pos unfolding pow2_powr by (simp add: le_log_iff)
  moreover have "log 2 \<bar>x\<bar> < of_int e + 1"
    using assms(2) pos unfolding pow2_powr by (simp add: log_less_iff)
  ultimately show ?thesis unfolding binade_def by (rule floor_unique)
qed

lemma binade_mono:
  assumes "0 < x" "x \<le> y"
  shows "binade x \<le> binade y"
proof -
  have "log 2 \<bar>x\<bar> \<le> log 2 \<bar>y\<bar>" using assms by simp
  then show ?thesis unfolding binade_def by (rule floor_mono)
qed

lemma binade_minus [simp]: "binade (- x) = binade x"
  by (simp add: binade_def)


lemma pow2_inverse: "1 / pow2 k = pow2 (- k)"
  by (simp add: pow2_powr powr_minus_divide)

lemma pow2_numeral_52: "pow2 52 = 2 ^ 52" by (simp add: pow2_def)

lemma pow2_diff_52: "pow2 (e - 52) * 2 ^ 52 = pow2 e"
  using pow2_add[of "e - 52" 52] by (simp add: pow2_numeral_52)

lemma pow2_diff_53: "pow2 (e - 52) * 2 ^ 53 = pow2 (e + 1)"
proof -
  have "e - 52 + 53 = e + 1" by simp
  then have "pow2 (e + 1) = pow2 (e - 52) * pow2 53" using pow2_add[of "e - 52" 53] by (simp only:)
  moreover have "pow2 53 = 2 ^ 53" by (simp add: pow2_def)
  ultimately show ?thesis by (simp only:)
qed

lemma round_half_even_minus: "round_half_even (- x) = - round_half_even x"
proof (cases "x = of_int \<lfloor>x\<rfloor>")
  case True
  then have "- x = of_int (- \<lfloor>x\<rfloor>)" by simp
  then have "round_half_even (- x) = - \<lfloor>x\<rfloor>" by (simp only: round_half_even_of_int)
  moreover have "round_half_even x = \<lfloor>x\<rfloor>" using True round_half_even_of_int[of "\<lfloor>x\<rfloor>"] by simp
  ultimately show ?thesis by simp
next
  case False
  have fm: "\<lfloor>- x\<rfloor> = - \<lfloor>x\<rfloor> - 1" using False by (simp add: floor_minus ceiling_altdef)
  have d: "x - of_int \<lfloor>x\<rfloor> < 1" "0 < x - of_int \<lfloor>x\<rfloor>" using False by linarith+
  show ?thesis unfolding round_half_even_def Let_def fm using d by auto
qed

lemma fl_0 [simp]: "fl 0 = 0" by (simp add: fl_def)

lemma fl_minus: "fl (- x) = - fl x"
  by (simp add: fl_def round_half_even_minus)

lemma fl_eval:
  assumes "pow2 e \<le> \<bar>x\<bar>" "\<bar>x\<bar> < pow2 (e + 1)"
  shows "fl x = of_int (round_half_even (x / pow2 (e - 52))) * pow2 (e - 52)"
proof -
  have "0 < \<bar>x\<bar>" using assms(1) pow2_pos[of e] by linarith
  then have "x \<noteq> 0" by simp
  moreover have "binade x = e" using assms by (rule binade_eqI)
  ultimately show ?thesis by (simp add: fl_def)
qed

lemma fl_pos_bounds:
  assumes "0 < x"
  shows "pow2 (binade x) \<le> fl x" and "fl x \<le> pow2 (binade x + 1)"
proof -
  let ?e = "binade x" let ?u = "pow2 (binade x - 52)"
  have nz: "x \<noteq> 0" using assms by simp
  have lo: "pow2 ?e \<le> x" and hi: "x < pow2 (?e + 1)" using binade_bounds[OF nz] assms by simp_all
  have u: "0 < ?u" by simp
  have "(2 ^ 52 :: real) \<le> x / ?u" using lo u pow2_diff_52[of ?e] by (simp add: pos_le_divide_eq mult.commute)
  then have "round_half_even (of_int (2 ^ 52)) \<le> round_half_even (x / ?u)"
    by (intro round_half_even_mono) simp
  then have a: "(2 ^ 52 :: int) \<le> round_half_even (x / ?u)" by (simp only: round_half_even_of_int)
  have "x / ?u \<le> (2 ^ 53 :: real)" using hi u pow2_diff_53[of ?e] by (simp add: pos_divide_le_eq mult.commute)
  then have "round_half_even (x / ?u) \<le> round_half_even (of_int (2 ^ 53))"
    by (intro round_half_even_mono) simp
  then have b: "round_half_even (x / ?u) \<le> (2 ^ 53 :: int)" by (simp only: round_half_even_of_int)
  have flx: "fl x = of_int (round_half_even (x / ?u)) * ?u" using nz by (simp add: fl_def)
  have "(of_int (2 ^ 52) :: real) \<le> of_int (round_half_even (x / ?u))" using a by (simp only: of_int_le_iff)
  then have "(2 ^ 52 :: real) \<le> of_int (round_half_even (x / ?u))" by simp
  then have "2 ^ 52 * ?u \<le> of_int (round_half_even (x / ?u)) * ?u" using u by (simp only: mult_le_cancel_right_pos)
  moreover have "pow2 ?e = 2 ^ 52 * ?u" using pow2_diff_52[of ?e] by (simp only: mult.commute)
  ultimately show "pow2 ?e \<le> fl x" using flx by linarith
  have "(of_int (round_half_even (x / ?u)) :: real) \<le> of_int (2 ^ 53)" using b by (simp only: of_int_le_iff)
  then have "of_int (round_half_even (x / ?u)) \<le> (2 ^ 53 :: real)" by simp
  then have "of_int (round_half_even (x / ?u)) * ?u \<le> 2 ^ 53 * ?u" using u by (simp only: mult_le_cancel_right_pos)
  moreover have "pow2 (?e + 1) = 2 ^ 53 * ?u" using pow2_diff_53[of ?e] by (simp only: mult.commute)
  ultimately show "fl x \<le> pow2 (?e + 1)" using flx by linarith
qed

lemma fl_pos: "0 < x \<Longrightarrow> 0 < fl x"
  using fl_pos_bounds(1)[of x] pow2_pos[of "binade x"] by linarith

lemma fl_nonneg: "0 \<le> x \<Longrightarrow> 0 \<le> fl x"
  using fl_pos[of x] by (cases "x = 0") auto

lemma fl_nonpos: "x \<le> 0 \<Longrightarrow> fl x \<le> 0"
  using fl_nonneg[of "- x"] by (simp add: fl_minus)

lemma fl_mono_pos:
  assumes "0 < x" "x \<le> y"
  shows "fl x \<le> fl y"
proof (cases "binade x = binade y")
  case True
  let ?u = "pow2 (binade y - 52)"
  have "x / ?u \<le> y / ?u" using assms(2) by (rule divide_right_mono) (simp add: less_imp_le)
  then have "round_half_even (x / ?u) \<le> round_half_even (y / ?u)" by (rule round_half_even_mono)
  then have "(of_int (round_half_even (x / ?u)) :: real) \<le> of_int (round_half_even (y / ?u))" by simp
  then have "of_int (round_half_even (x / ?u)) * ?u \<le> of_int (round_half_even (y / ?u)) * ?u"
    by (simp only: mult_le_cancel_right_pos pow2_pos)
  then show ?thesis using assms True by (simp add: fl_def)
next
  case False
  have "binade x \<le> binade y" using assms by (rule binade_mono)
  with False have "binade x + 1 \<le> binade y" by simp
  then have "pow2 (binade x + 1) \<le> pow2 (binade y)" by (rule pow2_mono)
  moreover have "fl x \<le> pow2 (binade x + 1)" using assms by (intro fl_pos_bounds) simp
  moreover have "pow2 (binade y) \<le> fl y" using assms by (intro fl_pos_bounds) simp
  ultimately show ?thesis by linarith
qed

lemma fl_mono:
  assumes "x \<le> y"
  shows "fl x \<le> fl y"
proof -
  consider (pos) "0 < x" | (mid) "x \<le> 0" "0 \<le> y" | (neg) "y < 0" using assms by linarith
  then show ?thesis
  proof cases
    case pos
    then show ?thesis using assms by (rule fl_mono_pos)
  next
    case mid
    then show ?thesis using fl_nonpos[of x] fl_nonneg[of y] by linarith
  next
    case neg
    then have "fl (- y) \<le> fl (- x)" using assms by (intro fl_mono_pos) simp_all
    then show ?thesis by (simp add: fl_minus)
  qed
qed

lemma fl_of_int:
  assumes "\<bar>n\<bar> < 2 ^ 53"
  shows "fl (of_int n) = of_int n"
proof (cases "n = 0")
  case True
  then show ?thesis by simp
next
  case False
  let ?x = "of_int n :: real" let ?e = "binade ?x"
  have nz: "?x \<noteq> 0" using False by simp
  have "pow2 ?e \<le> \<bar>?x\<bar>" using binade_bounds(1)[OF nz] .
  also have "\<bar>?x\<bar> < 2 ^ 53" using assms by (metis of_int_abs of_int_less_numeral_power_cancel_iff)
  finally have "pow2 ?e < pow2 53" by (simp add: pow2_def)
  then have "?e < 53" using pow2_mono[of 53 ?e] by (cases "?e < 53") auto
  then have k: "0 \<le> 52 - ?e" by simp
  have one: "pow2 (52 - ?e) * pow2 (?e - 52) = 1" using pow2_add[of "52 - ?e" "?e - 52"] by (simp add: pow2_def)
  have inv: "1 / pow2 (?e - 52) = pow2 (52 - ?e)" using pow2_inverse[of "?e - 52"] by simp
  have "?x / pow2 (?e - 52) = ?x * (1 / pow2 (?e - 52))" by simp
  also have "\<dots> = ?x * pow2 (52 - ?e)" by (simp only: inv)
  also have "\<dots> = of_int (n * 2 ^ nat (52 - ?e))" using k by (simp add: pow2_def)
  finally have "round_half_even (?x / pow2 (?e - 52)) = n * 2 ^ nat (52 - ?e)"
    by (simp only: round_half_even_of_int)
  then have "fl ?x = of_int (n * 2 ^ nat (52 - ?e)) * pow2 (?e - 52)" using nz by (simp add: fl_def)
  also have "\<dots> = ?x * (pow2 (52 - ?e) * pow2 (?e - 52))" using k by (simp add: pow2_def)
  also have "\<dots> = ?x" by (simp only: one mult_1_right)
  finally show ?thesis .
qed

lemma fl_1 [simp]: "fl 1 = 1"
  using fl_of_int[of 1] by simp

subsection \<open>One segment\<close>

lemma fl_exact_int: "y = of_int \<lfloor>y\<rfloor> \<Longrightarrow> \<bar>y\<bar> < 2 ^ 52 \<Longrightarrow> fl y = y"
proof -
  assume a: "y = of_int \<lfloor>y\<rfloor>" and b: "\<bar>y\<bar> < 2 ^ 52"
  have "\<bar>of_int \<lfloor>y\<rfloor> :: real\<bar> < 2 ^ 52" using a b by simp
  then have "\<bar>\<lfloor>y\<rfloor>\<bar> < 2 ^ 52" by (metis of_int_abs of_int_less_numeral_power_cancel_iff)
  then have "\<bar>\<lfloor>y\<rfloor>\<bar> < 2 ^ 53" by simp
  then have "fl (of_int \<lfloor>y\<rfloor>) = of_int \<lfloor>y\<rfloor>" by (rule fl_of_int)
  then show ?thesis using a by simp
qed

lemma fl_exact_int_diff:
  assumes "y0 = of_int \<lfloor>y0\<rfloor>" "\<bar>y0\<bar> < 2 ^ 52" "y1 = of_int \<lfloor>y1\<rfloor>" "\<bar>y1\<bar> < 2 ^ 52"
  shows "fl (y1 - y0) = y1 - y0"
proof -
  have e: "y1 - y0 = of_int (\<lfloor>y1\<rfloor> - \<lfloor>y0\<rfloor>)" using assms(1,3) by simp
  have "\<bar>of_int \<lfloor>y0\<rfloor> :: real\<bar> < 2 ^ 52" "\<bar>of_int \<lfloor>y1\<rfloor> :: real\<bar> < 2 ^ 52" using assms by simp_all
  then have "\<bar>\<lfloor>y0\<rfloor>\<bar> < 2 ^ 52" "\<bar>\<lfloor>y1\<rfloor>\<bar> < 2 ^ 52"
    by (metis of_int_abs of_int_less_numeral_power_cancel_iff)+
  then have "\<bar>\<lfloor>y1\<rfloor> - \<lfloor>y0\<rfloor>\<bar> < 2 ^ 53" by simp
  then have "fl (of_int (\<lfloor>y1\<rfloor> - \<lfloor>y0\<rfloor>)) = of_int (\<lfloor>y1\<rfloor> - \<lfloor>y0\<rfloor>)" by (rule fl_of_int)
  then show ?thesis using e by simp
qed

lemma lerp_t_range:
  assumes "x0 < x1" "x0 \<le> v" "v \<le> x1"
  shows "0 \<le> fl (fl (v - x0) / fl (x1 - x0))" and "fl (fl (v - x0) / fl (x1 - x0)) \<le> 1"
proof -
  have d: "0 < fl (x1 - x0)" using assms(1) by (intro fl_pos) simp
  have n: "0 \<le> fl (v - x0)" using assms(2) by (intro fl_nonneg) simp
  have "fl (v - x0) \<le> fl (x1 - x0)" using assms(3) by (intro fl_mono) simp
  then have "fl (v - x0) / fl (x1 - x0) \<le> 1" using d by simp
  then have "fl (fl (v - x0) / fl (x1 - x0)) \<le> fl 1" by (rule fl_mono)
  then show "fl (fl (v - x0) / fl (x1 - x0)) \<le> 1" by simp
  have "0 \<le> fl (v - x0) / fl (x1 - x0)" using d n by simp
  then show "0 \<le> fl (fl (v - x0) / fl (x1 - x0))" by (rule fl_nonneg)
qed

lemma lerp_t_mono:
  assumes "x0 < x1" "v \<le> w"
  shows "fl (fl (v - x0) / fl (x1 - x0)) \<le> fl (fl (w - x0) / fl (x1 - x0))"
proof -
  have d: "0 < fl (x1 - x0)" using assms(1) by (intro fl_pos) simp
  have "fl (v - x0) \<le> fl (w - x0)" using assms(2) by (intro fl_mono) simp
  then have "fl (v - x0) / fl (x1 - x0) \<le> fl (w - x0) / fl (x1 - x0)"
    by (rule divide_right_mono) (simp add: d less_imp_le)
  then show ?thesis by (rule fl_mono)
qed

lemma lerp_segment_bounds:
  assumes "0 \<le> t" "t \<le> 1" "y0 \<le> y1" "fl y0 = y0" "fl y1 = y1" "fl (y1 - y0) = y1 - y0"
  shows "y0 \<le> fl (y0 + fl (t * fl (y1 - y0)))" and "fl (y0 + fl (t * fl (y1 - y0))) \<le> y1"
proof -
  have d: "0 \<le> y1 - y0" using assms(3) by simp
  have "0 \<le> t * (y1 - y0)" using assms(1) d by (rule mult_nonneg_nonneg)
  then have p0: "0 \<le> fl (t * (y1 - y0))" by (rule fl_nonneg)
  have "t * (y1 - y0) \<le> 1 * (y1 - y0)" using assms(2) d by (rule mult_right_mono)
  then have "t * (y1 - y0) \<le> y1 - y0" by (simp only: mult_1)
  then have "fl (t * (y1 - y0)) \<le> fl (y1 - y0)" by (rule fl_mono)
  then have p1: "fl (t * (y1 - y0)) \<le> y1 - y0" by (simp only: assms(6))
  have "fl y0 \<le> fl (y0 + fl (t * (y1 - y0)))" using p0 by (intro fl_mono) simp
  then show "y0 \<le> fl (y0 + fl (t * fl (y1 - y0)))" by (simp only: assms(4) assms(6))
  have "fl (y0 + fl (t * (y1 - y0))) \<le> fl y1" using p1 by (intro fl_mono) simp
  then show "fl (y0 + fl (t * fl (y1 - y0))) \<le> y1" by (simp only: assms(5) assms(6))
qed

lemma lerp_segment_mono:
  assumes "t \<le> t'" "y0 \<le> y1"
  shows "fl (y0 + fl (t * fl (y1 - y0))) \<le> fl (y0 + fl (t' * fl (y1 - y0)))"
proof -
  have "0 \<le> fl (y1 - y0)" using assms(2) by (intro fl_nonneg) simp
  with assms(1) have "t * fl (y1 - y0) \<le> t' * fl (y1 - y0)" by (rule mult_right_mono)
  then have "fl (t * fl (y1 - y0)) \<le> fl (t' * fl (y1 - y0))" by (rule fl_mono)
  then show ?thesis by (intro fl_mono) simp
qed

lemma lerp_segment_exact:
  assumes "x0 < x1" "fl y1 = y1" "fl (y1 - y0) = y1 - y0"
  shows "fl (y0 + fl (fl (fl (x1 - x0) / fl (x1 - x0)) * fl (y1 - y0))) = y1"
proof -
  have d: "0 < fl (x1 - x0)" using assms(1) by (intro fl_pos) simp
  then have "fl (x1 - x0) / fl (x1 - x0) = 1" by simp
  then have "fl (fl (x1 - x0) / fl (x1 - x0)) = 1" by simp
  then show ?thesis by (simp add: assms(2) assms(3))
qed

subsection \<open>The loop\<close>

lemma integer_ys_Cons2:
  assumes "integer_ys ((x0, y0) # (x1, y1) # rest)"
  shows "fl y0 = y0" and "fl y1 = y1" and "fl (y1 - y0) = y1 - y0" and "integer_ys ((x1, y1) # rest)"
proof -
  from assms have a: "y0 = of_int \<lfloor>y0\<rfloor>" "\<bar>y0\<bar> < 2 ^ 52" "y1 = of_int \<lfloor>y1\<rfloor>" "\<bar>y1\<bar> < 2 ^ 52"
    by (simp_all add: integer_ys_def)
  show "fl y0 = y0" using a(1,2) by (rule fl_exact_int)
  show "fl y1 = y1" using a(3,4) by (rule fl_exact_int)
  show "fl (y1 - y0) = y1 - y0" using a by (rule fl_exact_int_diff)
  show "integer_ys ((x1, y1) # rest)" using assms by (simp add: integer_ys_def)
qed

lemma lerp_loop_in:
  "x0 < x1 \<Longrightarrow> x0 \<le> v \<Longrightarrow> v \<le> x1 \<Longrightarrow>
   lerp_loop v ((x0, y0) # (x1, y1) # rest) = fl (y0 + fl (fl (fl (v - x0) / fl (x1 - x0)) * fl (y1 - y0)))"
  by (simp add: Let_def)

lemma lerp_loop_out:
  "\<not> v \<le> x1 \<Longrightarrow> lerp_loop v ((x0, y0) # (x1, y1) # rest) = lerp_loop v ((x1, y1) # rest)"
  by simp

lemma lerp_loop_segment_bounds:
  assumes "x0 < x1" "y0 \<le> y1" "x0 \<le> v" "v \<le> x1" and i: "integer_ys ((x0, y0) # (x1, y1) # rest)"
  shows "y0 \<le> lerp_loop v ((x0, y0) # (x1, y1) # rest)"
    and "lerp_loop v ((x0, y0) # (x1, y1) # rest) \<le> y1"
proof -
  note t = lerp_t_range[OF assms(1,3,4)]
  note e = integer_ys_Cons2(1-3)[OF i]
  show "y0 \<le> lerp_loop v ((x0, y0) # (x1, y1) # rest)"
    unfolding lerp_loop_in[OF assms(1,3,4)] using t assms(2) e by (rule lerp_segment_bounds(1))
  show "lerp_loop v ((x0, y0) # (x1, y1) # rest) \<le> y1"
    unfolding lerp_loop_in[OF assms(1,3,4)] using t assms(2) e by (rule lerp_segment_bounds(2))
qed

lemma lerp_loop_segment_mono:
  assumes "x0 < x1" "y0 \<le> y1" "x0 \<le> v" "v \<le> w" "w \<le> x1"
  shows "lerp_loop v ((x0, y0) # (x1, y1) # rest) \<le> lerp_loop w ((x0, y0) # (x1, y1) # rest)"
proof -
  have v: "v \<le> x1" and w: "x0 \<le> w" using assms by simp_all
  show ?thesis
    unfolding lerp_loop_in[OF assms(1,3) v] lerp_loop_in[OF assms(1) w assms(5)]
    using lerp_t_mono[OF assms(1,4)] assms(2) by (rule lerp_segment_mono)
qed

lemma lerp_loop_segment_exact:
  assumes "x0 < x1" and i: "integer_ys ((x0, y0) # (x1, y1) # rest)"
  shows "lerp_loop x1 ((x0, y0) # (x1, y1) # rest) = y1"
proof -
  have a: "x0 \<le> x1" "x1 \<le> x1" using assms(1) by simp_all
  show ?thesis unfolding lerp_loop_in[OF assms(1) a]
    using assms(1) integer_ys_Cons2(2,3)[OF i] by (rule lerp_segment_exact)
qed

lemma lerp_loop_bounds:
  "monotonic_breakpoints (p # q # rest) \<Longrightarrow> integer_ys (p # q # rest) \<Longrightarrow>
   fst p \<le> v \<Longrightarrow> v \<le> fst (last (p # q # rest)) \<Longrightarrow>
   snd p \<le> lerp_loop v (p # q # rest) \<and> lerp_loop v (p # q # rest) \<le> snd (last (p # q # rest))"
proof (induction rest arbitrary: p q)
  case Nil
  obtain x0 y0 x1 y1 where pq: "p = (x0, y0)" "q = (x1, y1)" by (cases p, cases q) auto
  from Nil pq have s: "x0 < x1" "y0 \<le> y1" "x0 \<le> v" "v \<le> x1"
    by (auto simp: monotonic_breakpoints_def)
  have i: "integer_ys ((x0, y0) # (x1, y1) # [])" using Nil.prems(2) pq by simp
  show ?case using pq lerp_loop_segment_bounds[OF s i] by simp
next
  case (Cons r rest)
  obtain x0 y0 x1 y1 where pq: "p = (x0, y0)" "q = (x1, y1)" by (cases p, cases q) auto
  from Cons.prems pq have s: "x0 < x1" "y0 \<le> y1" "x0 \<le> v"
    and m: "monotonic_breakpoints (q # r # rest)"
    by (auto simp: monotonic_breakpoints_def)
  have i: "integer_ys ((x0, y0) # (x1, y1) # r # rest)" using Cons.prems(2) pq by simp
  have i': "integer_ys (q # r # rest)" using integer_ys_Cons2(4)[OF i] pq by simp
  have ylast: "y1 \<le> snd (last (q # r # rest))"
    using Cons.prems(1) pq by (auto simp: monotonic_breakpoints_def)
  show ?case
  proof (cases "v \<le> x1")
    case True
    have "y0 \<le> lerp_loop v ((x0, y0) # (x1, y1) # r # rest)"
      and "lerp_loop v ((x0, y0) # (x1, y1) # r # rest) \<le> y1"
      using lerp_loop_segment_bounds[OF s True i] by blast+
    then show ?thesis using pq ylast by simp
  next
    case False
    then have "fst q \<le> v" using pq by simp
    moreover have "v \<le> fst (last (q # r # rest))" using Cons.prems(4) by simp
    ultimately have "snd q \<le> lerp_loop v (q # r # rest) \<and>
        lerp_loop v (q # r # rest) \<le> snd (last (q # r # rest))"
      using Cons.IH[OF m i'] by blast
    moreover have "lerp_loop v (p # q # r # rest) = lerp_loop v (q # r # rest)"
      using pq lerp_loop_out[OF False] by simp
    ultimately show ?thesis using pq s by simp
  qed
qed

lemma lerp_loop_mono:
  "monotonic_breakpoints (p # q # rest) \<Longrightarrow> integer_ys (p # q # rest) \<Longrightarrow>
   fst p \<le> v \<Longrightarrow> v \<le> w \<Longrightarrow> w \<le> fst (last (p # q # rest)) \<Longrightarrow>
   lerp_loop v (p # q # rest) \<le> lerp_loop w (p # q # rest)"
proof (induction rest arbitrary: p q)
  case Nil
  obtain x0 y0 x1 y1 where pq: "p = (x0, y0)" "q = (x1, y1)" by (cases p, cases q) auto
  from Nil pq have s: "x0 < x1" "y0 \<le> y1" "x0 \<le> v" "v \<le> w" "w \<le> x1"
    by (auto simp: monotonic_breakpoints_def)
  show ?case using pq lerp_loop_segment_mono[OF s] by simp
next
  case (Cons r rest)
  obtain x0 y0 x1 y1 where pq: "p = (x0, y0)" "q = (x1, y1)" by (cases p, cases q) auto
  from Cons.prems pq have s: "x0 < x1" "y0 \<le> y1" "x0 \<le> v"
    and m: "monotonic_breakpoints (q # r # rest)"
    by (auto simp: monotonic_breakpoints_def)
  have i: "integer_ys ((x0, y0) # (x1, y1) # r # rest)" using Cons.prems(2) pq by simp
  have i': "integer_ys (q # r # rest)" using integer_ys_Cons2(4)[OF i] pq by simp
  have wl: "w \<le> fst (last (q # r # rest))" using Cons.prems(5) by simp
  show ?case
  proof (cases "v \<le> x1")
    case vin: True
    show ?thesis
    proof (cases "w \<le> x1")
      case True
      show ?thesis using pq lerp_loop_segment_mono[OF s Cons.prems(4) True] by simp
    next
      case False
      then have "fst q \<le> w" using pq by simp
      then have "snd q \<le> lerp_loop w (q # r # rest)"
        using lerp_loop_bounds[OF m i' _ wl] by blast
      moreover have "lerp_loop v ((x0, y0) # (x1, y1) # r # rest) \<le> y1"
        using lerp_loop_segment_bounds(2)[OF s vin i] .
      moreover have "lerp_loop w (p # q # r # rest) = lerp_loop w (q # r # rest)"
        using pq lerp_loop_out[OF False] by simp
      ultimately show ?thesis using pq by simp
    qed
  next
    case False
    then have a: "fst q \<le> v" and b: "\<not> w \<le> x1" using pq Cons.prems(4) by auto
    have "lerp_loop v (q # r # rest) \<le> lerp_loop w (q # r # rest)"
      using Cons.IH[OF m i' a Cons.prems(4) wl] .
    moreover have "lerp_loop v (p # q # r # rest) = lerp_loop v (q # r # rest)"
      using pq lerp_loop_out[OF False] by simp
    moreover have "lerp_loop w (p # q # r # rest) = lerp_loop w (q # r # rest)"
      using pq lerp_loop_out[OF b] by simp
    ultimately show ?thesis by simp
  qed
qed

lemma monotonic_breakpoints_ends:
  "monotonic_breakpoints bps \<Longrightarrow> bps \<noteq> [] \<Longrightarrow>
   fst (hd bps) \<le> fst (last bps) \<and> snd (hd bps) \<le> snd (last bps)"
proof (cases bps)
  case Nil
  assume "bps \<noteq> []" with Nil show ?thesis by simp
next
  case (Cons p ps)
  assume m: "monotonic_breakpoints bps"
  show ?thesis
  proof (cases ps)
    case Nil
    with Cons show ?thesis by simp
  next
    case (Cons q qs)
    have "last bps \<in> set ps" using \<open>bps = p # ps\<close> Cons by auto
    then show ?thesis using m \<open>bps = p # ps\<close>
      by (auto simp: monotonic_breakpoints_def less_imp_le)
  qed
qed

lemma integer_ys_fl: "integer_ys bps \<Longrightarrow> (x, y) \<in> set bps \<Longrightarrow> fl y = y"
proof -
  assume "integer_ys bps" "(x, y) \<in> set bps"
  then have "y = of_int \<lfloor>y\<rfloor>" "\<bar>y\<bar> < 2 ^ 52"
    by (auto simp: integer_ys_def list_all_iff)
  then show ?thesis by (rule fl_exact_int)
qed

lemma piecewise_lerp_integer_ys:
  assumes "integer_ys bps"
  shows "piecewise_lerp v bps =
     (if bps = [] then 0
      else if v \<le> fst (hd bps) then snd (hd bps)
      else if v \<ge> fst (last bps) then snd (last bps)
      else lerp_loop v bps)"
proof (cases "bps = []")
  case True
  then show ?thesis by (simp add: piecewise_lerp_def)
next
  case False
  then have "(fst (hd bps), snd (hd bps)) \<in> set bps" "(fst (last bps), snd (last bps)) \<in> set bps"
    by simp_all
  then have "fl (snd (hd bps)) = snd (hd bps)" "fl (snd (last bps)) = snd (last bps)"
    using integer_ys_fl[OF assms] by blast+
  then show ?thesis by (simp add: piecewise_lerp_def)
qed

lemma piecewise_lerp_monotonic:
  assumes m: "monotonic_breakpoints bps" and i: "integer_ys bps" and vw: "v \<le> w"
  shows "piecewise_lerp v bps \<le> piecewise_lerp w bps"
proof (cases bps)
  case Nil
  then show ?thesis by (simp add: piecewise_lerp_def)
next
  case (Cons p ps)
  then have ne: "bps \<noteq> []" by simp
  note ends = monotonic_breakpoints_ends[OF m ne]
  show ?thesis
  proof (cases ps)
    case Nil
    with Cons show ?thesis unfolding piecewise_lerp_integer_ys[OF i] by simp
  next
    case ps: (Cons q rest)
    have bps: "bps = p # q # rest" using Cons ps by simp
    have m': "monotonic_breakpoints (p # q # rest)" using m bps by simp
    have i': "integer_ys (p # q # rest)" using i bps by simp
    consider (a) "w \<le> fst p" | (b) "fst p < w" "v \<le> fst p" | (c) "fst p < v" "fst (last bps) \<le> v"
      | (d) "fst p < v" "v < fst (last bps)" "fst (last bps) \<le> w"
      | (e) "fst p < v" "w < fst (last bps)"
      using vw by linarith
    then show ?thesis
    proof cases
      case a
      then show ?thesis unfolding piecewise_lerp_integer_ys[OF i] using vw bps by simp
    next
      case b
      show ?thesis
      proof (cases "fst (last bps) \<le> w")
        case True
        then show ?thesis unfolding piecewise_lerp_integer_ys[OF i] using b ends bps by simp
      next
        case False
        then have "snd p \<le> lerp_loop w (p # q # rest)"
          using lerp_loop_bounds[OF m' i', of w] b bps by simp
        then show ?thesis unfolding piecewise_lerp_integer_ys[OF i] using b False bps by simp
      qed
    next
      case c
      then show ?thesis unfolding piecewise_lerp_integer_ys[OF i] using vw bps by simp
    next
      case d
      then have "lerp_loop v (p # q # rest) \<le> snd (last (p # q # rest))"
        using lerp_loop_bounds[OF m' i', of v] bps by simp
      then show ?thesis unfolding piecewise_lerp_integer_ys[OF i] using d bps by simp
    next
      case e
      then have "lerp_loop v (p # q # rest) \<le> lerp_loop w (p # q # rest)"
        using lerp_loop_mono[OF m' i', of v w] vw bps by simp
      then show ?thesis unfolding piecewise_lerp_integer_ys[OF i] using e vw bps by simp
    qed
  qed
qed

lemma sorted_le_last: "sorted xs \<Longrightarrow> (x::real) \<in> set xs \<Longrightarrow> x \<le> last xs"
  by (induction xs) auto

lemma monotonic_breakpoints_fst_inj:
  "monotonic_breakpoints bps \<Longrightarrow> (x, y) \<in> set bps \<Longrightarrow> (x, y') \<in> set bps \<Longrightarrow> y = y'"
proof -
  assume m: "monotonic_breakpoints bps" and a: "(x, y) \<in> set bps" and b: "(x, y') \<in> set bps"
  from m have "sorted_wrt (<) (map fst bps)" by (simp add: monotonic_breakpoints_def)
  then have "distinct (map fst bps)" by (simp add: strict_sorted_iff)
  then have "inj_on fst (set bps)" by (simp add: distinct_map)
  then have "(x, y) = (x, y')" using a b by (intro inj_onD[of fst "set bps"]) simp_all
  then show ?thesis by simp
qed

lemma lerp_loop_exact:
  "monotonic_breakpoints (p # q # rest) \<Longrightarrow> integer_ys (p # q # rest) \<Longrightarrow>
   (x, y) \<in> set (q # rest) \<Longrightarrow> lerp_loop x (p # q # rest) = y"
proof (induction rest arbitrary: p q)
  case Nil
  obtain x0 y0 where p: "p = (x0, y0)" by (cases p)
  from Nil have q: "q = (x, y)" by simp
  from Nil p q have s: "x0 < x" by (simp add: monotonic_breakpoints_def)
  have i: "integer_ys ((x0, y0) # (x, y) # [])" using Nil.prems(2) p q by simp
  show ?case using p q lerp_loop_segment_exact[OF s i] by simp
next
  case (Cons r rest)
  obtain x0 y0 x1 y1 where pq: "p = (x0, y0)" "q = (x1, y1)" by (cases p, cases q) auto
  from Cons.prems pq have s: "x0 < x1"
    and m: "monotonic_breakpoints (q # r # rest)"
    by (auto simp: monotonic_breakpoints_def)
  have i: "integer_ys ((x0, y0) # (x1, y1) # r # rest)" using Cons.prems(2) pq by simp
  have i': "integer_ys (q # r # rest)" using integer_ys_Cons2(4)[OF i] pq by simp
  show ?case
  proof (cases "(x, y) = q")
    case True
    then have "x = x1" "y = y1" using pq by simp_all
    then show ?thesis using pq lerp_loop_segment_exact[OF s i] by simp
  next
    case False
    then have mem: "(x, y) \<in> set (r # rest)" using Cons.prems(3) by simp
    then have "x \<in> set (map fst (r # rest))" by force
    then have "x1 < x" using m pq by (auto simp: monotonic_breakpoints_def)
    then have "\<not> x \<le> x1" by simp
    then have "lerp_loop x (p # q # r # rest) = lerp_loop x (q # r # rest)"
      using pq lerp_loop_out by simp
    then show ?thesis using Cons.IH[OF m i' mem] by simp
  qed
qed

lemma piecewise_lerp_exact:
  assumes m: "monotonic_breakpoints bps" and i: "integer_ys bps" and mem: "(x, y) \<in> set bps"
  shows "piecewise_lerp x bps = y"
proof (cases bps)
  case Nil
  with mem show ?thesis by simp
next
  case (Cons p ps)
  then have ne: "bps \<noteq> []" by simp
  show ?thesis
  proof (cases "x \<le> fst (hd bps)")
    case True
    have "(x, y) = p"
    proof (rule ccontr)
      assume "(x, y) \<noteq> p"
      then have "(x, y) \<in> set ps" using mem Cons by simp
      then have "x \<in> set (map fst ps)" by force
      then have "fst p < x" using m Cons by (auto simp: monotonic_breakpoints_def)
      then show False using True Cons by simp
    qed
    then show ?thesis unfolding piecewise_lerp_integer_ys[OF i] using True Cons by auto
  next
    case False
    show ?thesis
    proof (cases "fst (last bps) \<le> x")
      case True
      have "last bps \<in> set bps" using ne by simp
      moreover have "fst (last bps) \<le> x" by fact
      have "x \<le> fst (last bps)"
      proof -
        from m have "sorted (map fst bps)"
          by (simp add: monotonic_breakpoints_def strict_sorted_iff)
        moreover have "x \<in> set (map fst bps)" using mem by force
        moreover have "last (map fst bps) = fst (last bps)" using ne by (simp add: last_map)
        ultimately show ?thesis using sorted_le_last[of "map fst bps" x] by simp
      qed
      with True have "fst (last bps) = x" by simp
      then have "(x, snd (last bps)) \<in> set bps" using \<open>last bps \<in> set bps\<close>
        by (metis prod.collapse)
      then have "snd (last bps) = y" using monotonic_breakpoints_fst_inj[OF m _ mem] by blast
      then show ?thesis unfolding piecewise_lerp_integer_ys[OF i] using False True ne by simp
    next
      case nl: False
      have "(x, y) \<noteq> p" using False Cons by auto
      then have inps: "(x, y) \<in> set ps" using mem Cons by simp
      then obtain q rest where ps: "ps = q # rest" by (cases ps) auto
      have "lerp_loop x (p # q # rest) = y"
        using lerp_loop_exact[of p q rest x y] m i Cons ps inps by simp
      then show ?thesis unfolding piecewise_lerp_integer_ys[OF i] using False nl Cons ps by simp
    qed
  qed
qed

subsection \<open>The breakpoints \<open>[(0, 0.3), (1, 0.9), (2, 0.9)]\<close>\<close>

lemma fl_evalI:
  assumes "pow2 e \<le> \<bar>x\<bar>" "\<bar>x\<bar> < pow2 (e + 1)"
    and "round_half_even (x / pow2 (e - 52)) = n" and "of_int n * pow2 (e - 52) = r"
  shows "fl x = r"
  using fl_eval[OF assms(1,2)] assms(3,4) by simp

lemma fl_3_10: "fl (3 / 10) = 5404319552844595 / 2 ^ 54"
  by (rule fl_evalI[where e = "- 2" and n = 5404319552844595])
     (simp_all add: pow2_def round_half_even_def Let_def)

lemma fl_9_10: "fl (9 / 10) = 8106479329266893 / 2 ^ 53"
  by (rule fl_evalI[where e = "- 1" and n = 8106479329266893])
     (simp_all add: pow2_def round_half_even_def Let_def)

lemma fl_half: "fl (1 / 2) = 1 / 2"
  by (rule fl_evalI[where e = "- 1" and n = "2 ^ 52"])
     (simp_all add: pow2_def round_half_even_def Let_def)

lemma fl_tenths_diff:
  "fl (8106479329266893 / 2 ^ 53 - 5404319552844595 / 2 ^ 54) = 5404319552844596 / 2 ^ 53"
  by (rule fl_evalI[where e = "- 1" and n = 5404319552844596])
     (simp_all add: pow2_def round_half_even_def Let_def)

lemma fl_tenths_diff_fixed: "fl (5404319552844596 / 2 ^ 53) = 5404319552844596 / 2 ^ 53"
  by (rule fl_evalI[where e = "- 1" and n = 5404319552844596])
     (simp_all add: pow2_def round_half_even_def Let_def)

lemma fl_tenths_sum:
  "fl (5404319552844595 / 2 ^ 54 + 5404319552844596 / 2 ^ 53) = 4053239664633447 / 2 ^ 52"
  by (rule fl_evalI[where e = "- 1" and n = 8106479329266894])
     (simp_all add: pow2_def round_half_even_def Let_def)

lemma fl_9_10_fixed: "fl (8106479329266893 / 2 ^ 53) = 8106479329266893 / 2 ^ 53"
  by (rule fl_evalI[where e = "- 1" and n = 8106479329266893])
     (simp_all add: pow2_def round_half_even_def Let_def)



lemma tenths_at_1: "piecewise_lerp 1 tenths_breakpoints = 4053239664633447 / 2 ^ 52"
proof -
  have "piecewise_lerp 1 tenths_breakpoints
      = fl (fl (3 / 10) + fl (fl (fl (1 - 0) / fl (1 - 0)) * fl (fl (9 / 10) - fl (3 / 10))))"
    by (simp add: piecewise_lerp_def tenths_breakpoints_def Let_def)
  also have "fl (fl (1 - 0) / fl (1 - 0)) = 1" by simp
  also have "fl (1 * fl (fl (9 / 10) - fl (3 / 10))) = 5404319552844596 / 2 ^ 53"
    by (simp only: mult_1 fl_3_10 fl_9_10 fl_tenths_diff fl_tenths_diff_fixed)
  also have "fl (fl (3 / 10) + 5404319552844596 / 2 ^ 53) = 4053239664633447 / 2 ^ 52"
    by (simp only: fl_3_10 fl_tenths_sum)
  finally show ?thesis .
qed

lemma tenths_at_3_2: "piecewise_lerp (3 / 2) tenths_breakpoints = 8106479329266893 / 2 ^ 53"
proof -
  have "piecewise_lerp (3 / 2) tenths_breakpoints
      = fl (fl (9 / 10) + fl (fl (fl (3 / 2 - 1) / fl (2 - 1)) * fl (fl (9 / 10) - fl (9 / 10))))"
    by (simp add: piecewise_lerp_def tenths_breakpoints_def Let_def)
  also have "fl (fl (9 / 10) - fl (9 / 10)) = 0" by simp
  also have "fl (fl (fl (3 / 2 - 1) / fl (2 - 1)) * 0) = 0" by simp
  also have "fl (fl (9 / 10) + 0) = 8106479329266893 / 2 ^ 53"
    by (simp only: add_0_right fl_9_10 fl_9_10_fixed)
  finally show ?thesis .
qed

subsection \<open>The claim\<close>

text \<open>
  Claim C6, amended. For breakpoints with strictly increasing x and non-decreasing y,
  \<open>piecewise_lerp\<close> returns the first (last) breakpoint's y, as a float, for every value
  below the first (above the last) breakpoint; and when the y-coordinates are integers
  below \<open>2^52\<close> in magnitude, it is monotonic non-decreasing in its value argument and
  returns at every breakpoint x exactly that breakpoint's y, in double arithmetic.
\<close>

theorem piecewise_lerp_properties:
  assumes m: "monotonic_breakpoints bps"
  shows "(integer_ys bps \<longrightarrow>
            (\<forall>v w. v \<le> w \<longrightarrow> piecewise_lerp v bps \<le> piecewise_lerp w bps)
          \<and> (\<forall>(x, y) \<in> set bps. piecewise_lerp x bps = y))
       \<and> (bps \<noteq> [] \<longrightarrow>
            (\<forall>v. v < fst (hd bps) \<longrightarrow> piecewise_lerp v bps = fl (snd (hd bps)))
          \<and> (\<forall>v. fst (last bps) < v \<longrightarrow> piecewise_lerp v bps = fl (snd (last bps))))"
proof (intro conjI allI impI ballI)
  fix v w :: real assume "integer_ys bps" "v \<le> w"
  then show "piecewise_lerp v bps \<le> piecewise_lerp w bps"
    using piecewise_lerp_monotonic[OF m] by blast
next
  fix xy assume "integer_ys bps" "xy \<in> set bps"
  then show "case xy of (x, y) \<Rightarrow> piecewise_lerp x bps = y"
    using piecewise_lerp_exact[OF m] by (cases xy) auto
next
  fix v assume "bps \<noteq> []" "v < fst (hd bps)"
  then show "piecewise_lerp v bps = fl (snd (hd bps))" by (simp add: piecewise_lerp_def)
next
  fix v assume ne: "bps \<noteq> []" and v: "fst (last bps) < v"
  have "fst (hd bps) \<le> fst (last bps)" using monotonic_breakpoints_ends[OF m ne] by simp
  then show "piecewise_lerp v bps = fl (snd (last bps))" using ne v by (simp add: piecewise_lerp_def)
qed

theorem piecewise_lerp_properties_witness:
  "monotonic_breakpoints liquidation_curve \<and> integer_ys liquidation_curve
   \<and> (3 / 2 :: real) \<le> 5 / 2
   \<and> piecewise_lerp (3 / 2) liquidation_curve \<le> piecewise_lerp (5 / 2) liquidation_curve
   \<and> (2, 35) \<in> set liquidation_curve \<and> piecewise_lerp 2 liquidation_curve = 35
   \<and> liquidation_curve \<noteq> []
   \<and> (0 :: real) < fst (hd liquidation_curve) \<and> piecewise_lerp 0 liquidation_curve = 0
   \<and> fst (last liquidation_curve) < (20 :: real) \<and> piecewise_lerp 20 liquidation_curve = 100"
proof -
  have m: "monotonic_breakpoints liquidation_curve"
    by (simp add: monotonic_breakpoints_def liquidation_curve_def)
  have i: "integer_ys liquidation_curve"
    by (simp add: integer_ys_def liquidation_curve_def)
  have ne: "liquidation_curve \<noteq> []" by (simp add: liquidation_curve_def)
  have mem: "(2, 35) \<in> set liquidation_curve" by (simp add: liquidation_curve_def)
  have lo: "(0 :: real) < fst (hd liquidation_curve)" by (simp add: liquidation_curve_def)
  have hi: "fst (last liquidation_curve) < (20 :: real)" by (simp add: liquidation_curve_def)
  have h: "fl (snd (hd liquidation_curve)) = 0" by (simp add: liquidation_curve_def)
  have l: "fl (snd (last liquidation_curve)) = 100"
    using fl_of_int[of 100] by (simp add: liquidation_curve_def)
  note p = piecewise_lerp_properties[OF m]
  note pa = p[THEN conjunct1, THEN mp, OF i]
  note pb = p[THEN conjunct2, THEN mp, OF ne]
  have mono: "\<forall>v w. v \<le> w \<longrightarrow> piecewise_lerp v liquidation_curve \<le> piecewise_lerp w liquidation_curve"
    using pa by (rule conjunct1)
  have ex: "\<forall>(x, y) \<in> set liquidation_curve. piecewise_lerp x liquidation_curve = y"
    using pa by (rule conjunct2)
  have vw: "(3 / 2 :: real) \<le> 5 / 2" by simp
  have f1: "piecewise_lerp (3 / 2) liquidation_curve \<le> piecewise_lerp (5 / 2) liquidation_curve"
    using mono vw by blast
  have f2: "piecewise_lerp 2 liquidation_curve = 35" using bspec[OF ex mem] by simp
  have f3: "piecewise_lerp 0 liquidation_curve = 0"
    using pb[THEN conjunct1, rule_format, OF lo] by (simp only: h)
  have f4: "piecewise_lerp 20 liquidation_curve = 100"
    using pb[THEN conjunct2, rule_format, OF hi] by (simp only: l)
  show ?thesis by (intro conjI m i vw f1 mem f2 ne lo f3 hi f4)
qed

text \<open>
  Claim C6 as stated fails for y-coordinates that are not integers. On the breakpoints
  \<open>[(0, 0.3), (1, 0.9), (2, 0.9)]\<close>, which are strictly increasing in x and non-decreasing
  in y, the value 1 falls in the first segment, where \<open>t = 1.0\<close> and
  \<open>0.3 + 1.0 * (0.9 - 0.3)\<close> is \<open>0.9000000000000001\<close>, one unit in the last place above
  the breakpoint's \<open>0.9\<close>; at 1.5 the second segment gives \<open>0.9\<close>, so the result decreases.
\<close>

theorem piecewise_lerp_tenths_counterexample:
  "monotonic_breakpoints tenths_breakpoints
   \<and> (1, fl (9 / 10)) \<in> set tenths_breakpoints
   \<and> fl (9 / 10) = 8106479329266893 / 2 ^ 53
   \<and> piecewise_lerp 1 tenths_breakpoints = 8106479329266894 / 2 ^ 53
   \<and> piecewise_lerp 1 tenths_breakpoints \<noteq> fl (9 / 10)
   \<and> piecewise_lerp (3 / 2) tenths_breakpoints = 8106479329266893 / 2 ^ 53
   \<and> (1 :: real) \<le> 3 / 2
   \<and> piecewise_lerp (3 / 2) tenths_breakpoints < piecewise_lerp 1 tenths_breakpoints"
proof -
  have "monotonic_breakpoints tenths_breakpoints"
    by (simp add: monotonic_breakpoints_def tenths_breakpoints_def fl_3_10 fl_9_10)
  moreover have "(1, fl (9 / 10)) \<in> set tenths_breakpoints"
    by (simp add: tenths_breakpoints_def)
  ultimately show ?thesis by (simp add: tenths_at_1 tenths_at_3_2 fl_9_10)
qed

section \<open>Trade round trip (core/database.py)\<close>

lemma find_filter_neq: "find (\<lambda>t. symbol t = symb) (filter (\<lambda>t. symbol t \<noteq> symb) xs) = None"
  by (induction xs) auto

lemma find_append_if:
  "find P (xs @ ys) = (case find P xs of None \<Rightarrow> find P ys | Some x \<Rightarrow> Some x)"
  by (induction xs) auto

lemma get_active_trade_add_trade:
  "get_active_trade (fst (add_trade db now symb ep ps sl)) symb =
     Some \<lparr>symbol = symb, entry_price = ep, position_size_usd = ps, stop_loss_pct = sl,
            current_stop_price = ep * (1 - sl / 100), entry_timestamp = now,
            tp1_hit = 0, tp2_hit = 0, tp3_hit = 0, tp4_hit = 0,
            remaining_fraction = 1, realized_pnl = 0, last_notified_stop_pct = 0,
            last_score = 0, metadata = Map.empty\<rparr>"
  by (simp add: get_active_trade_def add_trade_def Let_def find_append_if find_filter_neq)

lemma close_trade_effect:
  assumes "get_active_trade db symb = Some t" "entry_price t \<noteq> 0"
  shows "get_active_trade (database_after (close_trade db now symb exit_price reason)) symb = None"
    and "\<exists>row. trade_history (database_after (close_trade db now symb exit_price reason)) = trade_history db @ [row]
           \<and> th_realized_pnl row = realized_pnl t + remaining_fraction t * position_size_usd t * (exit_price - entry_price t) / entry_price t"
    and "active_trades (database_after (close_trade db now symb exit_price reason)) = filter (\<lambda>t. symbol t \<noteq> symb) (active_trades db)"
  using assms by (auto simp: close_trade_def Let_def get_active_trade_def find_filter_neq)

text \<open>
  Claim C8, amended. \<open>add_trade\<close> followed by \<open>get_active_trade\<close> of the same symbol
  returns a trade with the entry price, position size and stop percentage given, and
  \<open>current_stop_price = entry_price * (1 - stop_loss_pct / 100)\<close>. \<open>close_trade\<close> on
  an active trade whose entry price is not zero removes the symbol from the active
  trades and appends exactly one history row, whose profit is
  \<open>realized_pnl + remaining_fraction * position_size_usd * (exit - entry) / entry\<close>; the
  returned \<open>total_pnl\<close> is the same number.
\<close>

theorem trade_round_trip:
  "(\<exists>t. get_active_trade (fst (add_trade db now symb ep ps sl)) symb = Some t
        \<and> entry_price t = ep \<and> position_size_usd t = ps \<and> stop_loss_pct t = sl
        \<and> current_stop_price t = ep * (1 - sl / 100))
   \<and> (\<forall>t. get_active_trade db symb = Some t \<and> entry_price t \<noteq> 0 \<longrightarrow>
          get_active_trade (database_after (close_trade db now symb exit_price reason)) symb = None
        \<and> active_trades (database_after (close_trade db now symb exit_price reason))
            = filter (\<lambda>t. symbol t \<noteq> symb) (active_trades db)
        \<and> (\<exists>row. trade_history (database_after (close_trade db now symb exit_price reason))
                     = trade_history db @ [row]
               \<and> th_realized_pnl row
                    = realized_pnl t + remaining_fraction t * position_size_usd t
                                        * (exit_price - entry_price t) / entry_price t)
        \<and> (\<forall>db' r. close_trade db now symb exit_price reason = Inr (db', Some r) \<longrightarrow>
               cr_total_pnl r = realized_pnl t + remaining_fraction t * position_size_usd t
                                        * (exit_price - entry_price t) / entry_price t))"
proof (intro conjI allI impI)
  show "\<exists>t. get_active_trade (fst (add_trade db now symb ep ps sl)) symb = Some t
        \<and> entry_price t = ep \<and> position_size_usd t = ps \<and> stop_loss_pct t = sl
        \<and> current_stop_price t = ep * (1 - sl / 100)"
    by (simp add: get_active_trade_add_trade)
next
  fix t assume a: "get_active_trade db symb = Some t \<and> entry_price t \<noteq> 0"
  then show "get_active_trade (database_after (close_trade db now symb exit_price reason)) symb = None"
    using close_trade_effect(1) by blast
  from a show "active_trades (database_after (close_trade db now symb exit_price reason))
            = filter (\<lambda>t. symbol t \<noteq> symb) (active_trades db)"
    using close_trade_effect(3) by blast
  from a show "\<exists>row. trade_history (database_after (close_trade db now symb exit_price reason))
                     = trade_history db @ [row]
               \<and> th_realized_pnl row
                    = realized_pnl t + remaining_fraction t * position_size_usd t
                                        * (exit_price - entry_price t) / entry_price t"
    using close_trade_effect(2) by blast
  fix db' r assume "close_trade db now symb exit_price reason = Inr (db', Some r)"
  with a show "cr_total_pnl r = realized_pnl t + remaining_fraction t * position_size_usd t
                                        * (exit_price - entry_price t) / entry_price t"
    by (auto simp: close_trade_def Let_def split: if_splits)
qed

theorem trade_round_trip_witness:
  "get_active_trade (fst (add_trade empty_database 0 ''DOGE'' 100 10000 7)) ''DOGE'' \<noteq> None
   \<and> current_stop_price (the (get_active_trade (fst (add_trade empty_database 0 ''DOGE'' 100 10000 7)) ''DOGE'')) = 93
   \<and> trade_history (database_after (close_trade (fst (add_trade empty_database 0 ''DOGE'' 100 10000 7)) 3600 ''DOGE'' 110 ''manual_close'')) \<noteq> []
   \<and> th_realized_pnl (last (trade_history (database_after (close_trade (fst (add_trade empty_database 0 ''DOGE'' 100 10000 7)) 3600 ''DOGE'' 110 ''manual_close'')))) = 1000"
  using trade_round_trip[where db = "fst (add_trade empty_database 0 ''DOGE'' 100 10000 7)"
          and symb = "''DOGE''" and now = 3600 and exit_price = 110 and reason = "''manual_close''"]
        trade_round_trip[where db = empty_database and symb = "''DOGE''" and now = 0
          and ep = 100 and ps = 10000 and sl = 7]
  by (auto simp: get_active_trade_add_trade)

text \<open>
  Claim C8 as stated fails for an active trade with entry price zero: \<open>close_trade\<close>
  raises on the division by the entry price, the trade stays active and no history row
  is written.
\<close>

theorem close_trade_zero_entry_counterexample:
  "close_trade (fst (add_trade empty_database 0 ''DOGE'' 0 10000 7)) 3600 ''DOGE'' 1 ''manual_close''
     = Inl (ZeroDivisionError, fst (add_trade empty_database 0 ''DOGE'' 0 10000 7))
   \<and> get_active_trade (fst (add_trade empty_database 0 ''DOGE'' 0 10000 7)) ''DOGE'' \<noteq> None
   \<and> trade_history (fst (add_trade empty_database 0 ''DOGE'' 0 10000 7)) = []"
  by (simp add: close_trade_def get_active_trade_add_trade) (simp add: add_trade_def empty_database_def)

section \<open>Composite score and classification (core/scorer.py)\<close>

lemma spec_base_mono:
  "(\<And>n. signal_ns s n \<le> signal_ns s' n) \<Longrightarrow> spec_base s \<le> spec_base s'"
  unfolding spec_base_def
  by (intro add_mono mult_left_mono) simp_all

lemma spec_bonus_sum_mono:
  "(\<And>n. f n \<le> g n) \<Longrightarrow> spec_bonus_sum f \<le> spec_bonus_sum g"
proof -
  assume le: "\<And>n. f n \<le> g n"
  have a: "\<And>n c. c \<le> f n \<Longrightarrow> c \<le> g n" using le order_trans by blast
  show ?thesis unfolding spec_bonus_sum_def
    by (intro add_mono) (auto dest: a)
qed

lemma spec_bonus_sum_nonneg: "0 \<le> spec_bonus_sum f"
  by (simp add: spec_bonus_sum_def)

lemma spec_penalty_sum_lt_1: "0 < 1 - spec_penalty_sum p"
  by (simp add: spec_penalty_sum_def)

lemma clamp_mono: "x \<le> y \<Longrightarrow> clamp x lo hi \<le> clamp y lo hi"
  by (auto simp: clamp_def)

lemma clamp_product_mono:
  assumes "base \<le> base'" "0 \<le> b" "b \<le> b'" "0 < q"
  shows "clamp (base * (1 + b) * q) 0 100 \<le> clamp (base' * (1 + b') * (q::real)) 0 100"
proof (cases "0 \<le> base'")
  case True
  have "base * (1 + b) \<le> base' * (1 + b)" using assms by (simp add: mult_right_mono)
  also have "\<dots> \<le> base' * (1 + b')" using True assms by (simp add: mult_left_mono)
  finally have "base * (1 + b) * q \<le> base' * (1 + b') * q" using assms by (simp add: mult_right_mono)
  then show ?thesis by (rule clamp_mono)
next
  case False
  then have n': "base' < 0" by simp
  then have n: "base < 0" using assms by simp
  have "base * ((1 + b) * q) < 0" using n assms by (intro mult_neg_pos) simp_all
  moreover have "base' * ((1 + b') * q) < 0" using n' assms by (intro mult_neg_pos) simp_all
  ultimately show ?thesis by (simp add: clamp_def mult.assoc)
qed

lemma score_final_eq:
  "score_final signals p =
     clamp (spec_base signals * (1 + spec_bonus_sum (\<lambda>n. py_round 1 (signal_ns signals n)))
              * (1 - spec_penalty_sum p)) 0 100"
  by (simp add: score_final_def score_base_eq score_bonus_mult_eq score_penalty_mult_eq)

lemma score_final_mono:
  assumes "\<And>n. signal_ns s n \<le> signal_ns s' n"
  shows "score_final s p \<le> score_final s' p"
  unfolding score_final_eq
  by (intro clamp_product_mono spec_base_mono spec_bonus_sum_mono spec_bonus_sum_nonneg
        spec_penalty_sum_lt_1 py_round_mono assms)

lemma score_composite_score:
  "composite_score (snd (score db now symb signals p)) = py_round 1 (score_final signals p)"
  by (simp add: score_def Let_def score_final_def)

lemma score_classification:
  "classification (snd (score db now symb signals p)) = classify_score (score_final signals p)"
  by (simp add: score_def Let_def score_final_def)

lemma score_history_score:
  "score_history (fst (score db now symb signals p)) =
     score_history db @ [\<lparr>sr_timestamp = now, sr_symbol = symb,
        sr_composite_score = score_final signals p,
        sr_classification = classify_score (score_final signals p),
        sr_signal_scores = score_signal_scores signals,
        sr_bonuses_applied = score_bonuses (score_signal_scores signals),
        sr_penalties_applied = score_penalties p\<rparr>]"
  by (simp add: score_def Let_def score_final_def store_score_def)

lemma classify_score_spec: "classify_score s = spec_classification s"
  by (simp add: classify_score_def spec_classification_def CRITICAL_THRESHOLD_def
      HIGH_ALERT_THRESHOLD_def WATCHLIST_THRESHOLD_def MONITOR_THRESHOLD_def)

text \<open>
  Claim C1, amended. The composite score that \<open>Scorer.score\<close> returns is
  \<open>clamp(base * (1 + bonus_sum) * (1 - penalty_sum), 0, 100)\<close> rounded to one decimal,
  where \<open>base\<close> is the weight-weighted sum of the signal scores, \<open>bonus_sum\<close> adds each
  interaction bonus whose listed signals all meet its minimum after rounding to one
  decimal, and \<open>penalty_sum\<close> is 0.40 exactly when \<open>price_change_7d\<close> exceeds 15. The
  composite score is monotonic non-decreasing in any single signal's normalized score,
  the other signals and \<open>price_change_7d\<close> held fixed.
\<close>

theorem score_composite_formula:
  "composite_score (snd (score db now symb signals p7d))
     = py_round 1 (clamp (spec_base signals
                            * (1 + spec_bonus_sum (\<lambda>n. py_round 1 (signal_ns signals n)))
                            * (1 - spec_penalty_sum p7d)) 0 100)
   \<and> (\<forall>name s v. signals name = Some s \<and> normalized_score s \<le> v \<longrightarrow>
         composite_score (snd (score db now symb signals p7d))
           \<le> composite_score (snd (score db now symb (signals(name \<mapsto> s\<lparr>normalized_score := v\<rparr>)) p7d)))"
proof (intro conjI allI impI)
  show "composite_score (snd (score db now symb signals p7d))
     = py_round 1 (clamp (spec_base signals
                            * (1 + spec_bonus_sum (\<lambda>n. py_round 1 (signal_ns signals n)))
                            * (1 - spec_penalty_sum p7d)) 0 100)"
    by (simp only: score_composite_score score_final_eq)
next
  fix name s v
  assume a: "signals name = Some s \<and> normalized_score s \<le> v"
  have "\<And>n. signal_ns signals n \<le> signal_ns (signals(name \<mapsto> s\<lparr>normalized_score := v\<rparr>)) n"
    using a by (simp add: signal_ns_def)
  then have "score_final signals p7d \<le> score_final (signals(name \<mapsto> s\<lparr>normalized_score := v\<rparr>)) p7d"
    by (rule score_final_mono)
  then show "composite_score (snd (score db now symb signals p7d))
           \<le> composite_score (snd (score db now symb (signals(name \<mapsto> s\<lparr>normalized_score := v\<rparr>)) p7d))"
    by (simp only: score_composite_score py_round_mono)
qed

lemma uniform_signals_ns:
  "signal_ns (uniform_signals v) ''oi_surge'' = v"
  "signal_ns (uniform_signals v) ''funding_rate'' = v"
  "signal_ns (uniform_signals v) ''liquidation_leverage'' = v"
  "signal_ns (uniform_signals v) ''cross_exchange_volume'' = v"
  "signal_ns (uniform_signals v) ''depth_imbalance'' = v"
  "signal_ns (uniform_signals v) ''volume_price_decouple'' = v"
  "signal_ns (uniform_signals v) ''volatility_compression'' = v"
  "signal_ns (uniform_signals v) ''long_short_ratio'' = v"
  "signal_ns (uniform_signals v) ''futures_spot_divergence'' = v"
  by (simp_all add: signal_ns_def uniform_signals_def SIGNAL_WEIGHTS_def)

lemma spec_base_uniform: "spec_base (uniform_signals v) = v"
  by (simp add: spec_base_def uniform_signals_ns)

lemma spec_bonus_uniform_low: "r < 40 \<Longrightarrow> spec_bonus_sum (\<lambda>n. r) = 0"
  by (simp add: spec_bonus_sum_def)

lemma score_final_uniform_3333: "score_final (uniform_signals (3333 / 100)) 0 = 3333 / 100"
  by (simp add: score_final_eq spec_base_uniform spec_bonus_sum_def uniform_signals_ns
      spec_penalty_sum_def clamp_def py_round_def round_half_even_def Let_def)

lemma score_final_uniform_3297: "score_final (uniform_signals (3297 / 100)) 0 = 3297 / 100"
  by (simp add: score_final_eq spec_base_uniform spec_bonus_sum_def uniform_signals_ns
      spec_penalty_sum_def clamp_def py_round_def round_half_even_def Let_def)

lemma spec_composite_uniform_3333: "spec_composite (uniform_signals (3333 / 100)) 0 = 3333 / 100"
  by (simp add: spec_composite_def spec_base_uniform spec_bonus_sum_def uniform_signals_ns
      spec_penalty_sum_def clamp_def)

theorem score_composite_formula_witness:
  "uniform_signals 40 ''funding_rate'' = Some \<lparr>raw_value = 0, normalized_score = 40, sig_metadata = []\<rparr>
   \<and> normalized_score \<lparr>raw_value = 0, normalized_score = 40, sig_metadata = []\<rparr> \<le> (50::real)
   \<and> composite_score (snd (score empty_database 0 ''DOGE'' (uniform_signals 40) 0))
       \<le> composite_score (snd (score empty_database 0 ''DOGE''
            ((uniform_signals 40)(''funding_rate'' \<mapsto> \<lparr>raw_value = 0, normalized_score = 50, sig_metadata = []\<rparr>)) 0))"
proof -
  have h: "uniform_signals 40 ''funding_rate'' = Some \<lparr>raw_value = 0, normalized_score = 40, sig_metadata = []\<rparr>"
    by (simp add: uniform_signals_def SIGNAL_WEIGHTS_def)
  have l: "normalized_score \<lparr>raw_value = 0, normalized_score = 40, sig_metadata = []\<rparr> \<le> (50::real)"
    by simp
  from score_composite_formula[of empty_database 0 "''DOGE''" "uniform_signals 40" 0] h l
  have "composite_score (snd (score empty_database 0 ''DOGE'' (uniform_signals 40) 0))
       \<le> composite_score (snd (score empty_database 0 ''DOGE''
            ((uniform_signals 40)(''funding_rate'' \<mapsto>
                \<lparr>raw_value = 0, normalized_score = 40, sig_metadata = []\<rparr>\<lparr>normalized_score := 50\<rparr>)) 0))"
    by blast
  then show ?thesis using h l by simp
qed

text \<open>
  Claim C1 as stated fails: with every signal at 33.33 the unrounded formula gives 33.33
  and the returned composite score is 33.3.
\<close>

theorem score_composite_rounding_counterexample:
  "composite_score (snd (score empty_database 0 ''DOGE'' (uniform_signals (3333 / 100)) 0))
     \<noteq> spec_composite (uniform_signals (3333 / 100)) 0"
  by (simp add: score_composite_score score_final_uniform_3333 spec_composite_uniform_3333
      py_round_def round_half_even_def Let_def)

text \<open>
  Claim C2, amended. The classification that \<open>Scorer.score\<close> returns is the threshold
  function, with the exact boundaries 78, 62, 48 and 33, of the unrounded final score;
  that score and this classification are what the score-history row holds, and the
  returned \<open>composite_score\<close> is the final score rounded to one decimal.
\<close>

theorem score_classification_threshold:
  "classification (snd (score db now symb signals p7d)) = spec_classification (score_final signals p7d)
   \<and> composite_score (snd (score db now symb signals p7d)) = py_round 1 (score_final signals p7d)
   \<and> sr_composite_score (last (score_history (fst (score db now symb signals p7d)))) = score_final signals p7d
   \<and> sr_classification (last (score_history (fst (score db now symb signals p7d))))
       = spec_classification (score_final signals p7d)"
  by (simp add: score_classification score_composite_score score_history_score classify_score_spec)

text \<open>
  Claim C2 as stated fails: with every signal at 32.97 the returned composite score is
  33.0, whose threshold class is MONITOR, and the returned classification is NONE.
\<close>

theorem score_classification_rounded_counterexample:
  "classification (snd (score empty_database 0 ''DOGE'' (uniform_signals (3297 / 100)) 0))
     \<noteq> spec_classification (composite_score (snd (score empty_database 0 ''DOGE'' (uniform_signals (3297 / 100)) 0)))"
  by (simp add: score_classification score_composite_score score_final_uniform_3297 classify_score_spec
      spec_classification_def py_round_def round_half_even_def Let_def)

section \<open>Event detection on the first scan (core/scorer.py)\<close>

lemma get_previous_score_short:
  "length (filter (\<lambda>r. sr_symbol r = symb) (score_history db)) < 2 \<Longrightarrow> get_previous_score db symb = None"
  by (simp add: get_previous_score_def score_rows_desc_def Let_def)

lemma detect_events_no_previous:
  "get_previous_score db symb = None \<Longrightarrow> detect_events db now symb cur price = []"
  by (simp add: detect_events_def)

text \<open>
  Claim C10. When the score history holds no row of the symbol, \<open>detect_events\<close>
  returns the empty list, both on that database and on the one left by the first
  \<open>score\<close> call of the symbol (which has stored the current row only): no SCORE_JUMP,
  UPGRADE or IGNITION event on the first scored scan, whatever the price history and the
  current composite score.
\<close>

theorem detect_events_first_scan:
  assumes "\<forall>r \<in> set (score_history db). sr_symbol r \<noteq> symb"
  shows "detect_events db now symb cur price = []
       \<and> detect_events (fst (score db t symb signals p7d)) now symb
            (snd (score db t symb signals p7d)) price = []"
proof -
  from assms have e: "filter (\<lambda>r. sr_symbol r = symb) (score_history db) = []"
    by (simp add: filter_empty_conv)
  then have "get_previous_score db symb = None"
    by (simp add: get_previous_score_short)
  moreover have "length (filter (\<lambda>r. sr_symbol r = symb) (score_history (fst (score db t symb signals p7d)))) < 2"
    using e by (simp add: score_history_score)
  then have "get_previous_score (fst (score db t symb signals p7d)) symb = None"
    by (rule get_previous_score_short)
  ultimately show ?thesis by (simp add: detect_events_no_previous)
qed


lemma score_final_uniform_60: "score_final (uniform_signals 60) 0 = 100"
  by (simp add: score_final_eq spec_base_uniform spec_bonus_sum_def uniform_signals_ns
      spec_penalty_sum_def clamp_def py_round_def round_half_even_def Let_def)

lemma snapshots_score: "snapshots (fst (score db t symb signals p7d)) = snapshots db"
  by (simp add: score_def Let_def store_score_def)

theorem detect_events_first_scan_witness:
  "score_history ticker_only_database = []
   \<and> composite_score (snd (score ticker_only_database 3600 ''DOGE'' (uniform_signals 60) 0)) \<ge> 48
   \<and> ignition_scan ''DOGE'' 110
        (composite_score (snd (score ticker_only_database 3600 ''DOGE'' (uniform_signals 60) 0)))
        (get_snapshots (fst (score ticker_only_database 3600 ''DOGE'' (uniform_signals 60) 0))
           3600 ''DOGE'' ''ticker'' 6) \<noteq> []
   \<and> detect_events (fst (score ticker_only_database 3600 ''DOGE'' (uniform_signals 60) 0)) 3600 ''DOGE''
        (snd (score ticker_only_database 3600 ''DOGE'' (uniform_signals 60) 0)) 110 = []"
proof -
  have h: "\<forall>r \<in> set (score_history ticker_only_database). sr_symbol r \<noteq> ''DOGE''"
    by (simp add: ticker_only_database_def empty_database_def)
  have cs: "composite_score (snd (score ticker_only_database 3600 ''DOGE'' (uniform_signals 60) 0)) = 100"
    by (simp add: score_composite_score score_final_uniform_60)
  have snaps: "get_snapshots (fst (score ticker_only_database 3600 ''DOGE'' (uniform_signals 60) 0))
           3600 ''DOGE'' ''ticker'' 6 = snapshots ticker_only_database"
    by (simp add: get_snapshots_def snapshots_score ticker_only_database_def empty_database_def)
  have ign: "ignition_scan ''DOGE'' 110 100 (snapshots ticker_only_database) \<noteq> []"
    by (simp add: ticker_only_database_def empty_database_def)
  from detect_events_first_scan[OF h]
  have "detect_events (fst (score ticker_only_database 3600 ''DOGE'' (uniform_signals 60) 0)) 3600 ''DOGE''
        (snd (score ticker_only_database 3600 ''DOGE'' (uniform_signals 60) 0)) 110 = []"
    by blast
  moreover have "score_history ticker_only_database = []"
    by (simp add: ticker_only_database_def empty_database_def)
  ultimately show ?thesis using cs snaps ign by simp
qed

section \<open>Trade monitor: the row of a symbol through a tick\<close>

lemma symbol_apply_update [simp]: "symbol (apply_update t u) = symbol t"
  by (cases u) auto

lemma symbol_foldl_apply_update [simp]: "symbol (foldl apply_update t us) = symbol t"
  by (induction us arbitrary: t) auto

lemma find_map_symbol:
  "(\<And>t. symbol (f t) = symbol t) \<Longrightarrow>
   find (\<lambda>t. symbol t = symb) (map (\<lambda>t. if symbol t = symb then f t else t) xs)
     = map_option f (find (\<lambda>t. symbol t = symb) xs)"
  by (induction xs) auto

lemma get_active_trade_update_trade:
  "get_active_trade (update_trade db symb ups) symb
     = map_option (\<lambda>t. foldl apply_update t ups) (get_active_trade db symb)"
proof (cases "ups = []")
  case True
  then show ?thesis by (simp add: update_trade_def option.map_ident)
next
  case False
  then show ?thesis
    by (simp add: update_trade_def get_active_trade_def find_map_symbol)
qed

lemma get_active_trade_symbol: "get_active_trade db symb = Some t \<Longrightarrow> symbol t = symb"
  by (auto simp: get_active_trade_def find_Some_iff)

lemma take_profits_trade_fixed:
  "last_notified_stop_pct (ts_trade (take_profits hs t0 cp pcp tps st)) = last_notified_stop_pct (ts_trade st)
   \<and> entry_timestamp (ts_trade (take_profits hs t0 cp pcp tps st)) = entry_timestamp (ts_trade st)
   \<and> last_score (ts_trade (take_profits hs t0 cp pcp tps st)) = last_score (ts_trade st)
   \<and> metadata (ts_trade (take_profits hs t0 cp pcp tps st)) = metadata (ts_trade st)"
proof (induction tps arbitrary: st)
  case Nil
  show ?case by simp
next
  case (Cons tp tps)
  show ?case
  proof (cases "pct tp")
    case None
    then show ?thesis using Cons.IH[of st] by simp
  next
    case (Some tpct)
    show ?thesis
    proof (cases "get_tp_hit (level tp) (ts_trade st) = 0 \<and> tpct \<le> pcp")
      case False
      then show ?thesis using Some Cons.IH[of st] by auto
    next
      case True
      then show ?thesis using Some
        by (simp add: Cons.IH)
    qed
  qed
qed

lemma tp_rel_refl: "tp_rel t0 r r"
  by (simp add: tp_rel_def)

lemma tp_rel_trans: "tp_rel t0 r r' \<Longrightarrow> tp_rel t0 r' r'' \<Longrightarrow> tp_rel t0 r r''"
  unfolding tp_rel_def by (elim conjE, intro conjI) (simp_all, (metis)+)

lemma rel_option_trans:
  "(\<And>a b c. R a b \<Longrightarrow> R b c \<Longrightarrow> R a c) \<Longrightarrow> rel_option R x y \<Longrightarrow> rel_option R y z \<Longrightarrow> rel_option R x z"
  by (cases x; cases y; cases z) auto

lemma tp_rel_fire:
  "sell_fraction tp = 25 / 100 \<Longrightarrow>
   tp_rel t0 r (foldl apply_update r
       [Set_tp_hit (level tp) 1,
        Set_remaining_fraction (max 0 (remaining_fraction t0 - sell_fraction tp)),
        Set_realized_pnl x])"
proof -
  assume sf: "sell_fraction tp = 25 / 100"
  show ?thesis unfolding tp_rel_def sf by simp
qed

lemma take_profits_row:
  assumes "\<forall>tp \<in> set tps. sell_fraction tp = 25 / 100"
  shows "rel_option (tp_rel t0)
           (get_active_trade (ts_db st) (symbol t0))
           (get_active_trade (ts_db (take_profits hs t0 cp pcp tps st)) (symbol t0))"
  using assms
proof (induction tps arbitrary: st)
  case Nil
  show ?case by (simp add: option.rel_refl tp_rel_refl)
next
  case (Cons tp tps)
  then have sf: "sell_fraction tp = 25 / 100" and rest: "\<forall>tp \<in> set tps. sell_fraction tp = 25 / 100"
    by simp_all
  note IH = Cons.IH[OF rest]
  show ?case
  proof (cases "pct tp")
    case None
    then show ?thesis using IH[of st] by simp
  next
    case (Some tpct)
    show ?thesis
    proof (cases "get_tp_hit (level tp) (ts_trade st) = 0 \<and> tpct \<le> pcp")
      case False
      then show ?thesis using Some IH[of st] by auto
    next
      case True
      let ?ups = "[Set_tp_hit (level tp) 1,
                   Set_remaining_fraction (max 0 (remaining_fraction t0 - sell_fraction tp)),
                   Set_realized_pnl (realized_pnl (ts_trade st)
                      + sell_fraction tp * position_size_usd t0 * (pcp / 100))]"
      let ?st1 = "\<lparr>ts_db = update_trade (ts_db st) (symbol t0) ?ups,
                  ts_trade = foldl apply_update (ts_trade st)
                            [Set_tp_hit (level tp) 1,
                             Set_remaining_fraction (remaining_fraction t0 - sell_fraction tp),
                             Set_realized_pnl (realized_pnl (ts_trade st)
                                + sell_fraction tp * position_size_usd t0 * (pcp / 100))],
                  ts_alerts = ts_alerts st @
                            notify hs (Tp_hit (symbol t0) (level tp) tpct cp (entry_price t0)
                                        (sell_fraction tp * position_size_usd t0 * (pcp / 100))
                                        ((remaining_fraction t0 - sell_fraction tp) * 100))\<rparr>"
      have eq: "take_profits hs t0 cp pcp (tp # tps) st = take_profits hs t0 cp pcp tps ?st1"
        using True Some by simp
      have "get_active_trade (ts_db ?st1) (symbol t0)
              = map_option (\<lambda>t. foldl apply_update t ?ups) (get_active_trade (ts_db st) (symbol t0))"
        by (simp only: tick_state.simps get_active_trade_update_trade)
      then have first: "rel_option (tp_rel t0) (get_active_trade (ts_db st) (symbol t0))
                   (get_active_trade (ts_db ?st1) (symbol t0))"
        using tp_rel_fire[OF sf, of t0]
        by (cases "get_active_trade (ts_db st) (symbol t0)") simp_all
      show ?thesis
        unfolding eq
        by (rule rel_option_trans[OF tp_rel_trans first IH[of ?st1]])
    qed
  qed
qed

lemma trail_scan_result:
  "trail_scan ep pcp trs (nsp, ssp) = (nsp', ssp') \<Longrightarrow>
     (nsp' = nsp \<and> ssp' = ssp)
   \<or> (nsp < nsp' \<and> ssp' = ep * (1 + nsp' / 100)
        \<and> (\<exists>tr \<in> set trs. price_move_pct tr \<le> pcp \<and> stop_at_pct tr = nsp'))"
proof (induction trs arbitrary: nsp ssp)
  case Nil
  then show ?case by simp
next
  case (Cons tr trs)
  show ?case
  proof (cases "pcp \<ge> price_move_pct tr \<and> stop_at_pct tr > nsp")
    case True
    then have "trail_scan ep pcp trs (stop_at_pct tr, ep * (1 + stop_at_pct tr / 100)) = (nsp', ssp')"
      using Cons.prems by simp
    from Cons.IH[OF this] True show ?thesis by auto
  next
    case False
    then have "trail_scan ep pcp trs (nsp, ssp) = (nsp', ssp')"
      using Cons.prems by auto
    from Cons.IH[OF this] show ?thesis by auto
  qed
qed

lemma trail_fired_move:
  "tr \<in> set STOP_LOSS_TRAIL \<Longrightarrow> 0 < stop_at_pct tr \<Longrightarrow> 10 \<le> price_move_pct tr"
  by (auto simp: STOP_LOSS_TRAIL_def)

lemma row_stop_trail:
  "get_active_trade (ts_db (stop_trail hs t0 cp pcp st)) (symbol t0)
     = (let (nsp, ssp) = trail_scan (entry_price t0) pcp STOP_LOSS_TRAIL
                           (last_notified_stop_pct (ts_trade st), current_stop_price t0)
        in if nsp > last_notified_stop_pct (ts_trade st)
           then map_option (\<lambda>t. t\<lparr>current_stop_price := ssp, last_notified_stop_pct := nsp\<rparr>)
                  (get_active_trade (ts_db st) (symbol t0))
           else get_active_trade (ts_db st) (symbol t0))"
  by (simp add: stop_trail_def get_active_trade_update_trade split: prod.splits)

lemma row_signal_degradation:
  "get_active_trade (ts_db (signal_degradation hs t0 cp pcp st)) (symbol t0)
     = (case get_latest_score (ts_db st) (symbol t0) of
          None \<Rightarrow> get_active_trade (ts_db st) (symbol t0)
        | Some latest \<Rightarrow> map_option (\<lambda>t. t\<lparr>last_score := sr_composite_score latest\<rparr>)
                           (get_active_trade (ts_db st) (symbol t0)))"
  by (simp add: signal_degradation_def Let_def get_active_trade_update_trade split: option.splits)

lemma row_hourly_status:
  "get_active_trade (ts_db (hourly_status hs t0 now cp pcp st)) (symbol t0)
     = (let ch = py_int ((now - entry_timestamp (ts_trade st)) / 3600);
            meta = metadata (ts_trade st)
        in if ch > (case meta ''last_status_hour'' of None \<Rightarrow> - 1 | Some v \<Rightarrow> v) \<and> ch > 0
           then map_option (\<lambda>t. t\<lparr>metadata := meta(''last_status_hour'' \<mapsto> ch)\<rparr>)
                  (get_active_trade (ts_db st) (symbol t0))
           else get_active_trade (ts_db st) (symbol t0))"
  by (simp add: hourly_status_def Let_def get_active_trade_update_trade)

lemma ts_trade_stop_trail [simp]: "ts_trade (stop_trail hs t0 cp pcp st) = ts_trade st"
  by (simp add: stop_trail_def split: prod.splits)

lemma ts_trade_signal_degradation [simp]: "ts_trade (signal_degradation hs t0 cp pcp st) = ts_trade st"
  by (simp add: signal_degradation_def Let_def split: option.splits)

lemma row_tail_phases:
  "rel_option same_core
     (get_active_trade (ts_db st) (symbol t0))
     (get_active_trade (ts_db (hourly_status hs t0 now cp pcp (signal_degradation hs t0 cp pcp st))) (symbol t0))"
  by (cases "get_active_trade (ts_db st) (symbol t0)")
     (auto simp: row_hourly_status row_signal_degradation Let_def same_core_def split: option.splits)

lemma trade_inv_entry_pos:
  assumes inv: "trade_inv t0" and ne: "entry_price t0 \<noteq> 0"
    and above: "current_stop_price t0 < cp"
    and move: "10 \<le> ((cp - entry_price t0) / entry_price t0) * 100"
  shows "0 < entry_price t0"
proof (rule ccontr)
  assume "\<not> 0 < entry_price t0"
  with ne have neg: "entry_price t0 < 0" by simp
  with inv have ln: "last_notified_stop_pct t0 = 0"
    by (auto simp: trade_inv_def split: if_splits)
  with inv have cs: "current_stop_price t0 = entry_price t0 * (1 - stop_loss_pct t0 / 100)"
    and sl: "0 \<le> stop_loss_pct t0"
    by (auto simp: trade_inv_def)
  have "entry_price t0 * (stop_loss_pct t0 / 100) \<le> 0"
    using neg sl by (simp add: mult_nonpos_nonneg)
  then have "entry_price t0 \<le> current_stop_price t0"
    unfolding cs by (simp add: algebra_simps)
  with above have "0 < cp - entry_price t0" by simp
  then have "(cp - entry_price t0) / entry_price t0 < 0"
    using neg by (simp add: divide_pos_neg)
  then have "((cp - entry_price t0) / entry_price t0) * 100 < 0"
    by (simp only: mult_less_0_iff) simp
  then show False using move by linarith
qed

lemma trade_inv_stop_raise:
  assumes inv: "trade_inv t0" and pos: "0 < entry_price t0"
    and up: "last_notified_stop_pct t0 < nsp"
  shows "current_stop_price t0 \<le> entry_price t0 * (1 + nsp / 100)"
proof (cases "last_notified_stop_pct t0 = 0")
  case True
  with inv have cs: "current_stop_price t0 = entry_price t0 * (1 - stop_loss_pct t0 / 100)"
    and sl: "0 \<le> stop_loss_pct t0"
    by (auto simp: trade_inv_def)
  have "1 - stop_loss_pct t0 / 100 \<le> 1 + nsp / 100" using sl up True by simp
  then show ?thesis unfolding cs using pos by (simp only: mult_le_cancel_left_pos)
next
  case False
  with inv have cs: "current_stop_price t0 = entry_price t0 * (1 + last_notified_stop_pct t0 / 100)"
    by (auto simp: trade_inv_def)
  have "1 + last_notified_stop_pct t0 / 100 \<le> 1 + nsp / 100" using up by simp
  then show ?thesis unfolding cs using pos by (simp only: mult_le_cancel_left_pos)
qed

lemma trade_step_refl: "trade_step t t"
  by (simp add: trade_step_def)

lemma check_trade_closing:
  assumes row: "get_active_trade db (symbol t0) = Some t0"
  shows "get_active_trade (database_after (close_trade db now (symbol t0) x reason)) (symbol t0)
           = (if entry_price t0 = 0 then Some t0 else None)"
    and "entry_price t0 = 0 \<Longrightarrow> database_after (close_trade db now (symbol t0) x reason) = db"
  using row close_trade_effect(1)[OF row, of now x reason]
  by (auto simp: close_trade_def)

lemma check_trade_main_row:
  assumes row: "get_active_trade db (symbol t0) = Some t0"
  shows "\<exists>r1 r2. tp_rel t0 t0 r1
       \<and> (let (nsp, ssp) = trail_scan (entry_price t0) pcp STOP_LOSS_TRAIL
                               (last_notified_stop_pct t0, current_stop_price t0)
          in r2 = (if nsp > last_notified_stop_pct t0
                   then r1\<lparr>current_stop_price := ssp, last_notified_stop_pct := nsp\<rparr> else r1))
       \<and> rel_option same_core (Some r2)
            (get_active_trade
               (ts_db (hourly_status hs t0 now cp pcp
                        (signal_degradation hs t0 cp pcp
                          (stop_trail hs t0 cp pcp
                            (take_profits hs t0 cp pcp TAKE_PROFIT_LEVELS
                               \<lparr>ts_db = db, ts_trade = t0, ts_alerts = []\<rparr>)))))
               (symbol t0))"
proof -
  let ?st0 = "\<lparr>ts_db = db, ts_trade = t0, ts_alerts = []\<rparr>"
  let ?st1 = "take_profits hs t0 cp pcp TAKE_PROFIT_LEVELS ?st0"
  let ?st2 = "stop_trail hs t0 cp pcp ?st1"
  have sf: "\<forall>tp \<in> set TAKE_PROFIT_LEVELS. sell_fraction tp = 25 / 100"
    by (simp add: TAKE_PROFIT_LEVELS_def)
  have "rel_option (tp_rel t0) (get_active_trade (ts_db ?st0) (symbol t0))
          (get_active_trade (ts_db ?st1) (symbol t0))"
    by (rule take_profits_row[OF sf])
  then obtain r1 where r1: "get_active_trade (ts_db ?st1) (symbol t0) = Some r1" and rel: "tp_rel t0 t0 r1"
    using row by (cases "get_active_trade (ts_db ?st1) (symbol t0)") simp_all
  have ln: "last_notified_stop_pct (ts_trade ?st1) = last_notified_stop_pct t0"
    using take_profits_trade_fixed[of hs t0 cp pcp TAKE_PROFIT_LEVELS ?st0] by simp
  obtain nsp ssp where ts: "trail_scan (entry_price t0) pcp STOP_LOSS_TRAIL
                               (last_notified_stop_pct t0, current_stop_price t0) = (nsp, ssp)"
    by (cases "trail_scan (entry_price t0) pcp STOP_LOSS_TRAIL
                               (last_notified_stop_pct t0, current_stop_price t0)")
  let ?r2 = "if nsp > last_notified_stop_pct t0
             then r1\<lparr>current_stop_price := ssp, last_notified_stop_pct := nsp\<rparr> else r1"
  have r2: "get_active_trade (ts_db ?st2) (symbol t0) = Some ?r2"
    by (simp add: row_stop_trail ln ts r1)
  have "rel_option same_core (get_active_trade (ts_db ?st2) (symbol t0))
          (get_active_trade (ts_db (hourly_status hs t0 now cp pcp (signal_degradation hs t0 cp pcp ?st2))) (symbol t0))"
    by (rule row_tail_phases)
  then have "rel_option same_core (Some ?r2)
          (get_active_trade (ts_db (hourly_status hs t0 now cp pcp (signal_degradation hs t0 cp pcp ?st2))) (symbol t0))"
    by (simp only: r2)
  with rel ts show ?thesis
    by (intro exI[of _ r1] exI[of _ ?r2]) simp
qed

lemma flag_step: "flag_ok f \<Longrightarrow> f' = f \<or> f' = 1 \<Longrightarrow> flag_ok f' \<and> f \<le> f'"
  by (auto simp: flag_ok_def)

lemma tp_rel_inv:
  assumes inv: "trade_inv t0" and rel: "tp_rel t0 t0 r1" and pos: "0 < remaining_fraction t0"
  shows "trade_inv r1" and "trade_step t0 r1"
proof -
  have r0: "0 \<le> remaining_fraction t0" "remaining_fraction t0 \<le> 1"
    using inv by (simp_all add: trade_inv_def)
  have "remaining_fraction r1 = remaining_fraction t0
        \<or> remaining_fraction r1 = max 0 (remaining_fraction t0 - 25 / 100)"
    using rel by (simp add: tp_rel_def)
  then have rem: "0 \<le> remaining_fraction r1 \<and> remaining_fraction r1 \<le> 1"
    using r0 by (elim disjE) (simp_all add: max_def)
  have f0: "flag_ok (tp1_hit t0)" "flag_ok (tp2_hit t0)" "flag_ok (tp3_hit t0)" "flag_ok (tp4_hit t0)"
    using inv by (simp_all add: trade_inv_def)
  have d: "tp1_hit r1 = tp1_hit t0 \<or> tp1_hit r1 = 1" "tp2_hit r1 = tp2_hit t0 \<or> tp2_hit r1 = 1"
    "tp3_hit r1 = tp3_hit t0 \<or> tp3_hit r1 = 1" "tp4_hit r1 = tp4_hit t0 \<or> tp4_hit r1 = 1"
    using rel by (simp_all add: tp_rel_def)
  note f1 = flag_step[OF f0(1) d(1)] and f2 = flag_step[OF f0(2) d(2)]
    and f3 = flag_step[OF f0(3) d(3)] and f4 = flag_step[OF f0(4) d(4)]
  have same: "entry_price r1 = entry_price t0" "stop_loss_pct r1 = stop_loss_pct t0"
    "current_stop_price r1 = current_stop_price t0"
    "last_notified_stop_pct r1 = last_notified_stop_pct t0"
    using rel by (simp_all add: tp_rel_def)
  have rest: "0 \<le> stop_loss_pct t0 \<and> 0 \<le> last_notified_stop_pct t0
   \<and> (if last_notified_stop_pct t0 = 0
       then current_stop_price t0 = entry_price t0 * (1 - stop_loss_pct t0 / 100)
       else 0 < entry_price t0
          \<and> current_stop_price t0 = entry_price t0 * (1 + last_notified_stop_pct t0 / 100))"
    using inv unfolding trade_inv_def by blast
  show "trade_inv r1"
    unfolding trade_inv_def same using rem f1 f2 f3 f4 rest by blast
  show "trade_step t0 r1"
    unfolding trade_step_def same using f1 f2 f3 f4 by simp
qed

lemma same_core_inv:
  "same_core r r' \<Longrightarrow> trade_inv r \<Longrightarrow> trade_inv r'"
  "same_core r r' \<Longrightarrow> trade_step t r \<Longrightarrow> trade_step t r'"
proof -
  assume s: "same_core r r'"
  then have e: "r' = r\<lparr>last_score := last_score r', metadata := metadata r'\<rparr>" by (simp add: same_core_def)
  { assume "trade_inv r" then show "trade_inv r'" by (subst e) (simp add: trade_inv_def) }
  { assume "trade_step t r" then show "trade_step t r'" by (subst e) (simp add: trade_step_def) }
qed

lemma stop_trail_inv:
  assumes inv0: "trade_inv t0" and inv1: "trade_inv r1" and step1: "trade_step t0 r1"
    and rel: "tp_rel t0 t0 r1"
    and ne: "entry_price t0 \<noteq> 0" and above: "current_stop_price t0 < cp"
    and ts: "trail_scan (entry_price t0) (((cp - entry_price t0) / entry_price t0) * 100) STOP_LOSS_TRAIL
               (last_notified_stop_pct t0, current_stop_price t0) = (nsp, ssp)"
    and fired: "last_notified_stop_pct t0 < nsp"
  shows "trade_inv (r1\<lparr>current_stop_price := ssp, last_notified_stop_pct := nsp\<rparr>)"
    and "trade_step t0 (r1\<lparr>current_stop_price := ssp, last_notified_stop_pct := nsp\<rparr>)"
proof -
  let ?pcp = "((cp - entry_price t0) / entry_price t0) * 100"
  have ln0: "0 \<le> last_notified_stop_pct t0" using inv0 by (simp add: trade_inv_def)
  from trail_scan_result[OF ts] fired
  obtain tr where ssp: "ssp = entry_price t0 * (1 + nsp / 100)"
    and tr: "tr \<in> set STOP_LOSS_TRAIL" "price_move_pct tr \<le> ?pcp" "stop_at_pct tr = nsp"
    by auto
  have "0 < stop_at_pct tr" using tr(3) fired ln0 by simp
  then have "10 \<le> price_move_pct tr" using tr(1) by (rule trail_fired_move[rotated])
  then have move: "10 \<le> ?pcp" using tr(2) by simp
  have pos: "0 < entry_price t0" by (rule trade_inv_entry_pos[OF inv0 ne above move])
  have raise: "current_stop_price t0 \<le> ssp"
    unfolding ssp by (rule trade_inv_stop_raise[OF inv0 pos fired])
  have same: "entry_price r1 = entry_price t0" using rel by (simp add: tp_rel_def)
  have nsp0: "0 < nsp" using fired ln0 by simp
  have parts: "0 \<le> remaining_fraction r1 \<and> remaining_fraction r1 \<le> 1
     \<and> flag_ok (tp1_hit r1) \<and> flag_ok (tp2_hit r1) \<and> flag_ok (tp3_hit r1) \<and> flag_ok (tp4_hit r1)
     \<and> 0 \<le> stop_loss_pct r1"
    using inv1 unfolding trade_inv_def by blast
  show "trade_inv (r1\<lparr>current_stop_price := ssp, last_notified_stop_pct := nsp\<rparr>)"
    using parts nsp0 pos ssp same by (simp add: trade_inv_def)
  show "trade_step t0 (r1\<lparr>current_stop_price := ssp, last_notified_stop_pct := nsp\<rparr>)"
    using step1 raise by (simp add: trade_step_def)
qed

lemma check_trade_step:
  assumes row: "get_active_trade db (symbol t0) = Some t0" and inv: "trade_inv t0"
    and after: "get_active_trade (to_db (check_trade hs db now live t0)) (symbol t0) = Some t'"
  shows "trade_inv t' \<and> trade_step t0 t'"
proof -
  note closing = check_trade_closing[OF row]
  consider (exited) "remaining_fraction t0 \<le> 0"
    | (skip) "0 < remaining_fraction t0" "live = None \<or> live = Some 0 \<or> entry_price t0 = 0"
    | (stopped) cp where "0 < remaining_fraction t0" "live = Some cp" "cp \<noteq> 0" "entry_price t0 \<noteq> 0"
        "cp \<le> current_stop_price t0"
    | (main) cp where "0 < remaining_fraction t0" "live = Some cp" "cp \<noteq> 0" "entry_price t0 \<noteq> 0"
        "current_stop_price t0 < cp"
    by (cases live) force+
  then show ?thesis
  proof cases
    case exited
    have "to_db (check_trade hs db now live t0)
            = database_after (close_trade db now (symbol t0) (entry_price t0) ''fully_exited'')"
      using exited by (simp add: check_trade_def split: sum.splits prod.splits)
    with after closing(1)[of now "entry_price t0" "''fully_exited''"]
    have "t' = t0" by (simp split: if_splits)
    then show ?thesis using inv by (simp add: trade_step_refl)
  next
    case skip
    then have "to_db (check_trade hs db now live t0) = db"
      by (auto simp: check_trade_def split: option.splits)
    with after row have "t' = t0" by simp
    then show ?thesis using inv by (simp add: trade_step_refl)
  next
    case stopped
    have "to_db (check_trade hs db now live t0)
            = database_after (close_trade db now (symbol t0) cp ''stop_loss'')"
      using stopped by (simp add: check_trade_def Let_def split: sum.splits prod.splits)
    with after closing(1)[of now cp "''stop_loss''"] stopped(4)
    show ?thesis by simp
  next
    case main
    let ?pcp = "((cp - entry_price t0) / entry_price t0) * 100"
    have db': "to_db (check_trade hs db now live t0)
       = ts_db (hourly_status hs t0 now cp ?pcp
                        (signal_degradation hs t0 cp ?pcp
                          (stop_trail hs t0 cp ?pcp
                            (take_profits hs t0 cp ?pcp TAKE_PROFIT_LEVELS
                               \<lparr>ts_db = db, ts_trade = t0, ts_alerts = []\<rparr>))))"
      using main by (simp add: check_trade_def Let_def)
    obtain nsp ssp where ts: "trail_scan (entry_price t0) ?pcp STOP_LOSS_TRAIL
                               (last_notified_stop_pct t0, current_stop_price t0) = (nsp, ssp)"
      by (cases "trail_scan (entry_price t0) ?pcp STOP_LOSS_TRAIL
                               (last_notified_stop_pct t0, current_stop_price t0)")
    from check_trade_main_row[OF row, of ?pcp hs now cp] ts
    obtain r1 r2 where rel: "tp_rel t0 t0 r1"
      and r2: "r2 = (if nsp > last_notified_stop_pct t0
                   then r1\<lparr>current_stop_price := ssp, last_notified_stop_pct := nsp\<rparr> else r1)"
      and core: "rel_option same_core (Some r2) (get_active_trade (to_db (check_trade hs db now live t0)) (symbol t0))"
      unfolding db' by auto
    from core after have sc: "same_core r2 t'" by simp
    note i1 = tp_rel_inv[OF inv rel main(1)]
    have "trade_inv r2 \<and> trade_step t0 r2"
    proof (cases "nsp > last_notified_stop_pct t0")
      case True
      then show ?thesis
        using stop_trail_inv[OF inv i1 rel main(4) main(5) ts] r2 by simp
    next
      case False
      then show ?thesis using i1 r2 by simp
    qed
    then show ?thesis using same_core_inv[OF sc] by blast
  qed
qed

lemma score_history_update_trade [simp]: "score_history (update_trade db symb ups) = score_history db"
  by (simp add: update_trade_def)

lemma score_history_take_profits [simp]:
  "score_history (ts_db (take_profits hs t0 cp pcp tps st)) = score_history (ts_db st)"
proof (induction tps arbitrary: st)
  case Nil
  show ?case by simp
next
  case (Cons tp tps)
  show ?case
  proof (cases "pct tp")
    case None
    then show ?thesis using Cons.IH[of st] by simp
  next
    case (Some tpct)
    show ?thesis
    proof (cases "get_tp_hit (level tp) (ts_trade st) = 0 \<and> tpct \<le> pcp")
      case False
      then show ?thesis using Some Cons.IH[of st] by auto
    next
      case True
      then show ?thesis using Some by (simp add: Cons.IH)
    qed
  qed
qed

lemma score_history_stop_trail [simp]:
  "score_history (ts_db (stop_trail hs t0 cp pcp st)) = score_history (ts_db st)"
  by (simp add: stop_trail_def split: prod.splits)

lemma get_latest_score_cong:
  "score_history db = score_history db' \<Longrightarrow> get_latest_score db symb = get_latest_score db' symb"
  by (simp add: get_latest_score_def score_rows_desc_def)

lemma check_trade_main_row_eq:
  assumes "0 < remaining_fraction t0" "cp \<noteq> 0" "entry_price t0 \<noteq> 0" "current_stop_price t0 < cp"
    and sy: "symbol t0 = symb"
    and pcp: "pcp = ((cp - entry_price t0) / entry_price t0) * 100"
  shows "get_active_trade (to_db (check_trade hs db now (Some cp) t0)) symb
     = map_option
         (\<lambda>r. let r2 = (let (nsp, ssp) = trail_scan (entry_price t0) pcp STOP_LOSS_TRAIL
                                           (last_notified_stop_pct t0, current_stop_price t0)
                         in if nsp > last_notified_stop_pct t0
                            then r\<lparr>current_stop_price := ssp, last_notified_stop_pct := nsp\<rparr> else r);
                    r3 = (case get_latest_score db symb of
                            None \<Rightarrow> r2 | Some latest \<Rightarrow> r2\<lparr>last_score := sr_composite_score latest\<rparr>);
                    ch = py_int ((now - entry_timestamp t0) / 3600)
                in if ch > (case metadata t0 ''last_status_hour'' of None \<Rightarrow> - 1 | Some v \<Rightarrow> v) \<and> ch > 0
                   then r3\<lparr>metadata := (metadata t0)(''last_status_hour'' \<mapsto> ch)\<rparr> else r3)
         (get_active_trade
            (ts_db (take_profits hs t0 cp pcp TAKE_PROFIT_LEVELS \<lparr>ts_db = db, ts_trade = t0, ts_alerts = []\<rparr>))
            symb)"
proof -
  let ?st0 = "\<lparr>ts_db = db, ts_trade = t0, ts_alerts = []\<rparr>"
  let ?st1 = "take_profits hs t0 cp pcp TAKE_PROFIT_LEVELS ?st0"
  let ?st2 = "stop_trail hs t0 cp pcp ?st1"
  let ?st3 = "signal_degradation hs t0 cp pcp ?st2"
  have db': "to_db (check_trade hs db now (Some cp) t0) = ts_db (hourly_status hs t0 now cp pcp ?st3)"
    using assms(1-4) by (simp add: check_trade_def Let_def pcp)
  note fixed = take_profits_trade_fixed[of hs t0 cp pcp TAKE_PROFIT_LEVELS ?st0]
  have tr1: "last_notified_stop_pct (ts_trade ?st1) = last_notified_stop_pct t0"
    "entry_timestamp (ts_trade ?st1) = entry_timestamp t0"
    "metadata (ts_trade ?st1) = metadata t0"
    using fixed by simp_all
  have ls: "get_latest_score (ts_db ?st2) symb = get_latest_score db symb"
    by (rule get_latest_score_cong) simp
  show ?thesis
    unfolding db' sy[symmetric]
    by (cases "get_active_trade (ts_db ?st1) (symbol t0)")
       (simp_all add: row_hourly_status row_signal_degradation row_stop_trail tr1 ls[unfolded sy[symmetric]]
          Let_def split: prod.splits option.splits)
qed

section \<open>Concrete monitor ticks\<close>

lemma get_active_trade_score_history [simp]:
  "get_active_trade (db\<lparr>score_history := h\<rparr>) symb = get_active_trade db symb"
  by (simp add: get_active_trade_def)

lemma get_latest_score_empty [simp]: "get_latest_score (db\<lparr>score_history := []\<rparr>) symb = None"
  by (simp add: get_latest_score_def score_rows_desc_def)

lemma doge_database_row: "get_active_trade doge_database ''DOGE'' = Some doge_trade"
  by (simp add: doge_database_def get_active_trade_add_trade doge_trade_def)

lemma monitor_tick_row:
  "get_active_trade db symb = Some t0 \<Longrightarrow>
   get_active_trade (monitor_tick hs symb db i) symb
     = get_active_trade (to_db (check_trade hs (db\<lparr>score_history := ti_scores i\<rparr>) (ti_now i) (ti_live i) t0)) symb"
  by (simp add: monitor_tick_def Let_def)

lemma trail_15: "trail_scan 100 15 STOP_LOSS_TRAIL (0, 93) = (10, 110)"
  by (simp add: STOP_LOSS_TRAIL_def)

lemma tick_115:
  assumes row: "get_active_trade db ''DOGE'' = Some doge_trade"
  shows "get_active_trade (monitor_tick hs ''DOGE'' db \<lparr>ti_now = 60, ti_live = Some 115, ti_scores = []\<rparr>) ''DOGE''
     = Some (doge_trade\<lparr>tp1_hit := 1, remaining_fraction := 3 / 4, realized_pnl := 375,
                current_stop_price := 110, last_notified_stop_pct := 10\<rparr>)"
proof -
  let ?db = "db\<lparr>score_history := []\<rparr>"
  have tp: "get_active_trade (ts_db (take_profits hs doge_trade 115 15 TAKE_PROFIT_LEVELS
                 \<lparr>ts_db = ?db, ts_trade = doge_trade, ts_alerts = []\<rparr>)) ''DOGE''
         = Some (doge_trade\<lparr>tp1_hit := 1, remaining_fraction := 3 / 4, realized_pnl := 375\<rparr>)"
    using row
    by (simp add: TAKE_PROFIT_LEVELS_def get_tp_hit_def get_active_trade_update_trade doge_trade_def)
  have "get_active_trade (to_db (check_trade hs ?db 60 (Some 115) doge_trade)) ''DOGE''
      = Some (doge_trade\<lparr>tp1_hit := 1, remaining_fraction := 3 / 4, realized_pnl := 375,
                current_stop_price := 110, last_notified_stop_pct := 10\<rparr>)"
    apply (subst check_trade_main_row_eq[where pcp = 15])
          apply (simp_all add: doge_trade_def)[6]
    apply (simp only: tp)
    apply (simp add: doge_trade_def trail_15 py_int_def)
    done
  then show ?thesis using monitor_tick_row[OF row, of hs "\<lparr>ti_now = 60, ti_live = Some 115, ti_scores = []\<rparr>"]
    by simp
qed

lemma trail_35: "trail_scan 100 35 STOP_LOSS_TRAIL (0, 93) = (18, 118)"
  by (simp add: STOP_LOSS_TRAIL_def)

lemma trail_35_from_10: "trail_scan 100 35 STOP_LOSS_TRAIL (10, 110) = (18, 118)"
  by (simp add: STOP_LOSS_TRAIL_def)

lemma trail_21_from_120: "trail_scan 100 21 STOP_LOSS_TRAIL (0, 120) = (10, 110)"
  by (simp add: STOP_LOSS_TRAIL_def)

lemma check_135:
  assumes row: "get_active_trade db ''DOGE'' = Some doge_trade" and sh: "score_history db = []"
  shows "get_active_trade (to_db (check_trade hs db 60 (Some 135) doge_trade)) ''DOGE''
     = Some (doge_trade\<lparr>tp1_hit := 1, tp2_hit := 1, remaining_fraction := 3 / 4, realized_pnl := 1750,
                current_stop_price := 118, last_notified_stop_pct := 18\<rparr>)"
proof -
  have tp: "get_active_trade (ts_db (take_profits hs doge_trade 135 35 TAKE_PROFIT_LEVELS
                 \<lparr>ts_db = db, ts_trade = doge_trade, ts_alerts = []\<rparr>)) ''DOGE''
         = Some (doge_trade\<lparr>tp1_hit := 1, tp2_hit := 1, remaining_fraction := 3 / 4, realized_pnl := 1750\<rparr>)"
    using row
    by (simp add: TAKE_PROFIT_LEVELS_def get_tp_hit_def get_active_trade_update_trade doge_trade_def)
  have ls: "get_latest_score db ''DOGE'' = None"
    using sh by (simp add: get_latest_score_def score_rows_desc_def)
  show ?thesis
    apply (subst check_trade_main_row_eq[where pcp = 35])
          apply (simp_all add: doge_trade_def)[6]
    apply (simp only: tp ls)
    apply (simp add: doge_trade_def trail_35 py_int_def)
    done
qed

lemma check_115:
  assumes row: "get_active_trade db ''DOGE'' = Some doge_trade" and sh: "score_history db = []"
  shows "get_active_trade (to_db (check_trade hs db 60 (Some 115) doge_trade)) ''DOGE''
     = Some (doge_trade\<lparr>tp1_hit := 1, remaining_fraction := 3 / 4, realized_pnl := 375,
                current_stop_price := 110, last_notified_stop_pct := 10\<rparr>)"
proof -
  have "db\<lparr>score_history := []\<rparr> = db" using sh by simp
  then show ?thesis
    using tick_115[OF row, of hs] monitor_tick_row[OF row, of hs "\<lparr>ti_now = 60, ti_live = Some 115, ti_scores = []\<rparr>"]
    by simp
qed

lemma tick_135_second:
  assumes row: "get_active_trade db ''DOGE''
      = Some (doge_trade\<lparr>tp1_hit := 1, remaining_fraction := 3 / 4, realized_pnl := 375,
                current_stop_price := 110, last_notified_stop_pct := 10\<rparr>)"
  shows "get_active_trade (monitor_tick hs ''DOGE'' db \<lparr>ti_now = 120, ti_live = Some 135, ti_scores = []\<rparr>) ''DOGE''
     = Some (doge_trade\<lparr>tp1_hit := 1, tp2_hit := 1, remaining_fraction := 1 / 2, realized_pnl := 1250,
                current_stop_price := 118, last_notified_stop_pct := 18\<rparr>)"
proof -
  let ?db = "db\<lparr>score_history := []\<rparr>"
  let ?t = "doge_trade\<lparr>tp1_hit := 1, remaining_fraction := 3 / 4, realized_pnl := 375,
                current_stop_price := 110, last_notified_stop_pct := 10\<rparr>"
  have tp: "get_active_trade (ts_db (take_profits hs ?t 135 35 TAKE_PROFIT_LEVELS
                 \<lparr>ts_db = ?db, ts_trade = ?t, ts_alerts = []\<rparr>)) ''DOGE''
         = Some (doge_trade\<lparr>tp1_hit := 1, tp2_hit := 1, remaining_fraction := 1 / 2, realized_pnl := 1250,
                current_stop_price := 110, last_notified_stop_pct := 10\<rparr>)"
    using row
    by (simp add: TAKE_PROFIT_LEVELS_def get_tp_hit_def get_active_trade_update_trade doge_trade_def)
  have "get_active_trade (to_db (check_trade hs ?db 120 (Some 135) ?t)) ''DOGE''
      = Some (doge_trade\<lparr>tp1_hit := 1, tp2_hit := 1, remaining_fraction := 1 / 2, realized_pnl := 1250,
                current_stop_price := 118, last_notified_stop_pct := 18\<rparr>)"
    apply (subst check_trade_main_row_eq[where pcp = 35])
          apply (simp_all add: doge_trade_def)[6]
    apply (simp only: tp)
    apply (simp add: doge_trade_def trail_35_from_10 py_int_def)
    done
  then show ?thesis using monitor_tick_row[OF row, of hs "\<lparr>ti_now = 120, ti_live = Some 135, ti_scores = []\<rparr>"]
    by simp
qed

section \<open>Trade invariants over monitor ticks (core/scanner.py)\<close>

lemma monitor_tick_none:
  "get_active_trade db symb = None \<Longrightarrow> get_active_trade (monitor_tick hs symb db i) symb = None"
  by (simp add: monitor_tick_def Let_def)

lemma monitor_tick_step:
  assumes row: "get_active_trade db symb = Some t" and inv: "trade_inv t"
    and after: "get_active_trade (monitor_tick hs symb db i) symb = Some t'"
  shows "trade_inv t' \<and> trade_step t t'"
proof -
  have sy: "symbol t = symb" using row by (rule get_active_trade_symbol)
  let ?db = "db\<lparr>score_history := ti_scores i\<rparr>"
  have row': "get_active_trade ?db (symbol t) = Some t" using row sy by simp
  have "get_active_trade (to_db (check_trade hs ?db (ti_now i) (ti_live i) t)) (symbol t) = Some t'"
    using after monitor_tick_row[OF row, of hs i] sy by simp
  then show ?thesis by (rule check_trade_step[OF row' inv])
qed

lemma run_ticks_snoc: "run_ticks hs symb db (inputs @ [i]) = monitor_tick hs symb (run_ticks hs symb db inputs) i"
  by (simp add: run_ticks_def)

lemma run_ticks_inv:
  assumes "get_active_trade db symb = Some t0" "trade_inv t0"
    and "get_active_trade (run_ticks hs symb db inputs) symb = Some t"
  shows "trade_inv t"
  using assms(3)
proof (induction inputs arbitrary: t rule: rev_induct)
  case Nil
  then show ?case using assms(1,2) by (simp add: run_ticks_def)
next
  case (snoc i inputs)
  show ?case
  proof (cases "get_active_trade (run_ticks hs symb db inputs) symb")
    case None
    then show ?thesis using snoc.prems monitor_tick_none[of "run_ticks hs symb db inputs" symb hs i]
      by (simp add: run_ticks_snoc)
  next
    case (Some u)
    have "trade_inv u" using Some by (rule snoc.IH)
    then show ?thesis
      using monitor_tick_step[OF Some _ snoc.prems[unfolded run_ticks_snoc]] by blast
  qed
qed

lemma trade_inv_add_trade:
  assumes "0 \<le> sl"
  shows "\<exists>t0. get_active_trade (fst (add_trade db now symb ep ps sl)) symb = Some t0 \<and> trade_inv t0"
  using assms by (simp add: get_active_trade_add_trade trade_inv_def flag_ok_def)

text \<open>
  Claim C3, amended. Starting from any trade created by \<open>add_trade\<close> with a stop-loss
  percentage that is not negative, after any sequence of monitor ticks (with arbitrary
  clocks, live prices and score histories) the trade record, while it is active,
  satisfies \<open>0 \<le> remaining_fraction \<le> 1\<close> and has every hit flag 0 or 1; from one tick
  to the next \<open>current_stop_price\<close> does not decrease and no hit flag decreases.
\<close>

theorem trade_monitor_invariants:
  assumes "0 \<le> sl"
  shows "\<forall>t. get_active_trade (run_ticks hs symb (fst (add_trade db now symb ep ps sl)) inputs) symb = Some t
           \<longrightarrow> 0 \<le> remaining_fraction t \<and> remaining_fraction t \<le> 1
             \<and> flag_ok (tp1_hit t) \<and> flag_ok (tp2_hit t) \<and> flag_ok (tp3_hit t) \<and> flag_ok (tp4_hit t)
             \<and> (\<forall>i t'. get_active_trade
                          (run_ticks hs symb (fst (add_trade db now symb ep ps sl)) (inputs @ [i])) symb = Some t'
                   \<longrightarrow> current_stop_price t \<le> current_stop_price t'
                     \<and> tp1_hit t \<le> tp1_hit t' \<and> tp2_hit t \<le> tp2_hit t'
                     \<and> tp3_hit t \<le> tp3_hit t' \<and> tp4_hit t \<le> tp4_hit t')"
proof (intro allI impI)
  fix t
  let ?db0 = "fst (add_trade db now symb ep ps sl)"
  assume row: "get_active_trade (run_ticks hs symb ?db0 inputs) symb = Some t"
  obtain t0 where t0: "get_active_trade ?db0 symb = Some t0" "trade_inv t0"
    using trade_inv_add_trade[OF assms] by blast
  have inv: "trade_inv t" by (rule run_ticks_inv[OF t0 row])
  have step: "trade_step t t'"
    if "get_active_trade (run_ticks hs symb ?db0 (inputs @ [i])) symb = Some t'" for i t'
    using monitor_tick_step[OF row inv that[unfolded run_ticks_snoc]] by blast
  show "0 \<le> remaining_fraction t \<and> remaining_fraction t \<le> 1
             \<and> flag_ok (tp1_hit t) \<and> flag_ok (tp2_hit t) \<and> flag_ok (tp3_hit t) \<and> flag_ok (tp4_hit t)
             \<and> (\<forall>i t'. get_active_trade (run_ticks hs symb ?db0 (inputs @ [i])) symb = Some t'
                   \<longrightarrow> current_stop_price t \<le> current_stop_price t'
                     \<and> tp1_hit t \<le> tp1_hit t' \<and> tp2_hit t \<le> tp2_hit t'
                     \<and> tp3_hit t \<le> tp3_hit t' \<and> tp4_hit t \<le> tp4_hit t')"
    using inv step unfolding trade_inv_def trade_step_def by blast
qed

lemma run_ticks_115:
  "get_active_trade (run_ticks hs ''DOGE'' doge_database [\<lparr>ti_now = 60, ti_live = Some 115, ti_scores = []\<rparr>]) ''DOGE''
     = Some (doge_trade\<lparr>tp1_hit := 1, remaining_fraction := 3 / 4, realized_pnl := 375,
                current_stop_price := 110, last_notified_stop_pct := 10\<rparr>)"
  using tick_115[OF doge_database_row] by (simp add: run_ticks_def)

lemma run_ticks_115_135:
  "get_active_trade (run_ticks hs ''DOGE'' doge_database
       ([\<lparr>ti_now = 60, ti_live = Some 115, ti_scores = []\<rparr>] @ [\<lparr>ti_now = 120, ti_live = Some 135, ti_scores = []\<rparr>])) ''DOGE''
     = Some (doge_trade\<lparr>tp1_hit := 1, tp2_hit := 1, remaining_fraction := 1 / 2, realized_pnl := 1250,
                current_stop_price := 118, last_notified_stop_pct := 18\<rparr>)"
  unfolding run_ticks_snoc by (rule tick_135_second[OF run_ticks_115])

theorem trade_monitor_invariants_witness:
  "(0::real) \<le> 7
   \<and> map_option remaining_fraction
        (get_active_trade (run_ticks [] ''DOGE'' (fst (add_trade empty_database 0 ''DOGE'' 100 10000 7))
            [\<lparr>ti_now = 60, ti_live = Some 115, ti_scores = []\<rparr>]) ''DOGE'') = Some (3 / 4)
   \<and> map_option current_stop_price
        (get_active_trade (run_ticks [] ''DOGE'' (fst (add_trade empty_database 0 ''DOGE'' 100 10000 7))
            [\<lparr>ti_now = 60, ti_live = Some 115, ti_scores = []\<rparr>]) ''DOGE'') = Some 110
   \<and> map_option current_stop_price
        (get_active_trade (run_ticks [] ''DOGE'' (fst (add_trade empty_database 0 ''DOGE'' 100 10000 7))
            ([\<lparr>ti_now = 60, ti_live = Some 115, ti_scores = []\<rparr>]
               @ [\<lparr>ti_now = 120, ti_live = Some 135, ti_scores = []\<rparr>])) ''DOGE'') = Some 118
   \<and> (110::real) \<le> 118"
proof -
  have h: "(0::real) \<le> 7" by simp
  have a: "get_active_trade (run_ticks [] ''DOGE'' (fst (add_trade empty_database 0 ''DOGE'' 100 10000 7))
            [\<lparr>ti_now = 60, ti_live = Some 115, ti_scores = []\<rparr>]) ''DOGE''
     = Some (doge_trade\<lparr>tp1_hit := 1, remaining_fraction := 3 / 4, realized_pnl := 375,
                current_stop_price := 110, last_notified_stop_pct := 10\<rparr>)"
    using run_ticks_115[of "[]"] by (simp add: doge_database_def)
  have b: "get_active_trade (run_ticks [] ''DOGE'' (fst (add_trade empty_database 0 ''DOGE'' 100 10000 7))
            ([\<lparr>ti_now = 60, ti_live = Some 115, ti_scores = []\<rparr>]
               @ [\<lparr>ti_now = 120, ti_live = Some 135, ti_scores = []\<rparr>])) ''DOGE''
     = Some (doge_trade\<lparr>tp1_hit := 1, tp2_hit := 1, remaining_fraction := 1 / 2, realized_pnl := 1250,
                current_stop_price := 118, last_notified_stop_pct := 18\<rparr>)"
    using run_ticks_115_135[of "[]"] by (simp add: doge_database_def)
  from trade_monitor_invariants[OF h, of "[]" "''DOGE''" empty_database 0 100 10000
          "[\<lparr>ti_now = 60, ti_live = Some 115, ti_scores = []\<rparr>]"] a b
  have "current_stop_price (doge_trade\<lparr>tp1_hit := 1, remaining_fraction := 3 / 4, realized_pnl := 375,
                current_stop_price := 110, last_notified_stop_pct := 10\<rparr>)
        \<le> current_stop_price (doge_trade\<lparr>tp1_hit := 1, tp2_hit := 1, remaining_fraction := 1 / 2, realized_pnl := 1250,
                current_stop_price := 118, last_notified_stop_pct := 18\<rparr>)"
    by blast
  then show ?thesis using a b by simp
qed

lemma negative_stop_row:
  "get_active_trade (fst (add_trade empty_database 0 ''DOGE'' 100 10000 (- 20))) ''DOGE''
     = Some (doge_trade\<lparr>stop_loss_pct := - 20, current_stop_price := 120\<rparr>)"
  by (simp add: get_active_trade_add_trade doge_trade_def)

lemma tick_121_negative_stop:
  assumes row: "get_active_trade db ''DOGE'' = Some (doge_trade\<lparr>stop_loss_pct := - 20, current_stop_price := 120\<rparr>)"
  shows "get_active_trade (monitor_tick hs ''DOGE'' db \<lparr>ti_now = 60, ti_live = Some 121, ti_scores = []\<rparr>) ''DOGE''
     = Some (doge_trade\<lparr>stop_loss_pct := - 20, tp1_hit := 1, remaining_fraction := 3 / 4, realized_pnl := 525,
                current_stop_price := 110, last_notified_stop_pct := 10\<rparr>)"
proof -
  let ?db = "db\<lparr>score_history := []\<rparr>"
  let ?t = "doge_trade\<lparr>stop_loss_pct := - 20, current_stop_price := 120\<rparr>"
  have tp: "get_active_trade (ts_db (take_profits hs ?t 121 21 TAKE_PROFIT_LEVELS
                 \<lparr>ts_db = ?db, ts_trade = ?t, ts_alerts = []\<rparr>)) ''DOGE''
         = Some (doge_trade\<lparr>stop_loss_pct := - 20, current_stop_price := 120,
                   tp1_hit := 1, remaining_fraction := 3 / 4, realized_pnl := 525\<rparr>)"
    using row
    by (simp add: TAKE_PROFIT_LEVELS_def get_tp_hit_def get_active_trade_update_trade doge_trade_def)
  have "get_active_trade (to_db (check_trade hs ?db 60 (Some 121) ?t)) ''DOGE''
      = Some (doge_trade\<lparr>stop_loss_pct := - 20, tp1_hit := 1, remaining_fraction := 3 / 4, realized_pnl := 525,
                current_stop_price := 110, last_notified_stop_pct := 10\<rparr>)"
    apply (subst check_trade_main_row_eq[where pcp = 21])
          apply (simp_all add: doge_trade_def)[6]
    apply (simp only: tp)
    apply (simp add: doge_trade_def trail_21_from_120 py_int_def)
    done
  then show ?thesis using monitor_tick_row[OF row, of hs "\<lparr>ti_now = 60, ti_live = Some 121, ti_scores = []\<rparr>"]
    by simp
qed

text \<open>
  Claim C3 as stated fails for a trade registered with a negative stop-loss percentage:
  entry 100 with stop percentage -20 gives the stop price 120, and one tick at the live
  price 121 moves the stop down to 110.
\<close>

theorem negative_stop_counterexample:
  "map_option current_stop_price
     (get_active_trade (fst (add_trade empty_database 0 ''DOGE'' 100 10000 (- 20))) ''DOGE'') = Some 120
   \<and> map_option current_stop_price
     (get_active_trade
        (run_ticks [] ''DOGE'' (fst (add_trade empty_database 0 ''DOGE'' 100 10000 (- 20)))
           [\<lparr>ti_now = 60, ti_live = Some 121, ti_scores = []\<rparr>]) ''DOGE'') = Some 110"
  using tick_121_negative_stop[OF negative_stop_row, of "[]"]
  by (simp add: negative_stop_row run_ticks_def)

section \<open>Take-profit thresholds crossed in one tick (core/scanner.py)\<close>

lemma score_history_doge_database: "score_history doge_database = []"
  by (simp add: doge_database_def add_trade_def Let_def empty_database_def)

text \<open>
  Claim C4, the code at its two scenarios. Entry 100, size 10,000, nothing sold yet. At
  the live price 115 the first threshold fires: realized profit 375, remaining fraction
  0.75. At the live price 135 the first two thresholds fire in the one tick: both flags
  are set and the realized profit is 2 * 875 = 1750, and the remaining fraction stored is
  0.75, one step of 0.25 below 1 and not two.
\<close>

theorem check_trade_take_profit_gap:
  "get_active_trade doge_database ''DOGE'' = Some doge_trade
   \<and> get_active_trade (to_db (check_trade hs doge_database 60 (Some 115) doge_trade)) ''DOGE''
       = Some (doge_trade\<lparr>tp1_hit := 1, remaining_fraction := 3 / 4, realized_pnl := 375,
                  current_stop_price := 110, last_notified_stop_pct := 10\<rparr>)
   \<and> get_active_trade (to_db (check_trade hs doge_database 60 (Some 135) doge_trade)) ''DOGE''
       = Some (doge_trade\<lparr>tp1_hit := 1, tp2_hit := 1, remaining_fraction := 3 / 4, realized_pnl := 1750,
                  current_stop_price := 118, last_notified_stop_pct := 18\<rparr>)"
  by (simp only: doge_database_row check_115[OF doge_database_row score_history_doge_database]
        check_135[OF doge_database_row score_history_doge_database] simp_thms)

section \<open>Alert dispatch of a scan cycle (core/scanner.py)\<close>

lemma set_notify: "set (notify hs a) = (\<lambda>h. (h, a)) ` set hs"
  by (simp add: notify_def)

lemma send_alerts_event:
  "(h, Event_alert e) \<in> set (send_alerts hs results)
     \<longleftrightarrow> h \<in> set hs \<and> (\<exists>r \<in> set results. e \<in> set (res_events r))"
  by (induction results) (auto simp: set_notify)

lemma send_alerts_signal:
  "(h, Signal_alert r) \<in> set (send_alerts hs results)
     \<longleftrightarrow> h \<in> set hs \<and> r \<in> set results \<and> classification r \<in> {CRITICAL, HIGH_ALERT, WATCHLIST}"
  by (induction results) (auto simp: set_notify)

lemma set_sort_results [simp]: "set (sort_results results) = set results"
  by (simp add: sort_results_def)

lemma collect_results_foldl:
  "set (foldl (\<lambda>results f. case f of
                None \<Rightarrow> results
              | Some r \<Rightarrow> if composite_score r \<ge> th then results @ [r] else results) acc completed)
     = set acc \<union> {r. Some r \<in> set completed \<and> th \<le> composite_score r}"
  by (induction completed arbitrary: acc) (auto split: option.splits)

lemma set_collect_results:
  "set (collect_results th completed) = {r. Some r \<in> set completed \<and> th \<le> composite_score r}"
  by (simp add: collect_results_def collect_results_foldl)

text \<open>
  Claim C9, amended. In a scan cycle the results handed to the alert sinks are those whose
  composite score reaches the alert threshold. An event is dispatched to every registered
  sink exactly when it belongs to such a result, whatever the result's classification; a
  signal alert is dispatched for such a result exactly when it is classified WATCHLIST,
  HIGH_ALERT or CRITICAL.
\<close>

theorem run_once_alert_dispatch:
  "((h, Event_alert e) \<in> set (run_once_dispatch hs th completed)
      \<longleftrightarrow> h \<in> set hs \<and> (\<exists>r. Some r \<in> set completed \<and> th \<le> composite_score r \<and> e \<in> set (res_events r)))
   \<and> ((h, Signal_alert r) \<in> set (run_once_dispatch hs th completed)
      \<longleftrightarrow> h \<in> set hs \<and> Some r \<in> set completed \<and> th \<le> composite_score r
          \<and> (classification r = WATCHLIST \<or> classification r = HIGH_ALERT \<or> classification r = CRITICAL))"
  by (auto simp: run_once_dispatch_def send_alerts_event send_alerts_signal set_collect_results)

lemma score_final_uniform_39: "score_final (uniform_signals 39) 0 = 39"
  by (simp add: score_final_eq spec_base_uniform spec_bonus_sum_def uniform_signals_ns
      spec_penalty_sum_def clamp_def py_round_def round_half_even_def Let_def)

lemma scan_token_fields:
  "composite_score (snd (scan_token db now symb signals p7d cp)) = py_round 1 (score_final signals p7d)"
  "classification (snd (scan_token db now symb signals p7d cp)) = classify_score (score_final signals p7d)"
  "res_events (snd (scan_token db now symb signals p7d cp))
     = detect_events (fst (score db now symb signals p7d)) now symb (snd (score db now symb signals p7d)) cp"
  by (simp_all add: scan_token_def Let_def split_beta score_result.defs scan_result.defs
        score_composite_score score_classification)

lemma previous_of_scored_once:
  "get_previous_score (fst (score scored_once_database 900 ''DOGE'' signals p7d)) ''DOGE''
     = Some \<lparr>sr_timestamp = 0, sr_symbol = ''DOGE'', sr_composite_score = 10,
         sr_classification = NONE, sr_signal_scores = [], sr_bonuses_applied = [],
         sr_penalties_applied = []\<rparr>"
  by (simp add: get_previous_score_def score_rows_desc_def score_history_score scored_once_database_def
        empty_database_def Let_def)

lemma events_of_scored_once:
  "res_events (snd (scan_token scored_once_database 900 ''DOGE'' (uniform_signals 39) 0 1))
     = [SCORE_JUMP ''DOGE'' 10 39 29, UPGRADE ''DOGE'' NONE MONITOR 39]"
proof -
  have snaps: "get_snapshots (fst (score scored_once_database 900 ''DOGE'' (uniform_signals 39) 0)) 900 ''DOGE'' ''ticker'' 6 = []"
    by (simp add: get_snapshots_def snapshots_score scored_once_database_def empty_database_def)
  have r: "py_round (Suc 0) 39 = 39" "py_round (Suc 0) 29 = 29"
    using py_round_of_int[of "Suc 0" 39] py_round_of_int[of "Suc 0" 29] by simp_all
  show ?thesis
    by (simp add: scan_token_fields detect_events_def previous_of_scored_once snaps Let_def
          score_composite_score score_classification score_final_uniform_39 r
          classify_score_spec spec_classification_def class_order_def)
qed

text \<open>
  Claim C9 as stated fails: a token whose score goes from 10 to 39 has a SCORE_JUMP and an
  UPGRADE event detected, its composite score is below the alert threshold 48, and
  nothing is dispatched.
\<close>

theorem below_threshold_events_counterexample:
  "res_events (snd (scan_token scored_once_database 900 ''DOGE'' (uniform_signals 39) 0 1))
     = [SCORE_JUMP ''DOGE'' 10 39 29, UPGRADE ''DOGE'' NONE MONITOR 39]
   \<and> run_once_dispatch [''console''] 48
        [Some (snd (scan_token scored_once_database 900 ''DOGE'' (uniform_signals 39) 0 1))] = []"
proof -
  have r: "py_round (Suc 0) 39 = 39" using py_round_of_int[of "Suc 0" 39] by simp
  have "collect_results 48 [Some (snd (scan_token scored_once_database 900 ''DOGE'' (uniform_signals 39) 0 1))] = []"
    by (simp add: collect_results_def scan_token_fields score_final_uniform_39 r)
  then show ?thesis
    by (simp add: events_of_scored_once run_once_dispatch_def sort_results_def)
qed

section \<open>Stop selection (core/levels.py)\<close>

lemma swing_candidate_filter:
  "swing_candidate price candles
     = filter in_band (case swing_low candles of
          None \<Rightarrow> []
        | Some sl \<Rightarrow> [(''swing_low'', sl * (995 / 1000), stop_pct_of price (sl * (995 / 1000)))])"
  by (simp add: swing_candidate_def in_band_def Let_def MIN_STOP_PCT_def MAX_STOP_PCT_def
      split: option.splits)

lemma support_candidate_filter:
  "support_candidate price ob
     = filter in_band (case support_cluster ob price of
          None \<Rightarrow> []
        | Some spt \<Rightarrow> [(''support'', cl_price spt * (997 / 1000),
                        stop_pct_of price (cl_price spt * (997 / 1000)))])"
  by (simp add: support_candidate_def in_band_def Let_def MIN_STOP_PCT_def MAX_STOP_PCT_def
      split: option.splits)

lemma stop_pct_of_le:
  "0 < price \<Longrightarrow> stop_pct_of price s \<le> 15 \<longleftrightarrow> price * (85 / 100) \<le> s"
  "0 < price \<Longrightarrow> 25 / 10 \<le> stop_pct_of price s \<longleftrightarrow> s \<le> price * (975 / 1000)"
  by (simp_all add: stop_pct_of_def field_simps)

lemma py_max_by_skip:
  "py_max_by key a (v # vs) = py_max_by key v vs" if "key a < key v"
  using that by simp

lemma raw_candidates_pct:
  "c \<in> set ((case swing_low candles of
          None \<Rightarrow> []
        | Some sl \<Rightarrow> [(''swing_low'', sl * (995 / 1000), stop_pct_of price (sl * (995 / 1000)))])
      @ (case support_cluster ob price of
          None \<Rightarrow> []
        | Some spt \<Rightarrow> [(''support'', cl_price spt * (997 / 1000),
                        stop_pct_of price (cl_price spt * (997 / 1000)))]))
   \<Longrightarrow> snd (snd c) = stop_pct_of price (fst (snd c))"
  by (auto split: option.splits)

lemma stop_best_eq_spec_best:
  assumes price: "0 < price"
  shows "stop_best price atr candles ob sc = spec_best price atr candles ob sc"
proof -
  let ?a = "atr_candidate price atr sc"
  let ?R = "(case swing_low candles of
          None \<Rightarrow> []
        | Some sl \<Rightarrow> [(''swing_low'', sl * (995 / 1000), stop_pct_of price (sl * (995 / 1000)))])
      @ (case support_cluster ob price of
          None \<Rightarrow> []
        | Some spt \<Rightarrow> [(''support'', cl_price spt * (997 / 1000),
                        stop_pct_of price (cl_price spt * (997 / 1000)))])"
  let ?V = "\<lambda>(m::string, s, p). price - s \<ge> atr \<and> p \<ge> 25 / 10"
  let ?V' = "\<lambda>(m::string, s, p). price - s \<ge> atr \<and> 25 / 10 \<le> p \<and> p \<le> 15"
  let ?key = "\<lambda>(m::string, s::real, p::real). s"
  let ?T = "filter ?V' ?R"
  have cands: "stop_candidates price atr candles ob sc = ?a # filter in_band ?R"
    by (simp add: stop_candidates_def swing_candidate_filter support_candidate_filter)
  have ff: "filter ?V (filter in_band ?R) = ?T"
  proof -
    have "filter ?V (filter in_band ?R) = filter (\<lambda>x. in_band x \<and> ?V x) ?R"
      by (simp only: filter_filter)
    also have "\<dots> = ?T"
      by (rule filter_cong[OF refl]) (auto simp: in_band_def)
    finally show ?thesis .
  qed
  have code: "stop_valid price atr (stop_candidates price atr candles ob sc)
                = (if ?V ?a then [?a] else []) @ ?T"
    unfolding cands using ff by (simp add: stop_valid_def MIN_STOP_PCT_def)
  have spec: "spec_valid price atr (spec_candidates price atr candles ob sc)
                = (if ?V' ?a then [?a] else []) @ ?T"
    by (simp add: spec_valid_def spec_candidates_def)
  show ?thesis
  proof (cases "?V ?a \<and> \<not> ?V' ?a")
    case False
    then have "(if ?V ?a then [?a] else []) = (if ?V' ?a then [?a] else [])"
      by (auto simp: case_prod_beta)
    then show ?thesis unfolding stop_best_def spec_best_def code spec by simp
  next
    case True
    then have pa: "15 < stop_pct_of price (fst (snd ?a))"
      by (auto simp: atr_candidate_def Let_def)
    then have sa: "fst (snd ?a) < price * (85 / 100)"
      using stop_pct_of_le(1)[OF price, of "fst (snd ?a)"] by simp
    show ?thesis
    proof (cases ?T)
      case Nil
      then show ?thesis using True unfolding stop_best_def spec_best_def code spec by simp
    next
      case (Cons v vs)
      then have "v \<in> set ?T" by simp
      then have "v \<in> set ?R \<and> ?V' v" by (simp only: set_filter mem_Collect_eq)
      then have vR: "v \<in> set ?R" and vV: "?V' v" by blast+
      have "snd (snd v) = stop_pct_of price (fst (snd v))" using vR by (rule raw_candidates_pct)
      moreover have "snd (snd v) \<le> 15" using vV by (simp add: case_prod_beta)
      ultimately have "price * (85 / 100) \<le> fst (snd v)"
        using stop_pct_of_le(1)[OF price, of "fst (snd v)"] by simp
      with sa have "?key ?a < ?key v" by (simp add: case_prod_beta)
      then have "py_max_by ?key ?a (v # vs) = py_max_by ?key v vs" by (rule py_max_by_skip)
      then show ?thesis using True Cons unfolding stop_best_def spec_best_def code spec by simp
    qed
  qed
qed

lemma stop_clamped_band:
  assumes "0 < price"
  shows "25 / 10 \<le> stop_pct_of price (stop_clamped price b)"
    and "stop_pct_of price (stop_clamped price b) \<le> 15"
proof -
  have "price * (85 / 100) \<le> price * (975 / 1000)" using assms by simp
  then have "price * (85 / 100) \<le> stop_clamped price b" "stop_clamped price b \<le> price * (975 / 1000)"
    by (simp_all add: stop_clamped_def MIN_STOP_PCT_def MAX_STOP_PCT_def)
  then show "25 / 10 \<le> stop_pct_of price (stop_clamped price b)"
    and "stop_pct_of price (stop_clamped price b) \<le> 15"
    using stop_pct_of_le[OF assms] by simp_all
qed

lemma stop_clamped_expand:
  "stop_clamped price b = max (price * (85 / 100)) (min (price * (975 / 1000)) b)"
  by (simp add: stop_clamped_def MIN_STOP_PCT_def MAX_STOP_PCT_def)

lemma py_round_2_band:
  assumes "25 / 10 \<le> x" "x \<le> 15"
  shows "25 / 10 \<le> py_round 2 x" "py_round 2 x \<le> 15"
proof -
  have a: "py_round 2 (25 / 10) = 25 / 10"
    by (simp add: py_round_def round_half_even_def Let_def)
  have b: "py_round 2 15 = 15" using py_round_of_int[of 2 15] by simp
  show "25 / 10 \<le> py_round 2 x" using py_round_mono[OF assms(1), of 2] a by simp
  show "py_round 2 x \<le> 15" using py_round_mono[OF assms(2), of 2] b by simp
qed

lemma calc_stop_fields:
  assumes "price \<noteq> 0"
  shows "\<exists>r. calc_stop price atr atr_pct candles ob sc cl = Inr r
     \<and> stop_method r = fst (stop_best price atr candles ob sc)
     \<and> stop_price r = py_round 8 (stop_clamped price (fst (snd (stop_best price atr candles ob sc))))
     \<and> stop_pct r = py_round 2 (stop_pct_of price (stop_clamped price (fst (snd (stop_best price atr candles ob sc)))))"
  using assms by (simp add: calc_stop_def Let_def stop_pct_of_def)

text \<open>
  Claim C5, amended. For a positive price, \<open>_calc_stop\<close> returns; its method is that of
  the candidate chosen as the specification says (among the ATR, swing-low and order-book
  candidates at least one ATR below the price with a stop percentage in [2.5, 15], the one
  with the highest stop price; the ATR stop when none is valid); the chosen stop is
  clamped so that its distance from the price is between 2.5% and 15% of the price, and
  the returned \<open>pct\<close> lies in that band; the returned stop price is the clamped stop
  rounded to eight decimals.
\<close>

theorem calc_stop_selection:
  assumes "0 < price"
  shows "\<exists>r. calc_stop price atr atr_pct candles ob sc cl = Inr r
     \<and> stop_method r = fst (spec_best price atr candles ob sc)
     \<and> stop_price r = py_round 8 (max (price * (85 / 100))
                                      (min (price * (975 / 1000)) (fst (snd (spec_best price atr candles ob sc)))))
     \<and> 25 / 10 \<le> stop_pct_of price (max (price * (85 / 100))
                                      (min (price * (975 / 1000)) (fst (snd (spec_best price atr candles ob sc)))))
     \<and> stop_pct_of price (max (price * (85 / 100))
                                      (min (price * (975 / 1000)) (fst (snd (spec_best price atr candles ob sc))))) \<le> 15
     \<and> 25 / 10 \<le> stop_pct r \<and> stop_pct r \<le> 15"
proof -
  let ?b = "fst (snd (spec_best price atr candles ob sc))"
  let ?fp = "stop_clamped price ?b"
  have ne: "price \<noteq> 0" using assms by simp
  have best: "stop_best price atr candles ob sc = spec_best price atr candles ob sc"
    by (rule stop_best_eq_spec_best[OF assms])
  note band = stop_clamped_band[OF assms, of ?b]
  note rb = py_round_2_band[OF band]
  from calc_stop_fields[OF ne, of atr atr_pct candles ob sc cl]
  obtain r where r: "calc_stop price atr atr_pct candles ob sc cl = Inr r"
    "stop_method r = fst (spec_best price atr candles ob sc)"
    "stop_price r = py_round 8 ?fp"
    "stop_pct r = py_round 2 (stop_pct_of price ?fp)"
    unfolding best by blast
  have "25 / 10 \<le> stop_pct r" "stop_pct r \<le> 15" unfolding r(4) by (rule rb)+
  then show ?thesis
    unfolding stop_clamped_expand[symmetric] using r(1,2,3) band by blast
qed

lemma spec_best_support:
  "spec_best 100 2 [] support_book 70 = (''support'', 96709 / 1000, 3291 / 1000)"
  by (simp add: spec_best_def spec_valid_def spec_candidates_def atr_candidate_def stop_mult_def
      stop_pct_of_def swing_low_def support_cluster_def support_book_def bid_cluster_def Let_def py_int_def)

theorem calc_stop_selection_witness:
  "(0::real) < 100
   \<and> map_sum id stop_method (calc_stop 100 2 2 [] support_book 70 HIGH_ALERT) = Inr ''support''
   \<and> map_sum id stop_price (calc_stop 100 2 2 [] support_book 70 HIGH_ALERT) = Inr (96709 / 1000)"
proof -
  have h: "(0::real) < 100" by simp
  have r: "py_round 8 (96709 / 1000) = 96709 / 1000"
    by (simp add: py_round_def round_half_even_def Let_def)
  from calc_stop_selection[OF h, of 2 2 "[]" support_book 70 HIGH_ALERT]
  obtain r where "calc_stop 100 2 2 [] support_book 70 HIGH_ALERT = Inr r"
    and "stop_method r = fst (spec_best 100 2 [] support_book 70)"
    and "stop_price r = py_round 8 (max (100 * (85 / 100))
                          (min (100 * (975 / 1000)) (fst (snd (spec_best 100 2 [] support_book 70)))))"
    by blast
  then show ?thesis by (simp add: spec_best_support r)
qed

text \<open>
  Claim C5 as stated fails on the returned stop price: at the price 0.0000013 with an ATR
  of 0.000000004 the clamped stop is 0.0000012675, returned as 0.00000127, which is 2.31%
  below the price.
\<close>

theorem calc_stop_rounding_counterexample:
  "calc_stop (13 / 10 ^ 7) (4 / 10 ^ 9) (4 / 13) [] \<lparr>bids = [], asks = []\<rparr> 50 WATCHLIST
     = Inr \<lparr>stop_price = 127 / 10 ^ 8, stop_pct = 25 / 10, stop_method = ''atr'',
            methods_considered = [ATR_note (25 / 10)], atr_distance = 81 / 10,
            swing_low_stop = None, ob_support_stop = None, atr_stop_rounded = 129 / 10 ^ 8\<rparr>
   \<and> stop_pct_of (13 / 10 ^ 7) (127 / 10 ^ 8) < 25 / 10"
  by (simp add: calc_stop_def stop_best_def stop_valid_def stop_candidates_def atr_candidate_def
      swing_candidate_def support_candidate_def swing_low_def support_cluster_def stop_mult_def
      stop_pct_of_def stop_clamped_def stop_notes_def round_if_truthy_def MIN_STOP_PCT_def
      MAX_STOP_PCT_def Let_def py_round_def round_half_even_def)

section \<open>The signal engine never raises (core/signals.py)\<close>

lemma signal_ok_insufficient [simp]: "signal_ok (Inr (insufficient reason extra))"
  by (simp add: signal_ok_def insufficient_def)

lemma signal_ok_scored:
  "map_of meta ''reason'' = None \<Longrightarrow> signal_ok (Inr (scored raw nrm meta))"
  using py_round_clamp_range[of 1 nrm] by (simp add: signal_ok_def scored_def)

lemma bind_err_Inr [simp]: "bind_err (Inr x) f = f x"
  by (simp add: bind_err_def)

lemma py_div_nonzero: "b \<noteq> 0 \<Longrightarrow> py_div a b = Inr (a / b)"
  by (simp add: py_div_def)

lemma py_first_Cons [simp]: "py_first (x # xs) = Inr x"
  by (simp add: py_first_def)

lemma py_last_nonempty: "xs \<noteq> [] \<Longrightarrow> py_last xs = Inr (last xs)"
  by (simp add: py_last_def)

lemma candles_change_returns:
  "candles_change cur hours cs = Some r \<Longrightarrow> \<exists>v. r = Inr v"
proof (induction cs)
  case Nil
  then show ?case by simp
next
  case (Cons a cs)
  obtain ex candles where a: "a = (ex, candles)" by (cases a)
  show ?case using Cons unfolding a
    by (auto simp: Let_def py_div_nonzero split: if_splits)
qed

lemma history_change_returns:
  "history_change cur hist = Some r \<Longrightarrow> \<exists>v. r = Inr v"
  by (induction hist) (auto simp: py_div_nonzero split: option.splits if_splits)

lemma get_price_change_returns: "\<exists>v. get_price_change db now symb data hours = Inr v"
  unfolding get_price_change_def Let_def
  by (auto split: option.splits dest: candles_change_returns history_change_returns)

lemma oi_surge_ok: "signal_ok (compute_oi_surge db now symb data)"
proof -
  obtain pc where pc: "get_price_change db now symb data 72 = Inr pc"
    using get_price_change_returns by blast
  show ?thesis
    unfolding compute_oi_surge_def Let_def
    by (auto simp: pc py_div_nonzero signal_ok_scored split: list.splits)
qed

lemma funding_rate_ok: "signal_ok (compute_funding_rate db now symb data)"
  unfolding compute_funding_rate_def Let_def
  by (auto simp: signal_ok_scored split: prod.splits)

lemma liquidation_leverage_ok: "signal_ok (compute_liquidation_leverage db now symb data)"
  unfolding compute_liquidation_leverage_def Let_def
  by (auto simp: signal_ok_scored)

lemma single_exchange_volume_ok: "length volumes = 1 \<Longrightarrow> signal_ok (single_exchange_volume db now symb volumes)"
proof -
  assume "length volumes = 1"
  then obtain ex cur where v: "volumes = [(ex, cur)]"
    by (cases volumes) (auto simp: length_Suc_conv)
  show ?thesis
    unfolding single_exchange_volume_def Let_def v
    by (auto simp: py_div_nonzero signal_ok_scored)
qed

lemma np_median_pos:
  assumes "\<forall>x \<in> set xs. 0 < x" "xs \<noteq> []"
  shows "0 < np_median xs"
proof -
  let ?s = "sort xs"
  have len: "length ?s = length xs" by simp
  have pos: "\<And>i. i < length xs \<Longrightarrow> 0 < ?s ! i"
  proof -
    fix i assume "i < length xs"
    then have "i < length ?s" by simp
    then have "?s ! i \<in> set ?s" by (rule nth_mem)
    then have "?s ! i \<in> set xs" by (simp only: set_sort)
    then show "0 < ?s ! i" using assms(1) by blast
  qed
  have n: "0 < length xs" using assms(2) by simp
  have a: "length xs div 2 < length xs" using n by simp
  have b: "length xs div 2 - 1 < length xs" using n by linarith
  show ?thesis
    unfolding np_median_def Let_def len
    using pos[OF a] pos[OF b] by simp
qed

lemma dict_set_values: "\<forall>(k, v) \<in> set d. P v \<Longrightarrow> P x \<Longrightarrow> \<forall>(k, v) \<in> set (dict_set d key x). P v"
  by (induction d) (auto split: if_splits)

lemma ticker_volumes_pos:
  "\<forall>(k, v) \<in> set vols. 0 < v \<Longrightarrow> \<forall>(k, v) \<in> set (ticker_volumes ts vols). 0 < v"
proof (induction ts arbitrary: vols)
  case Nil
  then show ?case by simp
next
  case (Cons a ts)
  obtain ex t where a: "a = (ex, t)" by (cases a)
  show ?case
  proof (cases "ticker_volume t > 0")
    case True
    have "\<forall>(k, v) \<in> set (dict_set vols ex (ticker_volume t)). 0 < v"
      using dict_set_values[of vols "\<lambda>v. 0 < v"] Cons.prems True by blast
    from Cons.IH[OF this] show ?thesis using True a by (simp add: Let_def)
  next
    case False
    then show ?thesis using Cons a by (simp add: Let_def)
  qed
qed

lemma cross_exchange_volume_ok: "signal_ok (compute_cross_exchange_volume db now symb data)"
proof -
  let ?vols = "ticker_volumes (tickers data) []"
  have pos: "\<forall>(k, v) \<in> set ?vols. 0 < v" by (rule ticker_volumes_pos) simp
  show ?thesis
  proof (cases "length ?vols < 2")
    case True
    then show ?thesis
      unfolding compute_cross_exchange_volume_def Let_def
      by (auto simp: single_exchange_volume_ok)
  next
    case False
    then obtain v0 vs where v: "?vols = v0 # vs" by (cases ?vols) auto
    have "\<forall>x \<in> set (map snd ?vols). 0 < x" using pos by auto
    moreover have "map snd ?vols \<noteq> []" using v by simp
    ultimately have "0 < np_median (map snd ?vols)" by (rule np_median_pos)
    then have med: "np_median (map snd (v0 # vs)) \<noteq> 0" "\<not> np_median (map snd (v0 # vs)) \<le> 0"
      unfolding v by simp_all
    show ?thesis
      unfolding compute_cross_exchange_volume_def Let_def
      using False
      by (simp add: v py_div_nonzero[OF med(1)] med(2) signal_ok_scored del: list.map)
  qed
qed

lemma depth_imbalance_ok: "signal_ok (compute_depth_imbalance db now symb data)"
  unfolding compute_depth_imbalance_def Let_def
  by (auto simp: signal_ok_scored)

lemma first_long_candles_length:
  "first_long_candles cs \<noteq> [] \<Longrightarrow> 20 \<le> length (first_long_candles cs)"
  by (induction cs) (auto split: if_splits)

lemma volume_price_decouple_ok: "signal_ok (compute_volume_price_decouple db now symb data)"
proof -
  let ?c = "first_long_candles (ohlcv data)"
  show ?thesis
  proof (cases "?c = [] \<or> length ?c < 20")
    case True
    then show ?thesis unfolding compute_volume_price_decouple_def Let_def by auto
  next
    case False
    then have len: "20 \<le> length ?c" by simp
    let ?recent = "if length ?c \<ge> 48 then drop (length ?c - 24) ?c else drop (length ?c div 2) ?c"
    have "?recent \<noteq> []" using len by auto
    then obtain r0 rs where r: "?recent = r0 # rs" by (cases ?recent) auto
    have rl: "py_last (r0 # rs) = Inr (last (r0 # rs))" by (rule py_last_nonempty) simp
    show ?thesis
    proof (cases "length ?c \<ge> 48")
      case True
      with r have r': "drop (length ?c - 24) ?c = r0 # rs" by simp
      show ?thesis
        unfolding compute_volume_price_decouple_def Let_def
        using False True
        by (simp add: r' py_div_nonzero rl signal_ok_scored del: last.simps)
    next
      case short: False
      with r have r': "drop (length ?c div 2) ?c = r0 # rs" by simp
      show ?thesis
        unfolding compute_volume_price_decouple_def Let_def
        using False short
        by (simp add: r' py_div_nonzero rl signal_ok_scored del: last.simps)
    qed
  qed
qed

lemma volatility_compression_ok: "signal_ok (compute_volatility_compression db now symb data)"
proof -
  let ?c = "longest_candles (ohlcv data) []"
  let ?b = "band_widths (map c_close ?c)"
  show ?thesis
  proof (cases "(?c = [] \<or> length ?c < 30) \<or> (?b = [] \<or> length ?b < 5)")
    case True
    then show ?thesis unfolding compute_volatility_compression_def Let_def by auto
  next
    case False
    then have c: "?c \<noteq> []" and b: "?b \<noteq> []" by auto
    have lb: "py_last ?b = Inr (last ?b)" using b by (rule py_last_nonempty)
    have lc: "py_last (map c_close ?c) = Inr (last (map c_close ?c))"
      using c by (intro py_last_nonempty) simp
    have d: "real (length ?b) \<noteq> 0" using b by simp
    show ?thesis
      unfolding compute_volatility_compression_def Let_def
      using False
      by (simp add: lb lc py_div_nonzero[OF d] signal_ok_scored)
  qed
qed

lemma long_short_ratio_ok: "signal_ok (compute_long_short_ratio db now symb data)"
  unfolding compute_long_short_ratio_def Let_def
  by (auto simp: signal_ok_scored py_last_nonempty split: option.splits)

lemma futures_spot_divergence_ok: "signal_ok (compute_futures_spot_divergence db now symb data)"
  unfolding compute_futures_spot_divergence_def Let_def
  by (auto simp: signal_ok_scored py_div_nonzero)

lemma signal_ok_Inr: "signal_ok res \<Longrightarrow> \<exists>s. res = Inr s"
  by (cases res) (simp_all add: signal_ok_def)

lemma run_computations_returns:
  "\<forall>(name, f) \<in> set cs. signal_ok (f db now symb data) \<Longrightarrow>
   \<exists>signals. run_computations db now symb data cs = Inr signals \<and> map fst signals = map fst cs"
proof (induction cs)
  case Nil
  show ?case by simp
next
  case (Cons c cs)
  obtain name f where c: "c = (name, f)" by (cases c)
  from Cons.prems c obtain s where s: "f db now symb data = Inr s"
    using signal_ok_Inr by fastforce
  from Cons obtain signals where r: "run_computations db now symb data cs = Inr signals"
    "map fst signals = map fst cs" by auto
  show ?case unfolding c by (simp add: s r)
qed

lemma signal_computations_ok:
  "\<forall>(name, f) \<in> set signal_computations. signal_ok (f db now symb data)"
  by (simp add: signal_computations_def oi_surge_ok funding_rate_ok liquidation_leverage_ok
      cross_exchange_volume_ok depth_imbalance_ok volume_price_decouple_ok
      volatility_compression_ok long_short_ratio_ok futures_spot_divergence_ok)

lemma compute_all_returns:
  "\<exists>db' signals. compute_all db now symb data = Inr (db', signals)
      \<and> map fst signals = map fst signal_computations"
proof -
  from run_computations_returns[OF signal_computations_ok, of db now symb data]
  obtain signals where "run_computations db now symb data signal_computations = Inr signals"
    "map fst signals = map fst signal_computations" by blast
  then show ?thesis by (simp add: compute_all_def Let_def)
qed

lemma oi_surge_no_history:
  assumes "oi_present data" "get_snapshots db now symb ''open_interest'' 72 = []"
  shows "compute_oi_surge db now symb data
           = Inr \<lparr>raw_value = 0, normalized_score = 0,
                  sig_metadata = [(''reason'', MStr ''no hist OI''), (''current_oi'', MNum (oi_total data))]\<rparr>"
  using assms by (simp add: compute_oi_surge_def Let_def oi_present_def oi_total_def insufficient_def)

subsection \<open>Insufficient data\<close>

lemma signal_outcome_insufficient [simp]:
  "signal_outcome (Some (reason, extra)) (Inr (insufficient reason extra))"
  by (simp add: signal_outcome_def insufficient_def)

lemma signal_outcome_scored:
  "map_of meta ''reason'' = None \<Longrightarrow> signal_outcome None (Inr (scored raw nrm meta))"
  using py_round_clamp_range[of 1 nrm] by (simp add: signal_outcome_def scored_def)

lemma sum_list_pos: "xs \<noteq> [] \<Longrightarrow> \<forall>x \<in> set xs. 0 < x \<Longrightarrow> 0 < sum_list (xs :: real list)"
proof (induction xs)
  case Nil
  then show ?case by simp
next
  case (Cons a xs)
  show ?case
  proof (cases "xs = []")
    case True
    then show ?thesis using Cons.prems by simp
  next
    case False
    then have "0 < sum_list xs" using Cons by simp
    then show ?thesis using Cons.prems by simp
  qed
qed

lemma py_min_le: "py_min l xs \<le> l \<and> (\<forall>x \<in> set xs. py_min l xs \<le> x)"
proof (induction xs arbitrary: l)
  case Nil
  show ?case by simp
next
  case (Cons a xs)
  show ?case using Cons[of "if a < l then a else l"] by (auto split: if_splits)
qed

lemma py_min_mem: "py_min l xs \<in> set (l # xs)"
proof (induction xs arbitrary: l)
  case Nil
  show ?case by simp
next
  case (Cons a xs)
  show ?case using Cons[of "if a < l then a else l"] by (auto split: if_splits)
qed

lemma within_first_hour:
  assumes "map snap_timestamp hist = t # ts"
  shows "snap_timestamp h \<le> py_min t ts + 3600
         \<longleftrightarrow> list_all (\<lambda>h'. snap_timestamp h \<le> snap_timestamp h' + 3600) hist"
proof
  assume a: "snap_timestamp h \<le> py_min t ts + 3600"
  have "\<forall>x \<in> set (t # ts). py_min t ts \<le> x" using py_min_le[of t ts] by simp
  then have "\<forall>h' \<in> set hist. py_min t ts \<le> snap_timestamp h'"
    using assms by (metis image_eqI list.set_map)
  then show "list_all (\<lambda>h'. snap_timestamp h \<le> snap_timestamp h' + 3600) hist"
    using a by (auto simp: list_all_iff)
next
  assume a: "list_all (\<lambda>h'. snap_timestamp h \<le> snap_timestamp h' + 3600) hist"
  have "py_min t ts \<in> set (map snap_timestamp hist)" using py_min_mem[of t ts] assms by simp
  then obtain h' where "h' \<in> set hist" "snap_timestamp h' = py_min t ts" by auto
  then show "snap_timestamp h \<le> py_min t ts + 3600" using a by (auto simp: list_all_iff)
qed

lemma dict_set_nonempty [simp]: "dict_set d k v \<noteq> []"
  by (cases d) (auto split: if_splits)

lemma oldest_oi_scan_empty:
  "oldest_oi_scan e hist acc = [] \<longleftrightarrow>
   acc = [] \<and> filter (\<lambda>h. snap_timestamp h \<le> e + 3600
                        \<and> (case snap_data h ''open_interest'' of Some oi \<Rightarrow> oi > 0 | None \<Rightarrow> False)) hist = []"
proof (induction hist arbitrary: acc)
  case Nil
  show ?case by simp
next
  case (Cons h hist)
  show ?case using Cons by (auto split: option.splits)
qed

lemma oldest_oi_scan_pos:
  "\<forall>(k, v) \<in> set acc. 0 < v \<Longrightarrow> \<forall>(k, v) \<in> set (oldest_oi_scan e hist acc). 0 < v"
proof (induction hist arbitrary: acc)
  case Nil
  then show ?case by simp
next
  case (Cons h hist)
  show ?case
  proof (cases "snap_timestamp h \<le> e + 3600 \<and> (\<exists>oi. snap_data h ''open_interest'' = Some oi \<and> oi > 0)")
    case True
    then obtain oi where oi: "snap_data h ''open_interest'' = Some oi" "oi > 0" by blast
    have "\<forall>(k, v) \<in> set (dict_set acc (snap_exchange h) oi). 0 < v"
      using dict_set_values[of acc "\<lambda>v. 0 < v"] Cons.prems oi by blast
    from Cons.IH[OF this] show ?thesis using True oi by simp
  next
    case False
    then show ?thesis using Cons by (auto split: option.splits)
  qed
qed

lemma first_hour_oi_eq:
  assumes "map snap_timestamp hist = t # ts"
  shows "oldest_oi_scan (py_min t ts) hist [] = [] \<longleftrightarrow> first_hour_oi hist = []"
  unfolding oldest_oi_scan_empty first_hour_oi_def within_first_hour[OF assms] by simp

lemma oi_surge_outcome:
  "signal_outcome (oi_surge_shortfall db now symb data) (compute_oi_surge db now symb data)"
proof -
  let ?hist = "get_snapshots db now symb ''open_interest'' 72"
  obtain pc where pc: "get_price_change db now symb data 72 = Inr pc"
    using get_price_change_returns by blast
  show ?thesis
  proof (cases "oi_present data")
    case False
    then show ?thesis
      by (simp add: oi_surge_shortfall_def compute_oi_surge_def Let_def oi_present_def)
  next
    case present: True
    show ?thesis
    proof (cases "?hist")
      case Nil
      then show ?thesis using present
        by (simp add: oi_surge_shortfall_def compute_oi_surge_def Let_def oi_present_def oi_total_def)
    next
      case (Cons h0 hs)
      then obtain t ts where tts: "map snap_timestamp ?hist = t # ts" by simp
      note fh = first_hour_oi_eq[OF tts]
      show ?thesis
      proof (cases "first_hour_oi ?hist = []")
        case True
        then have "oldest_oi_scan (py_min t ts) ?hist [] = []" using fh by simp
        then show ?thesis using present True Cons tts
          by (simp add: oi_surge_shortfall_def compute_oi_surge_def Let_def oi_present_def)
      next
        case False
        then have ne: "oldest_oi_scan (py_min t ts) ?hist [] \<noteq> []" using fh by simp
        have "\<forall>(k, v) \<in> set (oldest_oi_scan (py_min t ts) ?hist []). 0 < v"
          by (rule oldest_oi_scan_pos) simp
        then have "\<forall>x \<in> set (map snd (oldest_oi_scan (py_min t ts) ?hist [])). 0 < x" by auto
        moreover have "map snd (oldest_oi_scan (py_min t ts) ?hist []) \<noteq> []" using ne by simp
        ultimately have "0 < sum_list (map snd (oldest_oi_scan (py_min t ts) ?hist []))"
          using sum_list_pos by blast
        then have nz: "sum_list (map snd (oldest_oi_scan (py_min t ts) ?hist [])) \<noteq> 0" by simp
        have sh: "oi_surge_shortfall db now symb data = None"
          using present False Cons by (simp add: oi_surge_shortfall_def Let_def)
        show ?thesis
          unfolding sh compute_oi_surge_def Let_def
          using present ne nz tts
          by (simp add: oi_present_def pc py_div_nonzero signal_outcome_scored)
      qed
    qed
  qed
qed


lemma funding_rate_outcome:
  "signal_outcome (funding_rate_shortfall db now symb data) (compute_funding_rate db now symb data)"
  unfolding funding_rate_shortfall_def compute_funding_rate_def Let_def
  by (auto simp: signal_outcome_scored split: prod.splits)

lemma positive_oi_sum:
  "sum_list (filter (\<lambda>v. v \<noteq> 0 \<and> v > 0) (map snd (xs :: (string \<times> real) list))) = 0
   \<longleftrightarrow> filter (\<lambda>(ex, v). v \<noteq> 0 \<and> v > 0) xs = []"
proof (cases "filter (\<lambda>(ex, v). v \<noteq> 0 \<and> v > 0) xs = []")
  case True
  then have "filter (\<lambda>v. v \<noteq> 0 \<and> v > (0::real)) (map snd xs) = []"
    by (auto simp: filter_empty_conv)
  then show ?thesis using True by simp
next
  case False
  let ?ys = "filter (\<lambda>v. v \<noteq> 0 \<and> v > (0::real)) (map snd xs)"
  have "?ys \<noteq> []" using False by (force simp: filter_empty_conv)
  moreover have "\<forall>x \<in> set ?ys. 0 < x" by simp
  ultimately have "0 < sum_list ?ys" by (rule sum_list_pos)
  then show ?thesis using False by simp
qed

lemma liquidation_leverage_outcome:
  "signal_outcome (liquidation_leverage_shortfall db now symb data)
     (compute_liquidation_leverage db now symb data)"
  unfolding liquidation_leverage_shortfall_def compute_liquidation_leverage_def Let_def
    positive_oi_sum oi_present_def
  by (auto simp: signal_outcome_scored)

lemma dict_set_map_fst:
  "map fst (dict_set d k v) = (if k \<in> set (map fst d) then map fst d else map fst d @ [k])"
  by (induction d) force+

lemma dict_set_keys: "set (map fst (dict_set d k v)) = insert k (set (map fst d))"
  by (auto simp: dict_set_map_fst)

lemma dict_set_distinct: "distinct (map fst d) \<Longrightarrow> distinct (map fst (dict_set d k v))"
  by (auto simp: dict_set_map_fst)

lemma ticker_volumes_keys:
  "distinct (map fst acc) \<Longrightarrow>
   distinct (map fst (ticker_volumes ts acc))
   \<and> set (map fst (ticker_volumes ts acc))
       = set (map fst acc) \<union> set (map fst (filter (\<lambda>(ex, t). ticker_volume t > 0) ts))"
proof (induction ts arbitrary: acc)
  case Nil
  then show ?case by simp
next
  case (Cons a ts)
  obtain ex t where a: "a = (ex, t)" by (cases a)
  show ?case
  proof (cases "ticker_volume t > 0")
    case True
    have d: "distinct (map fst (dict_set acc ex (ticker_volume t)))"
      using Cons.prems by (rule dict_set_distinct)
    have k: "set (map fst (dict_set acc ex (ticker_volume t))) = insert ex (set (map fst acc))"
      by (rule dict_set_keys)
    show ?thesis using Cons.IH[OF d] True a unfolding k by (simp add: Let_def)
  next
    case False
    then show ?thesis using Cons.IH[OF Cons.prems] a by (simp add: Let_def)
  qed
qed

lemma volume_exchanges_length:
  "length (ticker_volumes (tickers data) []) = length (volume_exchanges data)"
proof -
  let ?v = "ticker_volumes (tickers data) []"
  have k: "distinct (map fst ?v)"
    "set (map fst ?v) = set (map fst (filter (\<lambda>(ex, t). ticker_volume t > 0) (tickers data)))"
    using ticker_volumes_keys[of "[]" "tickers data"] by simp_all
  have "length ?v = length (map fst ?v)" by simp
  also have "\<dots> = card (set (map fst ?v))" using k(1) by (simp only: distinct_card)
  also have "\<dots> = length (volume_exchanges data)"
    unfolding k(2) volume_exchanges_def by (simp only: length_remdups_card_conv)
  finally show ?thesis .
qed

lemma history_volumes_empty:
  "history_volumes hist = [] \<longleftrightarrow> list_all (\<lambda>h. ticker_volume (snap_data h) \<le> 0) hist"
  by (auto simp: history_volumes_def filter_empty_conv list_all_iff not_less)

lemma history_volumes_mean:
  assumes "history_volumes hist \<noteq> []"
  shows "np_mean (history_volumes hist) \<noteq> 0"
proof -
  have "\<forall>x \<in> set (history_volumes hist). 0 < x" by (simp add: history_volumes_def)
  then have "0 < sum_list (history_volumes hist)" using assms sum_list_pos by blast
  moreover have "0 < real (length (history_volumes hist))" using assms by simp
  ultimately have "0 < np_mean (history_volumes hist)" unfolding np_mean_def by simp
  then show ?thesis by simp
qed

lemma single_exchange_volume_outcome:
  "signal_outcome
     (let hist = get_snapshots db now symb ''ticker'' 72
      in if length hist < 5 then Some (''no hist'', [])
         else if list_all (\<lambda>h. ticker_volume (snap_data h) \<le> 0) hist then Some (''no hist vol'', [])
         else None)
     (single_exchange_volume db now symb [(ex, cur)])"
proof -
  let ?hist = "get_snapshots db now symb ''ticker'' 72"
  show ?thesis
  proof (cases "length ?hist < 5")
    case True
    then show ?thesis by (auto simp: single_exchange_volume_def Let_def)
  next
    case long: False
    then have ne: "?hist \<noteq> []" by auto
    show ?thesis
    proof (cases "history_volumes ?hist = []")
      case True
      then show ?thesis using long ne history_volumes_empty[of ?hist]
        by (simp add: single_exchange_volume_def Let_def)
    next
      case False
      note m = history_volumes_mean[OF False]
      show ?thesis using long ne False m history_volumes_empty[of ?hist]
        by (simp add: single_exchange_volume_def Let_def py_div_nonzero signal_outcome_scored)
    qed
  qed
qed

lemma cross_exchange_volume_outcome:
  "signal_outcome (cross_exchange_volume_shortfall db now symb data)
     (compute_cross_exchange_volume db now symb data)"
proof -
  let ?vols = "ticker_volumes (tickers data) []"
  note len = volume_exchanges_length[of data, symmetric]
  have pos: "\<forall>(k, v) \<in> set ?vols. 0 < v" by (rule ticker_volumes_pos) simp
  consider (none) "length ?vols = 0" | (one) "length ?vols = 1" | (more) "2 \<le> length ?vols"
    by linarith
  then show ?thesis
  proof cases
    case none
    then show ?thesis
      unfolding cross_exchange_volume_shortfall_def compute_cross_exchange_volume_def Let_def len
      by simp
  next
    case one
    then obtain ex cur where v: "?vols = [(ex, cur)]"
      by (cases ?vols) (auto simp: length_Suc_conv)
    show ?thesis
      unfolding cross_exchange_volume_shortfall_def compute_cross_exchange_volume_def Let_def len
      using one single_exchange_volume_outcome[of db now symb ex cur]
      by (simp add: v Let_def)
  next
    case more
    then obtain v0 vs where v: "?vols = v0 # vs" by (cases ?vols) auto
    have "\<forall>x \<in> set (map snd ?vols). 0 < x" using pos by auto
    moreover have "map snd ?vols \<noteq> []" using v by simp
    ultimately have "0 < np_median (map snd ?vols)" by (rule np_median_pos)
    then have med: "np_median (map snd (v0 # vs)) \<noteq> 0" "\<not> np_median (map snd (v0 # vs)) \<le> 0"
      unfolding v by simp_all
    have sh: "cross_exchange_volume_shortfall db now symb data = None"
      unfolding cross_exchange_volume_shortfall_def Let_def len using more by (auto simp: v)
    show ?thesis
      unfolding sh compute_cross_exchange_volume_def Let_def
      using more
      by (auto simp: v py_div_nonzero[OF med(1)] med(2) signal_outcome_scored simp del: list.map)
  qed
qed

lemma depth_imbalance_outcome:
  "signal_outcome (depth_imbalance_shortfall db now symb data) (compute_depth_imbalance db now symb data)"
  unfolding depth_imbalance_shortfall_def compute_depth_imbalance_def Let_def
  by (auto simp: signal_outcome_scored)

lemma first_long_candles_empty:
  "first_long_candles cs = [] \<longleftrightarrow> list_all (\<lambda>(ex, c). length c < 20) cs"
  by (induction cs) (auto split: if_splits)

lemma volume_price_decouple_outcome:
  "signal_outcome (volume_price_decouple_shortfall db now symb data)
     (compute_volume_price_decouple db now symb data)"
proof -
  let ?c = "first_long_candles (ohlcv data)"
  show ?thesis
  proof (cases "?c = []")
    case True
    then show ?thesis
      unfolding volume_price_decouple_shortfall_def compute_volume_price_decouple_def Let_def
        first_long_candles_empty[symmetric]
      by simp
  next
    case False
    then have len: "20 \<le> length ?c" by (rule first_long_candles_length)
    have nl: "\<not> list_all (\<lambda>(ex, c). length c < 20) (ohlcv data)"
      using False first_long_candles_empty[of "ohlcv data"] by simp
    let ?recent = "if length ?c \<ge> 48 then drop (length ?c - 24) ?c else drop (length ?c div 2) ?c"
    have "?recent \<noteq> []" using len by auto
    then obtain r0 rs where r: "?recent = r0 # rs" by (cases ?recent) auto
    have rl: "py_last (r0 # rs) = Inr (last (r0 # rs))" by (rule py_last_nonempty) simp
    show ?thesis
    proof (cases "length ?c \<ge> 48")
      case True
      with r have r': "drop (length ?c - 24) ?c = r0 # rs" by simp
      show ?thesis
        unfolding volume_price_decouple_shortfall_def compute_volume_price_decouple_def Let_def
          previous_window_def
        using False True len nl
        by (simp add: r' py_div_nonzero rl signal_outcome_scored del: last.simps)
    next
      case short: False
      with r have r': "drop (length ?c div 2) ?c = r0 # rs" by simp
      show ?thesis
        unfolding volume_price_decouple_shortfall_def compute_volume_price_decouple_def Let_def
          previous_window_def
        using False short len nl
        by (simp add: r' py_div_nonzero rl signal_outcome_scored del: last.simps)
    qed
  qed
qed

lemma volatility_compression_outcome:
  "signal_outcome (volatility_compression_shortfall db now symb data)
     (compute_volatility_compression db now symb data)"
proof -
  let ?c = "longest_candles (ohlcv data) []"
  let ?b = "band_widths (map c_close ?c)"
  show ?thesis
  proof (cases "length ?c < 30 \<or> length ?b < 5")
    case True
    then show ?thesis
      unfolding volatility_compression_shortfall_def compute_volatility_compression_def Let_def
      by (auto simp: insufficient_def signal_outcome_def)
  next
    case False
    then have c: "?c \<noteq> []" and b: "?b \<noteq> []" by auto
    have lb: "py_last ?b = Inr (last ?b)" using b by (rule py_last_nonempty)
    have lc: "py_last (map c_close ?c) = Inr (last (map c_close ?c))"
      using c by (intro py_last_nonempty) simp
    have d: "real (length ?b) \<noteq> 0" using b by simp
    show ?thesis
      unfolding volatility_compression_shortfall_def compute_volatility_compression_def Let_def
      using False c b
      by (simp add: lb lc py_div_nonzero[OF d] signal_outcome_scored)
  qed
qed

lemma long_short_ratio_outcome:
  "signal_outcome (long_short_ratio_shortfall db now symb data)
     (compute_long_short_ratio db now symb data)"
  unfolding long_short_ratio_shortfall_def compute_long_short_ratio_def Let_def
  by (auto simp: signal_outcome_scored py_last_nonempty split: option.splits)

lemma futures_spot_divergence_outcome:
  "signal_outcome (futures_spot_divergence_shortfall db now symb data)
     (compute_futures_spot_divergence db now symb data)"
proof -
  let ?hist = "get_snapshots db now symb ''ticker'' 72"
  show ?thesis
  proof (cases "tickers data = [] \<or> length ?hist < 5")
    case True
    then show ?thesis
      unfolding futures_spot_divergence_shortfall_def compute_futures_spot_divergence_def Let_def
      by auto
  next
    case long: False
    then have ne: "?hist \<noteq> []" by auto
    show ?thesis
    proof (cases "history_volumes ?hist = []")
      case True
      then show ?thesis using long ne history_volumes_empty[of ?hist]
        unfolding futures_spot_divergence_shortfall_def compute_futures_spot_divergence_def Let_def
        by simp
    next
      case False
      note m = history_volumes_mean[OF False]
      show ?thesis using long ne False m history_volumes_empty[of ?hist]
        unfolding futures_spot_divergence_shortfall_def compute_futures_spot_divergence_def Let_def
        by (simp add: py_div_nonzero signal_outcome_scored)
    qed
  qed
qed

lemma empty_bundle_signals:
  assumes "get_snapshots db now symb ''long_short_ratio'' 24 = []"
  shows "run_computations db now symb empty_bundle signal_computations = Inr no_data_signals"
proof -
  have "compute_oi_surge db now symb empty_bundle = Inr (insufficient ''no OI'' [])"
    by (simp add: compute_oi_surge_def empty_bundle_def)
  moreover have "compute_funding_rate db now symb empty_bundle = Inr (insufficient ''no funding'' [])"
    by (simp add: compute_funding_rate_def empty_bundle_def)
  moreover have "compute_liquidation_leverage db now symb empty_bundle = Inr (insufficient ''no price'' [])"
    by (simp add: compute_liquidation_leverage_def get_current_price_def empty_bundle_def)
  moreover have "compute_cross_exchange_volume db now symb empty_bundle
      = Inr (insufficient ''need 2+ exchanges'' [])"
    by (simp add: compute_cross_exchange_volume_def empty_bundle_def)
  moreover have "compute_depth_imbalance db now symb empty_bundle = Inr (insufficient ''no asks'' [])"
    by (simp add: compute_depth_imbalance_def book_value_def empty_bundle_def)
  moreover have "compute_volume_price_decouple db now symb empty_bundle = Inr (insufficient ''no OHLCV'' [])"
    by (simp add: compute_volume_price_decouple_def empty_bundle_def)
  moreover have "compute_volatility_compression db now symb empty_bundle
      = Inr (insufficient ''no data'' [(''candles'', MInt 0)])"
    by (simp add: compute_volatility_compression_def empty_bundle_def)
  moreover have "compute_long_short_ratio db now symb empty_bundle = Inr (insufficient ''no L/S'' [])"
    using assms by (simp add: compute_long_short_ratio_def empty_bundle_def)
  moreover have "compute_futures_spot_divergence db now symb empty_bundle
      = Inr (insufficient ''no tickers'' [])"
    by (simp add: compute_futures_spot_divergence_def empty_bundle_def)
  ultimately show ?thesis by (simp add: signal_computations_def no_data_signals_def)
qed

text \<open>
  Claim C7. For every data bundle and every database history, each of the nine signal
  computations of \<open>SignalEngine\<close> returns (no division by zero, no index out of range)
  with a normalized score in [0, 100], and a result that reports a reason has raw value 0
  and normalized score 0; \<open>compute_all\<close> returns the nine signals. In particular
  \<open>oi_surge\<close> with current open interest present and no historical open-interest
  snapshot returns raw 0, normalized 0 and the reason "no hist OI". On insufficient data,
  as each signal decides it, the signal returns raw value 0, normalized score 0 and the
  reason for the shortfall, and on sufficient data a result without a reason; a bundle
  without any data, with no long/short snapshot in the last 24 hours, gives nine such zero
  results.
\<close>

theorem signals_never_raise:
  "signal_ok (compute_oi_surge db now symb data)
   \<and> signal_ok (compute_funding_rate db now symb data)
   \<and> signal_ok (compute_liquidation_leverage db now symb data)
   \<and> signal_ok (compute_cross_exchange_volume db now symb data)
   \<and> signal_ok (compute_depth_imbalance db now symb data)
   \<and> signal_ok (compute_volume_price_decouple db now symb data)
   \<and> signal_ok (compute_volatility_compression db now symb data)
   \<and> signal_ok (compute_long_short_ratio db now symb data)
   \<and> signal_ok (compute_futures_spot_divergence db now symb data)
   \<and> (\<exists>db' signals. compute_all db now symb data = Inr (db', signals)
         \<and> map fst signals = map fst SIGNAL_WEIGHTS)
   \<and> (oi_present data \<and> get_snapshots db now symb ''open_interest'' 72 = [] \<longrightarrow>
         compute_oi_surge db now symb data
           = Inr \<lparr>raw_value = 0, normalized_score = 0,
                  sig_metadata = [(''reason'', MStr ''no hist OI''),
                                  (''current_oi'', MNum (oi_total data))]\<rparr>)
   \<and> signal_outcome (oi_surge_shortfall db now symb data)
        (compute_oi_surge db now symb data)
   \<and> signal_outcome (funding_rate_shortfall db now symb data)
        (compute_funding_rate db now symb data)
   \<and> signal_outcome (liquidation_leverage_shortfall db now symb data)
        (compute_liquidation_leverage db now symb data)
   \<and> signal_outcome (cross_exchange_volume_shortfall db now symb data)
        (compute_cross_exchange_volume db now symb data)
   \<and> signal_outcome (depth_imbalance_shortfall db now symb data)
        (compute_depth_imbalance db now symb data)
   \<and> signal_outcome (volume_price_decouple_shortfall db now symb data)
        (compute_volume_price_decouple db now symb data)
   \<and> signal_outcome (volatility_compression_shortfall db now symb data)
        (compute_volatility_compression db now symb data)
   \<and> signal_outcome (long_short_ratio_shortfall db now symb data)
        (compute_long_short_ratio db now symb data)
   \<and> signal_outcome (futures_spot_divergence_shortfall db now symb data)
        (compute_futures_spot_divergence db now symb data)
   \<and> (get_snapshots db now symb ''long_short_ratio'' 24 = [] \<longrightarrow>
         (\<exists>db'. compute_all db now symb empty_bundle = Inr (db', no_data_signals)))"
proof -
  have names: "map fst signal_computations = map fst SIGNAL_WEIGHTS"
    by (simp add: signal_computations_def SIGNAL_WEIGHTS_def)
  have old: "(\<exists>db' signals. compute_all db now symb data = Inr (db', signals)
         \<and> map fst signals = map fst SIGNAL_WEIGHTS)
   \<and> (oi_present data \<and> get_snapshots db now symb ''open_interest'' 72 = [] \<longrightarrow>
         compute_oi_surge db now symb data
           = Inr \<lparr>raw_value = 0, normalized_score = 0,
                  sig_metadata = [(''reason'', MStr ''no hist OI''),
                                  (''current_oi'', MNum (oi_total data))]\<rparr>)"
    using compute_all_returns[of db now symb data] oi_surge_no_history[of data db now symb]
    unfolding names by blast
  have empty: "get_snapshots db now symb ''long_short_ratio'' 24 = [] \<longrightarrow>
         (\<exists>db'. compute_all db now symb empty_bundle = Inr (db', no_data_signals))"
    by (simp add: compute_all_def empty_bundle_signals Let_def)
  show ?thesis
    by (intro conjI oi_surge_ok funding_rate_ok liquidation_leverage_ok
      cross_exchange_volume_ok depth_imbalance_ok volume_price_decouple_ok
      volatility_compression_ok long_short_ratio_ok futures_spot_divergence_ok
      old[THEN conjunct1] old[THEN conjunct2] oi_surge_outcome funding_rate_outcome
      liquidation_leverage_outcome cross_exchange_volume_outcome depth_imbalance_outcome
      volume_price_decouple_outcome volatility_compression_outcome long_short_ratio_outcome
      futures_spot_divergence_outcome empty)
qed

theorem signals_never_raise_witness:
  "oi_present oi_only_bundle
   \<and> get_snapshots empty_database 0 ''DOGE'' ''open_interest'' 72 = []
   \<and> compute_oi_surge empty_database 0 ''DOGE'' oi_only_bundle
        = Inr \<lparr>raw_value = 0, normalized_score = 0,
               sig_metadata = [(''reason'', MStr ''no hist OI''), (''current_oi'', MNum 1000)]\<rparr>
   \<and> signal_ok (compute_funding_rate empty_database 0 ''DOGE'' oi_only_bundle)
   \<and> funding_rate_shortfall empty_database 0 ''DOGE'' oi_only_bundle = Some (''no funding'', [])
   \<and> compute_funding_rate empty_database 0 ''DOGE'' oi_only_bundle
        = Inr \<lparr>raw_value = 0, normalized_score = 0,
               sig_metadata = [(''reason'', MStr ''no funding'')]\<rparr>
   \<and> get_snapshots empty_database 0 ''DOGE'' ''long_short_ratio'' 24 = []
   \<and> (\<exists>db'. compute_all empty_database 0 ''DOGE'' empty_bundle = Inr (db', no_data_signals))"
proof -
  have p: "oi_present oi_only_bundle"
    by (simp add: oi_present_def oi_only_bundle_def empty_bundle_def)
  have h: "get_snapshots empty_database 0 ''DOGE'' ''open_interest'' 72 = []"
    by (simp add: get_snapshots_def empty_database_def)
  have l: "get_snapshots empty_database 0 ''DOGE'' ''long_short_ratio'' 24 = []"
    by (simp add: get_snapshots_def empty_database_def)
  have t: "oi_total oi_only_bundle = 1000"
    by (simp add: oi_total_def oi_only_bundle_def empty_bundle_def)
  have f: "funding_rate_shortfall empty_database 0 ''DOGE'' oi_only_bundle = Some (''no funding'', [])"
    by (simp add: funding_rate_shortfall_def oi_only_bundle_def empty_bundle_def)
  note inst = signals_never_raise[of empty_database 0 "''DOGE''" oi_only_bundle]
  from inst p h
  have a: "compute_oi_surge empty_database 0 ''DOGE'' oi_only_bundle
        = Inr \<lparr>raw_value = 0, normalized_score = 0,
               sig_metadata = [(''reason'', MStr ''no hist OI''), (''current_oi'', MNum (oi_total oi_only_bundle))]\<rparr>"
    and b: "signal_ok (compute_funding_rate empty_database 0 ''DOGE'' oi_only_bundle)"
    by blast+
  from inst have "signal_outcome (funding_rate_shortfall empty_database 0 ''DOGE'' oi_only_bundle)
        (compute_funding_rate empty_database 0 ''DOGE'' oi_only_bundle)"
    by blast
  then have c: "compute_funding_rate empty_database 0 ''DOGE'' oi_only_bundle
        = Inr \<lparr>raw_value = 0, normalized_score = 0,
               sig_metadata = [(''reason'', MStr ''no funding'')]\<rparr>"
    unfolding f by (simp add: signal_outcome_def)
  from inst l have d: "\<exists>db'. compute_all empty_database 0 ''DOGE'' empty_bundle = Inr (db', no_data_signals)"
    by blast
  show ?thesis using p h l f a b c d unfolding t by (intro conjI)
qed

end
